theory Spec2Isabelle
  imports Main
begin

section \<open>Strings\<close>

text \<open>
  A JavaScript string is a sequence of 16-bit code units. The model has the strings
  whose code units are below 256: a HOL character stands for the code unit of its
  number, so \<open>CHR 0xA0\<close> is the no-break space U+00A0 and \<open>CHR 0xC0\<close> is the capital
  A with grave U+00C0. On these strings the methods that \<^verbatim>\<open>src/main.js\<close> calls are
  modelled in full. \<^verbatim>\<open>toLowerCase\<close> maps \<open>A..Z\<close> to \<open>a..z\<close> and the capital letters
  U+00C0 to U+00DE (the multiplication sign U+00D7 is not one) to the letters 32 places
  up; no other code unit below 256 changes. \<^verbatim>\<open>trim\<close> removes white space and line
  terminators at both ends: below 256 these are tab, line feed, vertical tab, form
  feed, carriage return, space and the no-break space.
\<close>

definition lower_char :: "char \<Rightarrow> char" where
  "lower_char c =
     (case map_of
        (zip (''ABCDEFGHIJKLMNOPQRSTUVWXYZ''
              @ [CHR 0xC0, CHR 0xC1, CHR 0xC2, CHR 0xC3, CHR 0xC4, CHR 0xC5, CHR 0xC6, CHR 0xC7,
                 CHR 0xC8, CHR 0xC9, CHR 0xCA, CHR 0xCB, CHR 0xCC, CHR 0xCD, CHR 0xCE, CHR 0xCF,
                 CHR 0xD0, CHR 0xD1, CHR 0xD2, CHR 0xD3, CHR 0xD4, CHR 0xD5, CHR 0xD6, CHR 0xD8,
                 CHR 0xD9, CHR 0xDA, CHR 0xDB, CHR 0xDC, CHR 0xDD, CHR 0xDE])
             (''abcdefghijklmnopqrstuvwxyz''
              @ [CHR 0xE0, CHR 0xE1, CHR 0xE2, CHR 0xE3, CHR 0xE4, CHR 0xE5, CHR 0xE6, CHR 0xE7,
                 CHR 0xE8, CHR 0xE9, CHR 0xEA, CHR 0xEB, CHR 0xEC, CHR 0xED, CHR 0xEE, CHR 0xEF,
                 CHR 0xF0, CHR 0xF1, CHR 0xF2, CHR 0xF3, CHR 0xF4, CHR 0xF5, CHR 0xF6, CHR 0xF8,
                 CHR 0xF9, CHR 0xFA, CHR 0xFB, CHR 0xFC, CHR 0xFD, CHR 0xFE])) c of
        None \<Rightarrow> c
      | Some l \<Rightarrow> l)"

definition toLowerCase :: "string \<Rightarrow> string" where
  "toLowerCase s = map lower_char s"

definition endsWith :: "string \<Rightarrow> string \<Rightarrow> bool" where
  "endsWith s suffix = (length suffix \<le> length s \<and> drop (length s - length suffix) s = suffix)"

definition is_space :: "char \<Rightarrow> bool" where
  "is_space c =
     (c \<in> set [CHR 0x09, CHR 0x0A, CHR 0x0B, CHR 0x0C, CHR 0x0D, CHR 0x20, CHR 0xA0])"

definition trim :: "string \<Rightarrow> string" where
  "trim s = rev (dropWhile is_space (rev (dropWhile is_space s)))"

text \<open>Decimal printing of an integer, as a template literal prints a number.\<close>

fun digits :: "nat \<Rightarrow> nat \<Rightarrow> string" where
  "digits 0 n = []"
| "digits (Suc fuel) n =
     (if n < 10 then [''0123456789'' ! n]
      else digits fuel (n div 10) @ [''0123456789'' ! (n mod 10)])"

definition show_int :: "int \<Rightarrow> string" where
  "show_int i = (if i < 0 then CHR ''-'' # digits (Suc (nat (- i))) (nat (- i))
                 else digits (Suc (nat i)) (nat i))"

text \<open>
  \<^verbatim>\<open>s.split(c)\<close> and \<^verbatim>\<open>a.join(c)\<close> for a one-character separator: the pieces
  between separators, empty pieces included, and back.
\<close>

fun split_on :: "char \<Rightarrow> string \<Rightarrow> string list" where
  "split_on c [] = [[]]"
| "split_on c (x # xs) =
     (if x = c then [] # split_on c xs
      else (case split_on c xs of [] \<Rightarrow> [[x]] | s # ss \<Rightarrow> (x # s) # ss))"

fun join_on :: "char \<Rightarrow> string list \<Rightarrow> string" where
  "join_on c [] = []"
| "join_on c [s] = s"
| "join_on c (s # t # ss) = s @ c # join_on c (t # ss)"

section \<open>The path module\<close>

text \<open>
  \<^verbatim>\<open>path.dirname\<close>, \<^verbatim>\<open>path.basename\<close>, \<^verbatim>\<open>path.extname\<close>, \<^verbatim>\<open>path.join\<close> and
  \<^verbatim>\<open>path.normalize\<close> are functions of the Node.js runtime, not of the repository. They
  are modelled here as the POSIX variant of the module computes them: the separator is
  \<open>/\<close>, a path is split into segments at separators (\<open>split_on\<close>), and the last segment that is left
  once trailing separators are dropped is the path's component.
\<close>

definition is_sep :: "char \<Rightarrow> bool" where
  "is_sep c = (c = CHR ''/'')"

text \<open>
  One step of \<^verbatim>\<open>normalizeString\<close>: an empty segment and \<open>.\<close> are dropped, \<open>..\<close>
  removes the segment before it (unless there is none or it is \<open>..\<close> itself, when it
  is kept only if the path may climb above its root), any other segment is kept.
\<close>

definition norm_step :: "bool \<Rightarrow> string list \<Rightarrow> string \<Rightarrow> string list" where
  "norm_step allowAboveRoot res seg =
     (if seg = [] \<or> seg = ''.'' then res
      else if seg = ''..'' then
        (if res \<noteq> [] \<and> last res \<noteq> ''..'' then butlast res
         else if allowAboveRoot then res @ [''..''] else res)
      else res @ [seg])"

definition normalizeString :: "string \<Rightarrow> bool \<Rightarrow> string" where
  "normalizeString p allowAboveRoot =
     join_on (CHR ''/'') (foldl (norm_step allowAboveRoot) [] (split_on (CHR ''/'') p))"

definition path_normalize :: "string \<Rightarrow> string" where
  "path_normalize p =
     (if p = [] then ''.''
      else
        let isAbsolute = is_sep (hd p);
            trailingSeparator = is_sep (last p);
            q = normalizeString p (\<not> isAbsolute)
        in if q = [] then (if isAbsolute then ''/'' else if trailingSeparator then ''./'' else ''.'')
           else (if isAbsolute then ''/'' else []) @ q @ (if trailingSeparator then ''/'' else []))"

text \<open>\<^verbatim>\<open>path.join(a, b)\<close>: the non-empty arguments joined by a separator, normalised.\<close>

definition path_join :: "string \<Rightarrow> string \<Rightarrow> string" where
  "path_join a b =
     (if a = [] \<and> b = [] then ''.''
      else path_normalize (if a = [] then b else if b = [] then a else a @ CHR ''/'' # b))"

text \<open>The component of a path: what follows the last separator, trailing separators apart.\<close>

definition component :: "string \<Rightarrow> string" where
  "component p = rev (takeWhile (\<lambda>c. \<not> is_sep c) (dropWhile is_sep (rev p)))"

text \<open>
  \<^verbatim>\<open>path.dirname\<close> scans the path from its end down to index 1: trailing separators
  are skipped, then the component, and the path is cut at the separator before it.
\<close>

definition dirname :: "string \<Rightarrow> string" where
  "dirname p =
     (if p = [] then ''.''
      else
        let hasRoot = is_sep (hd p);
            r = dropWhile (\<lambda>c. \<not> is_sep c) (dropWhile is_sep (rev (tl p)))
        in if r = [] then (if hasRoot then ''/'' else ''.'')
           else if hasRoot \<and> length r = 1 then ''//''
           else take (length r) p)"

text \<open>
  \<^verbatim>\<open>path.extname\<close>: from the last dot of the component to its end; empty when the
  component has no dot, when its last dot is its first character, or when it is \<open>..\<close>.
\<close>

definition extname :: "string \<Rightarrow> string" where
  "extname p =
     (let c = component p;
          e = rev (takeWhile (\<lambda>x. x \<noteq> CHR ''.'') (rev c))
      in if CHR ''.'' \<notin> set c \<or> length c = Suc (length e) \<or> c = ''..'' then []
         else drop (length c - Suc (length e)) c)"

text \<open>
  \<^verbatim>\<open>path.basename(p, suffix)\<close>: the component, without the suffix when the component
  ends with it and is longer than it. (The runtime's result differs from this only for
  a suffix longer than the component; the job passes \<^verbatim>\<open>path.extname(p)\<close>, which is
  never longer.)
\<close>

definition basename :: "string \<Rightarrow> string \<Rightarrow> string" where
  "basename p suffix =
     (let c = component p
      in if suffix \<noteq> [] \<and> length suffix < length c \<and> endsWith c suffix
         then take (length c - length suffix) c else c)"

section \<open>Errors and results\<close>

text \<open>
  A JavaScript \<^verbatim>\<open>Error\<close> is its message. The job's result is the object the handler
  returns: \<^verbatim>\<open>{ ok, outputPath?, error?, note? }\<close> (\<open>note\<close> is a keyword of
  Isabelle, so the field is \<open>result_note\<close>).
\<close>

datatype js_error = Error (message: string)

record job_result =
  ok :: bool
  outputPath :: "string option"
  error :: "string option"
  result_note :: "string option"

definition failed :: "string \<Rightarrow> job_result" where
  "failed msg = \<lparr>ok = False, outputPath = None, error = Some msg, result_note = None\<rparr>"

definition succeeded :: "string \<Rightarrow> string option \<Rightarrow> job_result" where
  "succeeded p n = \<lparr>ok = True, outputPath = Some p, error = None, result_note = n\<rparr>"

section \<open>The file system\<close>

text \<open>
  The file system is a table from paths to nodes, in directory order, and a clock. A
  regular file has its content, its modification time and two permissions; a directory
  says whether entries may be added to it and removed from it, and what \<^verbatim>\<open>stat\<close>
  reports as its size and modification time.

  A path names the node stored under its key: its normal form without the separator
  that may end it. A path that ends with a separator names a directory only, and a path
  with a NUL character names nothing: the \<^verbatim>\<open>fs\<close> module refuses it before it
  reaches the operating system, with an error whose message \<open>refuses\<close> is a parameter
  of the model. The operations fail as the operating system's do, and an error has the
  message that Node gives it: the code, its description, the system call and the path
  in quotes.
\<close>

datatype node =
    File (content: string) (mtime: int) (readable: bool) (writable: bool)
  | Dir (entries_writable: bool) (dir_size: nat) (dir_mtime: int)

record fs =
  nodes :: "(string \<times> node) list"
  now :: int
  refuses :: "string \<Rightarrow> string"

record stats =
  size :: nat
  mtimeMs :: int

definition has_nul :: "string \<Rightarrow> bool" where
  "has_nul s = (CHR 0x00 \<in> set s)"

definition as_directory :: "string \<Rightarrow> bool" where
  "as_directory p = (1 < length (path_normalize p) \<and> last (path_normalize p) = CHR ''/'')"

definition fs_key :: "string \<Rightarrow> string" where
  "fs_key p = (if as_directory p then butlast (path_normalize p) else path_normalize p)"

datatype probe = Refused | Missing | NotDir | Found node

definition probe_path :: "fs \<Rightarrow> string \<Rightarrow> probe" where
  "probe_path f p =
     (if has_nul p then Refused
      else case map_of (nodes f) (fs_key p) of
             None \<Rightarrow> Missing
           | Some (File c t r w) \<Rightarrow> if as_directory p then NotDir else Found (File c t r w)
           | Some (Dir w s t) \<Rightarrow> Found (Dir w s t))"

definition lookup :: "fs \<Rightarrow> string \<Rightarrow> node option" where
  "lookup f p = (case probe_path f p of Found n \<Rightarrow> Some n | _ \<Rightarrow> None)"

definition quoted :: "string \<Rightarrow> string" where
  "quoted p = CHR 0x27 # p @ [CHR 0x27]"

text \<open>The error of the system call \<open>call\<close> on a path that names no node.\<close>

definition path_error :: "fs \<Rightarrow> string \<Rightarrow> string \<Rightarrow> js_error" where
  "path_error f call p =
     (case probe_path f p of
        Refused \<Rightarrow> Error (refuses f p)
      | NotDir \<Rightarrow> Error (''ENOTDIR: not a directory, '' @ call @ '' '' @ quoted p)
      | _ \<Rightarrow> Error (''ENOENT: no such file or directory, '' @ call @ '' '' @ quoted p))"

definition parent_writable :: "fs \<Rightarrow> string \<Rightarrow> bool" where
  "parent_writable f p =
     (case lookup f (dirname (fs_key p)) of
        Some (Dir w s t) \<Rightarrow> w
      | _ \<Rightarrow> False)"

definition is_entry_name :: "string \<Rightarrow> bool" where
  "is_entry_name n = (n \<noteq> [] \<and> n \<noteq> ''.'' \<and> n \<noteq> ''..'')"

text \<open>The names in a directory: the components of the keys that the directory joins to.\<close>

definition children :: "fs \<Rightarrow> string \<Rightarrow> string list" where
  "children f d =
     map component
       (filter (\<lambda>k. is_entry_name (component k) \<and> path_join d (component k) = k)
          (map fst (nodes f)))"

definition fs_exists :: "fs \<Rightarrow> string \<Rightarrow> bool" where
  "fs_exists f p = (lookup f p \<noteq> None)"

definition fs_stat :: "fs \<Rightarrow> string \<Rightarrow> js_error + stats" where
  "fs_stat f p =
     (case lookup f p of
        None \<Rightarrow> Inl (path_error f ''stat'' p)
      | Some (File c t r w) \<Rightarrow> Inr \<lparr>size = length c, mtimeMs = t\<rparr>
      | Some (Dir w s t) \<Rightarrow> Inr \<lparr>size = s, mtimeMs = t\<rparr>)"

definition fs_readdir :: "fs \<Rightarrow> string \<Rightarrow> js_error + string list" where
  "fs_readdir f d =
     (case lookup f d of
        None \<Rightarrow> Inl (path_error f ''scandir'' d)
      | Some (File c t r w) \<Rightarrow> Inl (Error (''ENOTDIR: not a directory, scandir '' @ quoted d))
      | Some (Dir w s t) \<Rightarrow> Inr (children f d))"

definition fs_readFile :: "fs \<Rightarrow> string \<Rightarrow> js_error + string" where
  "fs_readFile f p =
     (case lookup f p of
        None \<Rightarrow> Inl (path_error f ''open'' p)
      | Some (File c t r w) \<Rightarrow>
          if r then Inr c else Inl (Error (''EACCES: permission denied, open '' @ quoted p))
      | Some (Dir w s t) \<Rightarrow> Inl (Error ''EISDIR: illegal operation on a directory, read''))"

definition set_node :: "string \<Rightarrow> node \<Rightarrow> (string \<times> node) list \<Rightarrow> (string \<times> node) list" where
  "set_node k n xs = map (\<lambda>(k', n'). if k' = k then (k', n) else (k', n')) xs"

text \<open>
  \<^verbatim>\<open>writeFileSync\<close> opens the file for writing, creates it when it is not there and
  replaces its content. A new file needs a parent directory that takes entries.
\<close>

definition fs_writeFile :: "fs \<Rightarrow> string \<Rightarrow> string \<Rightarrow> js_error + fs" where
  "fs_writeFile f p s =
     (case probe_path f p of
        Found (File c t r w) \<Rightarrow>
          if w then Inr (f\<lparr>nodes := set_node (fs_key p) (File s (now f) r w) (nodes f)\<rparr>)
          else Inl (Error (''EACCES: permission denied, open '' @ quoted p))
      | Found (Dir w s' t) \<Rightarrow>
          Inl (Error (''EISDIR: illegal operation on a directory, open '' @ quoted p))
      | Missing \<Rightarrow>
          if as_directory p
          then Inl (Error (''EISDIR: illegal operation on a directory, open '' @ quoted p))
          else (case lookup f (dirname (fs_key p)) of
                  Some (Dir w s' t) \<Rightarrow>
                    if w then Inr (f\<lparr>nodes := nodes f @ [(fs_key p, File s (now f) True True)]\<rparr>)
                    else Inl (Error (''EACCES: permission denied, open '' @ quoted p))
                | Some (File c t r w) \<Rightarrow>
                    Inl (Error (''ENOTDIR: not a directory, open '' @ quoted p))
                | None \<Rightarrow>
                    Inl (Error (''ENOENT: no such file or directory, open '' @ quoted p)))
      | _ \<Rightarrow> Inl (path_error f ''open'' p))"

definition fs_unlink :: "fs \<Rightarrow> string \<Rightarrow> js_error + fs" where
  "fs_unlink f p =
     (case lookup f p of
        None \<Rightarrow> Inl (path_error f ''unlink'' p)
      | Some (File c t r w) \<Rightarrow>
          if parent_writable f p
          then Inr (f\<lparr>nodes := filter (\<lambda>(k, n). k \<noteq> fs_key p) (nodes f)\<rparr>)
          else Inl (Error (''EACCES: permission denied, unlink '' @ quoted p))
      | Some (Dir w s t) \<Rightarrow> Inl (Error (''EISDIR: illegal operation on a directory, unlink '' @ quoted p)))"

section \<open>The world of a job: file system, trace, external programs\<close>

text \<open>
  The handler runs in a world: the file system and the trace of the calls it has made
  to the file system and to external programs, in the order it made them. A computation
  takes a world and returns a value or a thrown error, and the world it leaves.
\<close>

datatype event =
    Exists string
  | Stat string
  | Readdir string
  | ReadFile string
  | WriteFile string string
  | Unlink string
  | Spawn string "string list"
  | ExecFile string "string list"

record world =
  fsys :: fs
  trace :: "event list"

type_synonym 'a io = "world \<Rightarrow> (js_error + 'a) \<times> world"

definition io_return :: "'a \<Rightarrow> 'a io" where
  "io_return x = (\<lambda>w. (Inr x, w))"

definition io_throw :: "js_error \<Rightarrow> 'a io" where
  "io_throw e = (\<lambda>w. (Inl e, w))"

definition io_bind :: "'a io \<Rightarrow> ('a \<Rightarrow> 'b io) \<Rightarrow> 'b io" where
  "io_bind m k = (\<lambda>w. case m w of (Inl e, w') \<Rightarrow> (Inl e, w') | (Inr x, w') \<Rightarrow> k x w')"

text \<open>\<^verbatim>\<open>try { m } catch (e) { h e }\<close>\<close>

definition io_catch :: "'a io \<Rightarrow> (js_error \<Rightarrow> 'a io) \<Rightarrow> 'a io" where
  "io_catch m h = (\<lambda>w. case m w of (Inl e, w') \<Rightarrow> h e w' | (Inr x, w') \<Rightarrow> (Inr x, w'))"

definition record_event :: "event \<Rightarrow> world \<Rightarrow> world" where
  "record_event e w = w\<lparr>trace := trace w @ [e]\<rparr>"

definition existsSync :: "string \<Rightarrow> bool io" where
  "existsSync p = (\<lambda>w. (Inr (fs_exists (fsys w) p), record_event (Exists p) w))"

definition statSync :: "string \<Rightarrow> stats io" where
  "statSync p = (\<lambda>w. (fs_stat (fsys w) p, record_event (Stat p) w))"

definition readdirSync :: "string \<Rightarrow> string list io" where
  "readdirSync d = (\<lambda>w. (fs_readdir (fsys w) d, record_event (Readdir d) w))"

definition readFileSync :: "string \<Rightarrow> string io" where
  "readFileSync p = (\<lambda>w. (fs_readFile (fsys w) p, record_event (ReadFile p) w))"

definition writeFileSync :: "string \<Rightarrow> string \<Rightarrow> unit io" where
  "writeFileSync p s =
     (\<lambda>w. case fs_writeFile (fsys w) p s of
             Inl e \<Rightarrow> (Inl e, record_event (WriteFile p s) w)
           | Inr f \<Rightarrow> (Inr (), record_event (WriteFile p s) (w\<lparr>fsys := f\<rparr>)))"

definition unlinkSync :: "string \<Rightarrow> unit io" where
  "unlinkSync p =
     (\<lambda>w. case fs_unlink (fsys w) p of
             Inl e \<Rightarrow> (Inl e, record_event (Unlink p) w)
           | Inr f \<Rightarrow> (Inr (), record_event (Unlink p) (w\<lparr>fsys := f\<rparr>)))"

text \<open>
  The external programs are parameters of the model. A spawned converter either fails
  to start or closes with an exit code (none when a signal killed it) and what it wrote
  to its standard error. An executed transcriber ends with an error or without one
  (a non-zero exit, a time-out and a failure to start all give an error) and with what
  it printed. Both may change the file system in any way.

  \<^verbatim>\<open>spawn\<close> and \<^verbatim>\<open>execFile\<close> check their arguments before they start anything: when
  the name of the program or an argument has a NUL character the call throws at once.
  No process exists then, the trace gets no event, and the message \<open>refusal\<close> of the
  error is a parameter of the model. Both helpers of \<^verbatim>\<open>main.js\<close> make the call inside
  the executor of a promise, so the promise rejects and the \<^verbatim>\<open>await\<close> in the handler
  throws.
\<close>

datatype spawn_result = SpawnError string | Closed "int option" string

record exec_result =
  exec_error :: "string option"
  stdout :: string
  stderr :: string

record env =
  win32 :: bool
  spawn :: "string \<Rightarrow> string list \<Rightarrow> fs \<Rightarrow> spawn_result \<times> fs"
  execFile :: "string \<Rightarrow> string list \<Rightarrow> fs \<Rightarrow> exec_result \<times> fs"
  refusal :: "string \<Rightarrow> string list \<Rightarrow> string"

definition args_ok :: "string \<Rightarrow> string list \<Rightarrow> bool" where
  "args_ok exe args = list_all (\<lambda>a. \<not> has_nul a) (exe # args)"

definition run_spawn :: "env \<Rightarrow> string \<Rightarrow> string list \<Rightarrow> spawn_result io" where
  "run_spawn env exe args =
     (\<lambda>w. if args_ok exe args
           then (case spawn env exe args (fsys w) of
                   (r, f) \<Rightarrow> (Inr r, record_event (Spawn exe args) (w\<lparr>fsys := f\<rparr>)))
           else (Inl (Error (refusal env exe args)), w))"

definition run_execFile :: "env \<Rightarrow> string \<Rightarrow> string list \<Rightarrow> exec_result io" where
  "run_execFile env exe args =
     (\<lambda>w. if args_ok exe args
           then (case execFile env exe args (fsys w) of
                   (r, f) \<Rightarrow> (Inr r, record_event (ExecFile exe args) (w\<lparr>fsys := f\<rparr>)))
           else (Inl (Error (refusal env exe args)), w))"

section \<open>The helpers of main.js\<close>

text \<open>
  The status sink (\<^verbatim>\<open>sendStatus\<close>) only forwards progress text to the window; it
  neither reads nor changes what the job computes, and is left out of the model.
\<close>

text \<open>
  \<^verbatim>\<open>convertToWav\<close>: the promise resolves when the converter closes with code 0 and
  the output file exists and is not empty; otherwise it rejects, and the \<^verbatim>\<open>await\<close> in
  the handler throws.
\<close>

definition show_code :: "int option \<Rightarrow> string" where
  "show_code code = (case code of None \<Rightarrow> ''null'' | Some i \<Rightarrow> show_int i)"

definition last_lines :: "nat \<Rightarrow> string \<Rightarrow> string" where
  "last_lines n s =
     (let ls = split_on (CHR 0x0A) s in join_on (CHR 0x0A) (drop (length ls - n) ls))"

definition fileNonEmpty :: "string \<Rightarrow> bool io" where
  "fileNonEmpty p =
     io_catch (io_bind (statSync p) (\<lambda>st. io_return (size st > 0))) (\<lambda>e. io_return False)"

definition convertToWav :: "env \<Rightarrow> string \<Rightarrow> string \<Rightarrow> unit io" where
  "convertToWav env inputPath outWavPath =
     io_bind (run_spawn env (if win32 env then ''ffmpeg.exe'' else ''ffmpeg'')
                [''-y'', ''-i'', inputPath, ''-ar'', ''16000'', ''-ac'', ''1'', ''-f'', ''wav'', outWavPath])
       (\<lambda>r. case r of
          SpawnError m \<Rightarrow>
            io_throw (Error (''ffmpeg not found. Please install ffmpeg and make sure it'' @ [CHR 0x27]
                             @ ''s on PATH. ('' @ m @ '')''))
        | Closed code errBuf \<Rightarrow>
            io_bind (if code = Some 0 then existsSync outWavPath else io_return False) (\<lambda>there.
            io_bind (if there then fileNonEmpty outWavPath else io_return False) (\<lambda>good.
              if good then io_return ()
              else io_throw (Error (''ffmpeg failed (code '' @ show_code code @ ''). ''
                                    @ last_lines 10 errBuf)))))"

text \<open>
  \<^verbatim>\<open>execFileSafe\<close>: the callback ignores its error argument and resolves with the two
  captured texts. When \<^verbatim>\<open>execFile\<close> refuses its arguments the callback is never called
  and the promise rejects.
\<close>

definition execFileSafe :: "env \<Rightarrow> string \<Rightarrow> string list \<Rightarrow> (string \<times> string) io" where
  "execFileSafe env bin args =
     io_bind (run_execFile env bin args) (\<lambda>r. io_return (stdout r, stderr r))"

text \<open>The filter of \<^verbatim>\<open>listTxt\<close>: \<^verbatim>\<open>f => f.toLowerCase().endsWith('.txt')\<close>\<close>

definition is_txt_name :: "string \<Rightarrow> bool" where
  "is_txt_name n = endsWith (toLowerCase n) ''.txt''"

definition listTxt :: "string \<Rightarrow> string list io" where
  "listTxt dir =
     io_catch
       (io_bind (readdirSync dir) (\<lambda>names.
          io_return (map (path_join dir) (filter is_txt_name names))))
       (\<lambda>e. io_return [])"

text \<open>
  \<^verbatim>\<open>newestByMtime\<close>: the loop keeps the best path so far and its time, starting from
  \<^verbatim>\<open>null\<close> and \<open>-1\<close>; a path whose \<^verbatim>\<open>stat\<close> throws is skipped.
\<close>

fun newest_loop :: "string list \<Rightarrow> string option \<times> int \<Rightarrow> (string option \<times> int) io" where
  "newest_loop [] acc = io_return acc"
| "newest_loop (p # ps) acc =
     io_bind
       (io_catch
          (io_bind (statSync p) (\<lambda>st.
             io_return (if mtimeMs st > snd acc then (Some p, mtimeMs st) else acc)))
          (\<lambda>e. io_return acc))
       (newest_loop ps)"

definition newestByMtime :: "string list \<Rightarrow> string option io" where
  "newestByMtime paths = io_bind (newest_loop paths (None, - 1)) (\<lambda>r. io_return (fst r))"

definition safeUnlink :: "string \<Rightarrow> unit io" where
  "safeUnlink p = io_catch (unlinkSync p) (\<lambda>e. io_return ())"

definition normalize :: "string \<Rightarrow> string" where
  "normalize p = toLowerCase (path_normalize p)"

definition cleanupTemp :: "string \<Rightarrow> bool \<Rightarrow> unit io" where
  "cleanupTemp wavPath wasWavInput = (if \<not> wasWavInput then safeUnlink wavPath else io_return ())"

section \<open>The job\<close>

text \<open>
  The request. An absent field and an empty string are both falsy in JavaScript, so an
  optional text field is a string that may be empty.
\<close>

record request =
  audioPath :: string
  whisperBin :: string
  modelPath :: string
  language :: string
  noTimestamps :: bool

text \<open>The paths the handler derives from the audio path (lines 66 to 72).\<close>

record locals =
  dir :: string
  base :: string
  desiredTxt :: string
  isWav :: bool
  wavForWhisper :: string

definition job_locals :: "string \<Rightarrow> locals" where
  "job_locals ap =
     (let d = dirname ap;
          b = basename ap (extname ap);
          wav = (toLowerCase (extname ap) = ''.wav'')
      in \<lparr>dir = d, base = b, desiredTxt = path_join d (b @ ''.txt''), isWav = wav,
          wavForWhisper = (if wav then ap else path_join d (b @ ''__whisper_tmp.wav''))\<rparr>)"

definition variants :: "locals \<Rightarrow> string list \<Rightarrow> string list list" where
  "variants L common =
     [ [''-f'', wavForWhisper L, ''-otxt'', ''-of'', desiredTxt L] @ common,
       [''-f'', wavForWhisper L, ''-otxt'', ''--output-file'', desiredTxt L] @ common,
       [''-f'', wavForWhisper L, ''-otxt'', ''-o'', dir L] @ common,
       [''-f'', wavForWhisper L, ''-otxt''] @ common ]"

text \<open>\<^verbatim>\<open>desiredTxt.replace(/\.txt$/i, '.log.txt')\<close>\<close>

definition diagnostic_path :: "string \<Rightarrow> string" where
  "diagnostic_path p =
     (if endsWith (toLowerCase p) ''.txt'' then take (length p - 4) p @ ''.log.txt'' else p)"

definition diagnostic_text :: "string \<Rightarrow> string \<Rightarrow> string" where
  "diagnostic_text lastStdout lastStderr =
     concat [''--- STDOUT ---'' @ [CHR 0x0A], (if lastStdout = [] then ''(empty)'' else lastStdout),
             [CHR 0x0A, CHR 0x0A],
             ''--- STDERR ---'' @ [CHR 0x0A], (if lastStderr = [] then ''(empty)'' else lastStderr),
             [CHR 0x0A]]"

text \<open>
  The loop over the variants either returns from the handler or runs to its end with
  the last captured texts.
\<close>

datatype loop_exit = Return job_result | Exhausted string string

fun attempts ::
  "env \<Rightarrow> string \<Rightarrow> locals \<Rightarrow> string list \<Rightarrow> string list list \<Rightarrow> string \<times> string \<Rightarrow> loop_exit io"
where
  "attempts env bin L preExisting [] captured = io_return (Exhausted (fst captured) (snd captured))"
| "attempts env bin L preExisting (v # vs) captured =
     io_bind (execFileSafe env bin v) (\<lambda>lastCaptured.
     io_bind (existsSync (desiredTxt L)) (\<lambda>there.
     io_bind (if there then fileNonEmpty (desiredTxt L) else io_return False) (\<lambda>direct.
       if direct then
         io_bind (cleanupTemp (wavForWhisper L) (isWav L)) (\<lambda>u.
         io_return (Return (succeeded (desiredTxt L) None)))
       else
         io_bind (listTxt (dir L)) (\<lambda>listed.
         io_bind (newestByMtime (filter (\<lambda>p. p \<notin> set preExisting) listed)) (\<lambda>newest.
         io_bind (case newest of None \<Rightarrow> io_return False
                  | Some n \<Rightarrow> if n = [] then io_return False else fileNonEmpty n) (\<lambda>found.
           if found then
             io_bind (readFileSync (the newest)) (\<lambda>text.
             io_bind (writeFileSync (desiredTxt L) text) (\<lambda>u.
             io_bind (if normalize (the newest) \<noteq> normalize (desiredTxt L)
                      then safeUnlink (the newest) else io_return ()) (\<lambda>u.
             io_bind (cleanupTemp (wavForWhisper L) (isWav L)) (\<lambda>u.
             io_return (Return (succeeded (desiredTxt L) None))))))
           else attempts env bin L preExisting vs lastCaptured))))))"

definition after_loop :: "locals \<Rightarrow> loop_exit \<Rightarrow> job_result io" where
  "after_loop L ex =
     (case ex of
        Return r \<Rightarrow> io_return r
      | Exhausted lastStdout lastStderr \<Rightarrow>
          if lastStdout \<noteq> [] \<and> length (trim lastStdout) > 0 then
            io_bind (writeFileSync (desiredTxt L) lastStdout) (\<lambda>u.
            io_bind (cleanupTemp (wavForWhisper L) (isWav L)) (\<lambda>u.
            io_return (succeeded (desiredTxt L) (Some ''Saved from stdout fallback.''))))
          else
            io_bind (writeFileSync (diagnostic_path (desiredTxt L))
                       (diagnostic_text lastStdout lastStderr)) (\<lambda>u.
            io_bind (cleanupTemp (wavForWhisper L) (isWav L)) (\<lambda>u.
            io_return (failed (''Transcription finished but no .txt file was found. Saved logs to ''
                               @ diagnostic_path (desiredTxt L))))))"

text \<open>
  The handler up to the loop (lines 61 to 98): the check of the audio path, the
  conversion, the choice of the binary, the common flags and the snapshot of the
  directory's text files. It returns early when the audio is not found.
\<close>

datatype prepared = NotFound | Ready string "string list" "string list"

definition job_setup :: "env \<Rightarrow> request \<Rightarrow> prepared io" where
  "job_setup env payload =
     io_bind (if audioPath payload = [] then io_return False
              else existsSync (audioPath payload)) (\<lambda>found.
       if \<not> found then io_return NotFound
       else
         let L = job_locals (audioPath payload) in
         io_bind (if \<not> isWav L then convertToWav env (audioPath payload) (wavForWhisper L)
                  else io_return ()) (\<lambda>u.
         io_bind (if whisperBin payload = [] then io_return False
                  else existsSync (whisperBin payload)) (\<lambda>hasBin.
         io_bind (if modelPath payload = [] then io_return False
                  else existsSync (modelPath payload)) (\<lambda>hasModel.
         let bin = (if hasBin then whisperBin payload
                    else if win32 env then ''whisper-cli'' else ''whisper'');
             common = (if language payload \<noteq> [] then [''-l'', language payload] else [])
                      @ (if noTimestamps payload then [''--no-timestamps''] else [])
                      @ (if hasModel then [''-m'', modelPath payload] else [])
         in
         io_bind (listTxt (dir L)) (\<lambda>preExisting.
         io_return (Ready bin common preExisting))))))"

text \<open>
  The handler up to the end of the loop (lines 61 to 120). It ends with a result that
  the handler returns as it is (the audio was not found, or an attempt matched), or
  with the loop exhausted.
\<close>

definition job_loop :: "env \<Rightarrow> request \<Rightarrow> loop_exit io" where
  "job_loop env payload =
     io_bind (job_setup env payload) (\<lambda>s.
       case s of
         NotFound \<Rightarrow> io_return (Return (failed ''Audio path is empty or not found.''))
       | Ready bin common preExisting \<Rightarrow>
           let L = job_locals (audioPath payload)
           in attempts env bin L preExisting (variants L common) ([], []))"

definition job_body :: "env \<Rightarrow> request \<Rightarrow> job_result io" where
  "job_body env payload =
     io_bind (job_loop env payload) (after_loop (job_locals (audioPath payload)))"

text \<open>
  The handler of \<^verbatim>\<open>job:transcribe\<close>: the body in a \<^verbatim>\<open>try\<close>, and the \<^verbatim>\<open>catch\<close> that
  turns a thrown error into a failed result (\<^verbatim>\<open>err?.message || String(err)\<close>).
\<close>

definition job_transcribe :: "env \<Rightarrow> request \<Rightarrow> job_result io" where
  "job_transcribe env payload =
     io_catch (job_body env payload)
       (\<lambda>err. io_return (failed (if message err = [] then ''Error'' else message err)))"

text \<open>A job starts with an empty trace.\<close>

definition start :: "fs \<Rightarrow> world" where
  "start f = \<lparr>fsys = f, trace = []\<rparr>"

section \<open>What the helpers compute\<close>

text \<open>
  The helpers that catch every error are functions of the file system. These are the
  values they return, written without the error plumbing; the lemmas below show that
  the helpers compute them.
\<close>

definition fs_nonempty :: "fs \<Rightarrow> string \<Rightarrow> bool" where
  "fs_nonempty f p = (case fs_stat f p of Inl e \<Rightarrow> False | Inr st \<Rightarrow> size st > 0)"

definition fs_listTxt :: "fs \<Rightarrow> string \<Rightarrow> string list" where
  "fs_listTxt f d =
     (case fs_readdir f d of
        Inl e \<Rightarrow> []
      | Inr names \<Rightarrow> map (path_join d) (filter is_txt_name names))"

fun fs_newest :: "fs \<Rightarrow> string list \<Rightarrow> string option \<times> int \<Rightarrow> string option \<times> int" where
  "fs_newest f [] acc = acc"
| "fs_newest f (p # ps) acc =
     fs_newest f ps
       (case fs_stat f p of
          Inl e \<Rightarrow> acc
        | Inr st \<Rightarrow> if mtimeMs st > snd acc then (Some p, mtimeMs st) else acc)"

definition fs_safeUnlink :: "fs \<Rightarrow> string \<Rightarrow> fs" where
  "fs_safeUnlink f p = (case fs_unlink f p of Inl e \<Rightarrow> f | Inr g \<Rightarrow> g)"

definition record_events :: "event list \<Rightarrow> world \<Rightarrow> world" where
  "record_events es w = w\<lparr>trace := trace w @ es\<rparr>"

section \<open>Predicates of the statements\<close>

text \<open>
  A segment that may stand in a normalised path: not empty, not \<open>.\<close>, not \<open>..\<close>, and
  without a separator.
\<close>

definition seg_ok :: "string \<Rightarrow> bool" where
  "seg_ok n = (is_entry_name n \<and> CHR ''/'' \<notin> set n)"

text \<open>The path \<open>p\<close> ends with the segment \<open>n\<close>.\<close>

definition final_seg :: "string \<Rightarrow> string \<Rightarrow> bool" where
  "final_seg n p = (p = n \<or> (\<exists>q. p = q @ CHR ''/'' # n))"

text \<open>The absolute path made of the given segments: \<open>/s1/s2/.../sn\<close>.\<close>

definition abs_path :: "string list \<Rightarrow> string" where
  "abs_path segs = concat (map ((#) (CHR ''/'')) segs)"




text \<open>
  The path \<open>p\<close> is what \<^verbatim>\<open>listTxt\<close> makes of an entry of the directory \<open>d\<close>: the
  directory joined with a name that ends in \<open>.txt\<close> in any letter case.
\<close>

definition txt_entry :: "string \<Rightarrow> string \<Rightarrow> bool" where
  "txt_entry d p =
     (seg_ok (component p) \<and> is_txt_name (component p) \<and> path_join d (component p) = p)"

text \<open>
  The two checks of an attempt, read off a file system \<open>g\<close>. The direct match: the
  canonical output path exists and is not empty. The heuristic match against the
  snapshot \<open>pre\<close>: the newest of the text files of the directory that are not in
  \<open>pre\<close>, when there is one and it is not empty.
\<close>

definition direct_match :: "fs \<Rightarrow> locals \<Rightarrow> bool" where
  "direct_match g L = (fs_exists g (desiredTxt L) \<and> fs_nonempty g (desiredTxt L))"

definition new_texts :: "string list \<Rightarrow> fs \<Rightarrow> locals \<Rightarrow> string list" where
  "new_texts pre g L = filter (\<lambda>p. p \<notin> set pre) (fs_listTxt g (dir L))"

definition heuristic_match :: "string list \<Rightarrow> fs \<Rightarrow> locals \<Rightarrow> string option" where
  "heuristic_match pre g L =
     (case fst (fs_newest g (new_texts pre g L) (None, - 1)) of
        None \<Rightarrow> None
      | Some n \<Rightarrow> if n \<noteq> [] \<and> fs_nonempty g n then Some n else None)"




text \<open>
  The world after \<^verbatim>\<open>cleanupTemp(wavForWhisper, isWav)\<close>: for an input that was converted,
  the unlink of the temporary waveform has been tried and recorded; for a waveform
  input nothing has happened.
\<close>

definition cleaned :: "locals \<Rightarrow> world \<Rightarrow> world" where
  "cleaned L w =
     (if isWav L then w
      else record_event (Unlink (wavForWhisper L)) (w\<lparr>fsys := fs_safeUnlink (fsys w) (wavForWhisper L)\<rparr>))"

text \<open>
  The events that the loop over the variants may leave in the trace of a job with the
  locals \<open>L\<close>: the converter runs only for an input that is not a waveform, a write
  goes to the output path, and an unlink removes a text file of the directory or the
  temporary waveform.
\<close>

definition loop_event :: "locals \<Rightarrow> event \<Rightarrow> bool" where
  "loop_event L e =
     (case e of
        Spawn x a \<Rightarrow> \<not> isWav L
      | WriteFile p c \<Rightarrow> p = desiredTxt L
      | Unlink p \<Rightarrow> txt_entry (dir L) p \<or> (\<not> isWav L \<and> p = wavForWhisper L)
      | _ \<Rightarrow> True)"

text \<open>
  A trace is tidy when it holds such events only and every unlink of a text file comes
  with a read of that file.
\<close>

definition tidy :: "locals \<Rightarrow> event list \<Rightarrow> bool" where
  "tidy L tr =
     ((\<forall>e\<in>set tr. loop_event L e)
      \<and> (\<forall>p. Unlink p \<in> set tr \<longrightarrow> ReadFile p \<in> set tr \<or> (\<not> isWav L \<and> p = wavForWhisper L)))"

text \<open>Events that only look at the file system.\<close>

definition quiet :: "event list \<Rightarrow> bool" where
  "quiet es = (\<forall>e\<in>set es. \<exists>p. e = Stat p \<or> e = Readdir p)"


text \<open>Every event that the computation \<open>m\<close> adds to the trace satisfies \<open>P\<close>.\<close>

definition emits :: "(event \<Rightarrow> bool) \<Rightarrow> 'a io \<Rightarrow> bool" where
  "emits P m = (\<forall>w r w'. m w = (r, w') \<longrightarrow> (\<exists>es. trace w' = trace w @ es \<and> (\<forall>e\<in>set es. P e)))"

text \<open>
  The events of the code before the loop: looks at the file system, and the run of the
  converter when the input is not a waveform.
\<close>

definition setup_event :: "locals \<Rightarrow> event \<Rightarrow> bool" where
  "setup_event L e =
     ((\<exists>p. e = Exists p \<or> e = Stat p \<or> e = Readdir p) \<or> (\<not> isWav L \<and> (\<exists>x a. e = Spawn x a)))"

section \<open>Scenarios\<close>

text \<open>
  External programs and disks for the examples below. Every disk has the directory
  \<open>/d\<close>, writable; the clock stands at 10. A program that writes a file leaves the
  disk as it is when the file system refuses the write. The runtime of the examples
  refuses a NUL character with the message \<open>null_bytes\<close>, which stands for the longer
  text of Node; no statement below depends on its wording.
\<close>

definition put_file :: "string \<Rightarrow> string \<Rightarrow> fs \<Rightarrow> fs" where
  "put_file p s f = (case fs_writeFile f p s of Inl e \<Rightarrow> f | Inr g \<Rightarrow> g)"

definition null_bytes :: "string" where
  "null_bytes = ''The argument must be a string without null bytes.''"

definition disk :: "(string \<times> node) list \<Rightarrow> fs" where
  "disk ns = \<lparr>nodes = (''/d'', Dir True 4096 0) # ns, now = 10, refuses = (\<lambda>p. null_bytes)\<rparr>"

text \<open>The same with a directory that takes no new entry and gives none up.\<close>

definition frozen :: "(string \<times> node) list \<Rightarrow> fs" where
  "frozen ns =
     \<lparr>nodes = (''/d'', Dir False 4096 0) # ns, now = 10, refuses = (\<lambda>p. null_bytes)\<rparr>"

definition mp3 :: "string \<times> node" where
  "mp3 = (''/d/a.mp3'', File ''ID3'' 1 True True)"

definition wav :: "string \<times> node" where
  "wav = (''/d/a.wav'', File ''RIFF'' 1 True True)"

text \<open>
  Files that some scenarios find on the disk: an output and a log that are read-only,
  an output left by an earlier job, a temporary waveform left by an earlier job, and
  an empty output.
\<close>

definition locked_txt :: "string \<times> node" where
  "locked_txt = (''/d/a.txt'', File [] 1 True False)"

definition locked_log :: "string \<times> node" where
  "locked_log = (''/d/a.log.txt'', File ''old'' 1 True False)"

definition done_txt :: "string \<times> node" where
  "done_txt = (''/d/a.txt'', File ''done'' 1 True True)"

definition stale_tmp :: "string \<times> node" where
  "stale_tmp = (''/d/a__whisper_tmp.wav'', File ''old'' 1 True True)"

definition empty_txt :: "string \<times> node" where
  "empty_txt = (''/d/a.txt'', File [] 1 True True)"

text \<open>A directory in the place of the output.\<close>

definition dir_txt :: "string \<times> node" where
  "dir_txt = (''/d/a.txt'', Dir True 4096 0)"

definition req :: "string \<Rightarrow> request" where
  "req p = \<lparr>audioPath = p, whisperBin = [], modelPath = [], language = [], noTimestamps = False\<rparr>"

text \<open>A request for \<open>/d/a.wav\<close> whose language code ends in a NUL character.\<close>

definition req_nul :: "request" where
  "req_nul = (req ''/d/a.wav'')\<lparr>language := [CHR ''e'', CHR ''n'', CHR 0x00]\<rparr>"

text \<open>A converter that writes the waveform and exits with code 0.\<close>

definition ffmpeg_ok :: "string \<Rightarrow> string list \<Rightarrow> fs \<Rightarrow> spawn_result \<times> fs" where
  "ffmpeg_ok exe args f = (Closed (Some 0) [], put_file (last args) ''RIFF'' f)"

text \<open>Every transcriber below exits with a non-zero status, whatever it has done.\<close>

definition printed :: "string \<Rightarrow> exec_result" where
  "printed out = \<lparr>exec_error = Some ''exit 1'', stdout = out, stderr = []\<rparr>"

text \<open>Writes the transcript where \<^verbatim>\<open>-of\<close> says.\<close>

definition whisper_of :: "string \<Rightarrow> string list \<Rightarrow> fs \<Rightarrow> exec_result \<times> fs" where
  "whisper_of exe args f =
     (printed [], if ''-of'' \<in> set args then put_file (args ! 4) ''hello world'' f else f)"

text \<open>Knows no output flag: writes the transcript beside the waveform, as \<open>waveform.txt\<close>.\<close>

definition whisper_bare :: "string \<Rightarrow> string list \<Rightarrow> fs \<Rightarrow> exec_result \<times> fs" where
  "whisper_bare exe args f =
     (printed [], if length args = 3 then put_file (args ! 1 @ ''.txt'') ''test transcript'' f else f)"

text \<open>Writes no file and prints the transcript.\<close>

definition whisper_print :: "string \<Rightarrow> string list \<Rightarrow> fs \<Rightarrow> exec_result \<times> fs" where
  "whisper_print exe args f = (printed ''partial output text'', f)"

text \<open>Writes no file and prints nothing.\<close>

definition whisper_silent :: "string \<Rightarrow> string list \<Rightarrow> fs \<Rightarrow> exec_result \<times> fs" where
  "whisper_silent exe args f = (printed [], f)"

text \<open>Writes no file and prints one no-break space (U+00A0).\<close>

definition whisper_nbsp :: "string \<Rightarrow> string list \<Rightarrow> fs \<Rightarrow> exec_result \<times> fs" where
  "whisper_nbsp exe args f = (printed [CHR 0xA0], f)"

text \<open>Opens the file that \<^verbatim>\<open>-of\<close> names for writing, and fails before it writes.\<close>

definition whisper_truncate :: "string \<Rightarrow> string list \<Rightarrow> fs \<Rightarrow> exec_result \<times> fs" where
  "whisper_truncate exe args f =
     (printed [], if ''-of'' \<in> set args then put_file (args ! 4) [] f else f)"

text \<open>
  Creates the empty file \<open>/d/s.txt\<close> in the first attempt and fills it in the second.
\<close>

definition whisper_stray :: "string \<Rightarrow> string list \<Rightarrow> fs \<Rightarrow> exec_result \<times> fs" where
  "whisper_stray exe args f =
     (printed [],
      if ''-of'' \<in> set args then put_file ''/d/s.txt'' [] f
      else if ''--output-file'' \<in> set args then put_file ''/d/s.txt'' ''late'' f
      else f)"

definition tools :: "(string \<Rightarrow> string list \<Rightarrow> fs \<Rightarrow> exec_result \<times> fs) \<Rightarrow> env" where
  "tools x =
     \<lparr>win32 = False, spawn = ffmpeg_ok, execFile = x, refusal = (\<lambda>exe args. null_bytes)\<rparr>"

section \<open>Running the helpers\<close>

lemma io_bind_run: "io_bind m k w = (case m w of (Inl e, w') \<Rightarrow> (Inl e, w') | (Inr x, w') \<Rightarrow> k x w')"
  by (simp add: io_bind_def)

lemma io_catch_run: "io_catch m h w = (case m w of (Inl e, w') \<Rightarrow> h e w' | (Inr x, w') \<Rightarrow> (Inr x, w'))"
  by (simp add: io_catch_def)

lemma io_return_run: "io_return x w = (Inr x, w)"
  by (simp add: io_return_def)

lemma io_throw_run: "io_throw e w = (Inl e, w)"
  by (simp add: io_throw_def)

lemma io_bind_return: "io_bind (io_return x) k = k x"
  by (simp add: io_bind_def io_return_def)

lemma record_events_nil: "record_events [] w = w"
  by (simp add: record_events_def)

lemma record_event_events: "record_event e (record_events es w) = record_events (es @ [e]) w"
  by (simp add: record_events_def record_event_def)

lemma fileNonEmpty_run:
  "fileNonEmpty p w = (Inr (fs_nonempty (fsys w) p), record_event (Stat p) w)"
  by (simp add: fileNonEmpty_def io_catch_def io_bind_def io_return_def statSync_def fs_nonempty_def
      split: sum.splits)

lemma listTxt_run:
  "listTxt d w = (Inr (fs_listTxt (fsys w) d), record_event (Readdir d) w)"
  by (simp add: listTxt_def io_catch_def io_bind_def io_return_def readdirSync_def fs_listTxt_def
      split: sum.splits)

lemma newest_loop_run:
  "newest_loop ps acc w = (Inr (fs_newest (fsys w) ps acc), record_events (map Stat ps) w)"
proof (induction ps arbitrary: acc w)
  case Nil
  show ?case by (simp add: io_return_def record_events_def)
next
  case (Cons p ps)
  show ?case
    by (simp add: io_bind_def io_catch_def io_return_def statSync_def Cons.IH
        record_events_def record_event_def split: sum.splits)
qed

lemma newestByMtime_run:
  "newestByMtime ps w = (Inr (fst (fs_newest (fsys w) ps (None, - 1))), record_events (map Stat ps) w)"
  by (simp add: newestByMtime_def io_bind_def io_return_def newest_loop_run)

lemma safeUnlink_run:
  "safeUnlink p w = (Inr (), record_event (Unlink p) (w\<lparr>fsys := fs_safeUnlink (fsys w) p\<rparr>))"
  by (simp add: safeUnlink_def io_catch_def io_return_def unlinkSync_def fs_safeUnlink_def
      split: sum.splits)

lemma cleanupTemp_run:
  "cleanupTemp p wasWav w =
     (Inr (), if wasWav then w else record_event (Unlink p) (w\<lparr>fsys := fs_safeUnlink (fsys w) p\<rparr>))"
  by (simp add: cleanupTemp_def safeUnlink_run io_return_def)

lemma execFileSafe_run:
  "execFileSafe env b a w =
     (if args_ok b a
      then (Inr (stdout (fst (execFile env b a (fsys w))), stderr (fst (execFile env b a (fsys w)))),
            record_event (ExecFile b a) (w\<lparr>fsys := snd (execFile env b a (fsys w))\<rparr>))
      else (Inl (Error (refusal env b a)), w))"
  by (simp add: execFileSafe_def run_execFile_def io_bind_def io_return_def split: prod.splits)

lemma existsSync_run: "existsSync p w = (Inr (fs_exists (fsys w) p), record_event (Exists p) w)"
  by (simp add: existsSync_def)

section \<open>Paths\<close>

lemma split_on_nonempty: "split_on c s \<noteq> []"
  by (induction s) (auto split: list.splits)

lemma split_on_no_sep: "c \<notin> set s \<Longrightarrow> split_on c s = [s]"
  by (induction s) auto

lemma split_on_append: "split_on c (a @ c # b) = split_on c a @ split_on c b"
  by (induction a) (auto split: list.splits simp: split_on_nonempty)

lemma join_on_snoc: "join_on c (xs @ [n]) = (if xs = [] then n else join_on c xs @ c # n)"
  by (induction c xs rule: join_on.induct) auto

lemma norm_step_ok: "seg_ok n \<Longrightarrow> norm_step a res n = res @ [n]"
  by (auto simp: norm_step_def seg_ok_def is_entry_name_def)

lemma split_final_seg:
  assumes "final_seg n p" "CHR ''/'' \<notin> set n"
  shows "\<exists>xs. split_on (CHR ''/'') p = xs @ [n]"
  using assms unfolding final_seg_def
  by (auto simp: split_on_no_sep split_on_append intro: exI[of _ "[]"])

lemma normalizeString_final_seg:
  assumes "final_seg n p" "seg_ok n"
  shows "final_seg n (normalizeString p a)"
proof -
  from assms obtain xs where xs: "split_on (CHR ''/'') p = xs @ [n]"
    using split_final_seg by (auto simp: seg_ok_def)
  show ?thesis
    by (simp add: normalizeString_def xs norm_step_ok[OF assms(2)] join_on_snoc final_seg_def)
qed

lemma final_seg_last: "final_seg n p \<Longrightarrow> n \<noteq> [] \<Longrightarrow> p \<noteq> [] \<and> last p = last n"
  by (auto simp: final_seg_def)

lemma final_seg_prefix: "final_seg n p \<Longrightarrow> final_seg n (CHR ''/'' # p)"
  by (auto simp: final_seg_def intro: exI[of _ "[]"])

lemma path_normalize_final_seg:
  assumes "final_seg n p" "seg_ok n"
  shows "final_seg n (path_normalize p)"
proof -
  have ne: "n \<noteq> []" and ns: "CHR ''/'' \<notin> set n"
    using assms(2) by (auto simp: seg_ok_def is_entry_name_def)
  have p: "p \<noteq> []" "last p = last n" using final_seg_last[OF assms(1) ne] by auto
  have "last n \<in> set n" using ne by simp
  then have nt: "\<not> is_sep (last p)" using ns p by (auto simp: is_sep_def)
  have q: "final_seg n (normalizeString p a)" for a
    using normalizeString_final_seg[OF assms] .
  then have qne: "normalizeString p a \<noteq> []" for a
    using final_seg_last[OF _ ne] by blast
  show ?thesis
    using p nt q qne by (auto simp: path_normalize_def Let_def intro: final_seg_prefix)
qed

lemma path_join_final_seg:
  assumes "seg_ok n"
  shows "final_seg n (path_join d n)"
proof -
  have ne: "n \<noteq> []" using assms by (auto simp: seg_ok_def is_entry_name_def)
  have "final_seg n (if d = [] then n else d @ CHR ''/'' # n)"
    by (auto simp: final_seg_def)
  then show ?thesis
    using ne by (auto simp: path_join_def intro: path_normalize_final_seg[OF _ assms])
qed

lemma takeWhile_rev_all: "c \<notin> set n \<Longrightarrow> takeWhile (\<lambda>x. x \<noteq> c) (rev n) = rev n"
  by (rule takeWhile_eq_all_conv[THEN iffD2]) auto

lemma final_seg_unique:
  assumes "final_seg n p" "final_seg m p" "CHR ''/'' \<notin> set n" "CHR ''/'' \<notin> set m"
  shows "n = m"
proof -
  have "rev (takeWhile (\<lambda>c. c \<noteq> CHR ''/'') (rev p)) = n" if "final_seg n p" "CHR ''/'' \<notin> set n" for n
    using that by (auto simp: final_seg_def takeWhile_tail takeWhile_rev_all)
  then show ?thesis using assms by metis
qed

lemma split_on_abs_path:
  "\<forall>s\<in>set segs. CHR ''/'' \<notin> set s \<Longrightarrow> split_on (CHR ''/'') (abs_path segs) = [] # segs"
proof (induction segs)
  case Nil
  show ?case by (simp add: abs_path_def)
next
  case (Cons s segs)
  have "abs_path (s # segs) = [] @ CHR ''/'' # (s @ abs_path segs)" by (simp add: abs_path_def)
  moreover have "split_on (CHR ''/'') (s @ abs_path segs) = s # segs"
  proof (cases segs)
    case Nil
    then show ?thesis using Cons.prems by (simp add: abs_path_def split_on_no_sep)
  next
    case (Cons t ts)
    then have "abs_path segs = CHR ''/'' # (t @ abs_path ts)" by (simp add: abs_path_def)
    then have "split_on (CHR ''/'') (s @ abs_path segs) = split_on (CHR ''/'') s @ split_on (CHR ''/'') (t @ abs_path ts)"
      by (simp add: split_on_append)
    moreover have "split_on (CHR ''/'') (abs_path segs) = [] # segs" using Cons.IH Cons.prems by simp
    ultimately show ?thesis using Cons.prems \<open>abs_path segs = CHR ''/'' # (t @ abs_path ts)\<close>
      by (simp add: split_on_no_sep)
  qed
  ultimately show ?case by (simp only: split_on_append) (simp)
qed

lemma foldl_norm_step_ok:
  "\<forall>s\<in>set segs. seg_ok s \<Longrightarrow> foldl (norm_step a) acc segs = acc @ segs"
  by (induction segs arbitrary: acc) (auto simp: norm_step_ok)

lemma join_on_abs_path: "segs \<noteq> [] \<Longrightarrow> CHR ''/'' # join_on (CHR ''/'') segs = abs_path segs"
  by (induction "CHR ''/''" segs rule: join_on.induct) (auto simp: abs_path_def)

lemma abs_path_snoc: "abs_path (segs @ [n]) = abs_path segs @ CHR ''/'' # n"
  by (simp add: abs_path_def)

lemma path_normalize_abs_path:
  assumes "\<forall>s\<in>set segs. seg_ok s" "segs \<noteq> []"
  shows "path_normalize (abs_path segs) = abs_path segs"
proof -
  have ns: "\<forall>s\<in>set segs. CHR ''/'' \<notin> set s" using assms(1) by (auto simp: seg_ok_def)
  obtain s rest where sr: "segs = s # rest" using assms(2) by (cases segs) auto
  have hd: "abs_path segs \<noteq> []" "hd (abs_path segs) = CHR ''/''" by (auto simp: sr abs_path_def)
  obtain ini l where il: "segs = ini @ [l]" using assms(2) by (metis rev_exhaust)
  have lok: "seg_ok l" using assms(1) il by simp
  then have "l \<noteq> []" "CHR ''/'' \<notin> set l" by (auto simp: seg_ok_def is_entry_name_def)
  then have "last (abs_path segs) = last l" "last l \<noteq> CHR ''/''"
    by (simp add: il abs_path_snoc, metis last_in_set)
  then have lst: "\<not> is_sep (last (abs_path segs))" by (simp add: is_sep_def)
  have ns': "normalizeString (abs_path segs) a = join_on (CHR ''/'') segs" for a
    using assms(1) by (simp add: normalizeString_def split_on_abs_path[OF ns] norm_step_def foldl_norm_step_ok)
  have jne: "join_on (CHR ''/'') segs \<noteq> []"
    using join_on_abs_path[OF assms(2)] sr assms(1) 
    by (cases rest) (auto simp: seg_ok_def is_entry_name_def)
  show ?thesis
    using hd lst jne by (simp add: path_normalize_def Let_def ns' is_sep_def join_on_abs_path[OF assms(2)])
qed

lemma path_join_abs_path:
  assumes "\<forall>s\<in>set segs. seg_ok s" "seg_ok n"
  shows "path_join (if segs = [] then ''/'' else abs_path segs) n = abs_path segs @ CHR ''/'' # n"
proof (cases "segs = []")
  case True
  have n: "n \<noteq> []" "CHR ''/'' \<notin> set n" using assms(2) by (auto simp: seg_ok_def is_entry_name_def)
  then have "last n \<noteq> CHR ''/''" by (metis last_in_set)
  moreover have "norm_step a [] [] = []" for a by (simp add: norm_step_def)
  ultimately show ?thesis using True n
    by (simp add: path_join_def path_normalize_def normalizeString_def split_on_no_sep
        norm_step_ok[OF assms(2)] is_sep_def abs_path_def Let_def)
next
  case False
  have "abs_path segs \<noteq> []" using False by (cases segs) (auto simp: abs_path_def)
  moreover have "path_normalize (abs_path (segs @ [n])) = abs_path (segs @ [n])"
    using assms by (intro path_normalize_abs_path) auto
  ultimately show ?thesis using False assms(2)
    by (simp add: path_join_def abs_path_snoc seg_ok_def is_entry_name_def)
qed

lemma dropWhile_sep_rev:
  "n \<noteq> [] \<Longrightarrow> CHR ''/'' \<notin> set n \<Longrightarrow> dropWhile is_sep (rev n @ r) = rev n @ r"
  by (cases n rule: rev_cases) (auto simp: is_sep_def)

lemma takeWhile_nosep_rev:
  "CHR ''/'' \<notin> set n \<Longrightarrow> takeWhile (\<lambda>c. \<not> is_sep c) (rev n @ CHR ''/'' # r) = rev n"
  by (simp add: takeWhile_append is_sep_def)

lemma dropWhile_nosep_rev:
  "CHR ''/'' \<notin> set n \<Longrightarrow> dropWhile (\<lambda>c. \<not> is_sep c) (rev n @ CHR ''/'' # r) = CHR ''/'' # r"
  by (simp add: dropWhile_append is_sep_def)

lemma dropWhile_nosep_rev_all:
  "CHR ''/'' \<notin> set n \<Longrightarrow> dropWhile (\<lambda>c. \<not> is_sep c) (rev n) = []"
  by (auto simp: is_sep_def)

lemma component_join:
  assumes "n \<noteq> []" "CHR ''/'' \<notin> set n"
  shows "component (q @ CHR ''/'' # n) = n"
  using assms by (simp add: component_def dropWhile_sep_rev takeWhile_nosep_rev)

lemma extname_join:
  assumes "b \<noteq> []" "CHR ''/'' \<notin> set b" "CHR ''/'' \<notin> set x" "CHR ''.'' \<notin> set x"
    "\<not> (b = ''.'' \<and> x = [])"
  shows "extname (q @ CHR ''/'' # b @ CHR ''.'' # x) = CHR ''.'' # x"
proof -
  let ?c = "b @ CHR ''.'' # x"
  have c: "component (q @ CHR ''/'' # ?c) = ?c"
    using assms by (intro component_join) auto
  have e: "rev (takeWhile (\<lambda>y. y \<noteq> CHR ''.'') (rev ?c)) = x"
    using assms(4) by (simp add: takeWhile_append)
  have dd: "?c \<noteq> ''..''"
  proof
    assume h: "?c = ''..''"
    then have "length b + length x = 1" by (metis One_nat_def add_Suc_right length_append length_Cons list.size(3) nat.inject)
    with assms(1) have "x = []" "length b = 1" by (cases b; cases x; simp)+
    with h have "b = ''.''" by simp
    with \<open>x = []\<close> assms(5) show False by simp
  qed
  show ?thesis
    unfolding extname_def c Let_def e using assms(1) dd by simp
qed

lemma basename_join:
  assumes "b \<noteq> []" "CHR ''/'' \<notin> set b" "CHR ''/'' \<notin> set x"
  shows "basename (q @ CHR ''/'' # b @ CHR ''.'' # x) (CHR ''.'' # x) = b"
proof -
  let ?c = "b @ CHR ''.'' # x"
  have c: "component (q @ CHR ''/'' # ?c) = ?c"
    using assms by (intro component_join) auto
  show ?thesis
    unfolding basename_def c Let_def using assms(1) by (simp add: endsWith_def)
qed

lemma dirname_join:
  assumes "\<forall>s\<in>set segs. seg_ok s" "n \<noteq> []" "CHR ''/'' \<notin> set n"
  shows "dirname (abs_path segs @ CHR ''/'' # n) = (if segs = [] then ''/'' else abs_path segs)"
proof (cases segs)
  case Nil
  then show ?thesis using assms(2,3)
    by (simp add: dirname_def abs_path_def is_sep_def Let_def dropWhile_sep_rev[of n "[]", simplified]
        dropWhile_nosep_rev_all)
next
  case (Cons s rest)
  define t where "t = s @ abs_path rest"
  have a: "abs_path segs = CHR ''/'' # t" by (simp add: Cons abs_path_def t_def)
  have "seg_ok s" using assms(1) Cons by simp
  then have tne: "t \<noteq> []" by (simp add: t_def seg_ok_def is_entry_name_def)
  have r: "dropWhile (\<lambda>c. \<not> is_sep c) (dropWhile is_sep (rev (tl (abs_path segs @ CHR ''/'' # n))))
           = CHR ''/'' # rev t"
    using assms(2,3) by (simp add: a dropWhile_sep_rev dropWhile_nosep_rev)
  have "dirname (CHR ''/'' # t @ CHR ''/'' # n) = CHR ''/'' # t"
    using r tne unfolding a dirname_def Let_def by simp
  then show ?thesis using Cons a by simp
qed

lemma toLowerCase_append: "toLowerCase (a @ b) = toLowerCase a @ toLowerCase b"
  by (simp add: toLowerCase_def)

lemma toLowerCase_dot_txt: "toLowerCase ''.txt'' = ''.txt''"
  by (simp add: toLowerCase_def lower_char_def)

lemma lower_dot: "lower_char (CHR ''.'') = CHR ''.''"
  by (simp add: lower_char_def)

lemma endsWith_append: "endsWith (a @ s) s"
  by (simp add: endsWith_def)

lemma diagnostic_path_txt: "diagnostic_path (q @ ''.txt'') = q @ ''.log.txt''"
  using endsWith_append[of "toLowerCase q" "''.txt''"]
  by (simp add: diagnostic_path_def toLowerCase_append toLowerCase_dot_txt)

lemma seg_ok_suffix:
  assumes "CHR ''/'' \<notin> set b" "CHR ''/'' \<notin> set sfx" "length sfx \<ge> 3"
  shows "seg_ok (b @ sfx)"
proof -
  have "length (b @ sfx) \<ge> 3" using assms(3) by simp
  then have "b @ sfx \<noteq> []" "b @ sfx \<noteq> ''.''" "b @ sfx \<noteq> ''..''"
    by (metis length_0_conv not_numeral_le_zero,
        metis One_nat_def length_Cons list.size(3) numeral_3_eq_3 not_less_eq_eq Suc_le_mono le_zero_eq nat.simps(3),
        metis length_Cons list.size(3) numeral_3_eq_3 not_less_eq_eq le_zero_eq Suc_le_mono)
  then show ?thesis using assms(1,2) by (simp add: seg_ok_def is_entry_name_def)
qed

section \<open>The file system after a write and after an unlink\<close>

lemma map_of_set_node:
  "map_of (set_node k n xs) k' = (if k' = k then map_option (\<lambda>_. n) (map_of xs k) else map_of xs k')"
  by (induction xs) (auto simp: set_node_def)

lemma map_of_filter_key:
  "map_of (filter (\<lambda>(k', n). k' \<noteq> k) xs) q = (if q = k then None else map_of xs q)"
  by (induction xs) auto

lemma lookup_nodes:
  "lookup f p =
     (if has_nul p then None
      else case map_of (nodes f) (fs_key p) of
             Some (File c t r w) \<Rightarrow> if as_directory p then None else Some (File c t r w)
           | other \<Rightarrow> other)"
  by (simp add: lookup_def probe_path_def split: option.splits node.splits)

lemma lookup_same_nodes:
  "map_of (nodes g) (fs_key q) = map_of (nodes f) (fs_key q) \<Longrightarrow> lookup g q = lookup f q"
  by (simp add: lookup_nodes)

lemma lookup_write_same:
  "fs_writeFile f p s = Inr g \<Longrightarrow> \<exists>t r w. lookup g p = Some (File s t r w)"
  by (auto simp: fs_writeFile_def probe_path_def lookup_nodes map_of_set_node map_add_def
      split: option.splits node.splits if_splits)

lemma lookup_write_other:
  assumes "fs_writeFile f p s = Inr g" and "fs_key q \<noteq> fs_key p"
  shows "lookup g q = lookup f q"
proof (rule lookup_same_nodes)
  show "map_of (nodes g) (fs_key q) = map_of (nodes f) (fs_key q)"
    using assms
    by (auto simp: fs_writeFile_def probe_path_def map_of_set_node map_add_def
        split: option.splits node.splits if_splits)
qed

lemma lookup_unlink_same: "fs_unlink f p = Inr g \<Longrightarrow> lookup g p = None"
  by (auto simp: fs_unlink_def lookup_nodes map_of_filter_key split: option.splits node.splits if_splits)

lemma lookup_unlink_other:
  assumes "fs_unlink f p = Inr g" and "fs_key q \<noteq> fs_key p"
  shows "lookup g q = lookup f q"
proof (rule lookup_same_nodes)
  show "map_of (nodes g) (fs_key q) = map_of (nodes f) (fs_key q)"
    using assms
    by (auto simp: fs_unlink_def map_of_filter_key split: option.splits node.splits if_splits)
qed

lemma lookup_safeUnlink_other:
  "fs_key q \<noteq> fs_key p \<Longrightarrow> lookup (fs_safeUnlink f p) q = lookup f q"
  by (auto simp: fs_safeUnlink_def lookup_unlink_other split: sum.splits)

lemma fs_nonempty_lookup:
  "fs_nonempty f p = (case lookup f p of None \<Rightarrow> False | Some (File c t r w) \<Rightarrow> c \<noteq> []
                      | Some (Dir w s t) \<Rightarrow> s > 0)"
  by (simp add: fs_nonempty_def fs_stat_def split: option.splits node.splits)

lemma fs_exists_lookup: "fs_exists f p = (lookup f p \<noteq> None)"
  by (simp add: fs_exists_def)

lemma fs_nonempty_exists: "fs_nonempty f p \<Longrightarrow> fs_exists f p"
  by (auto simp: fs_nonempty_lookup fs_exists_def split: option.splits)

lemma fs_nonempty_write: "fs_writeFile f p s = Inr g \<Longrightarrow> s \<noteq> [] \<Longrightarrow> fs_nonempty g p"
  by (auto simp: fs_nonempty_lookup dest: lookup_write_same)

lemma fs_nonempty_safeUnlink:
  "fs_key q \<noteq> fs_key p \<Longrightarrow> fs_nonempty (fs_safeUnlink f q) p = fs_nonempty f p"
  by (simp add: fs_nonempty_lookup lookup_safeUnlink_other[of p q])

lemma read_nonempty: "fs_nonempty f p \<Longrightarrow> fs_readFile f p = Inr s \<Longrightarrow> s \<noteq> []"
  by (auto simp: fs_nonempty_lookup fs_readFile_def split: option.splits node.splits if_splits)

lemma normalize_differs: "normalize p \<noteq> normalize q \<Longrightarrow> path_normalize p \<noteq> path_normalize q"
  by (auto simp: normalize_def)

text \<open>A path whose normal form ends with a segment is its own key.\<close>

lemma plain_key:
  assumes "final_seg n (path_normalize p)" and "seg_ok n"
  shows "fs_key p = path_normalize p" and "\<not> as_directory p"
proof -
  have ne: "n \<noteq> []" and ns: "CHR ''/'' \<notin> set n"
    using assms(2) by (auto simp: seg_ok_def is_entry_name_def)
  from assms(1) have "last (path_normalize p) = last n"
    using ne by (auto simp: final_seg_def)
  moreover have "last n \<in> set n" using ne by simp
  ultimately have "last (path_normalize p) \<noteq> CHR ''/''" using ns by auto
  then show "\<not> as_directory p" by (simp add: as_directory_def)
  then show "fs_key p = path_normalize p" by (simp add: fs_key_def)
qed

lemma fs_newest_stat:
  "fst (fs_newest f ps acc) = Some q \<Longrightarrow>
     (q \<in> set ps \<and> (\<exists>st. fs_stat f q = Inr st)) \<or> fst acc = Some q"
proof (induction ps arbitrary: acc)
  case Nil
  then show ?case by simp
next
  case (Cons p ps)
  let ?acc = "case fs_stat f p of Inl e \<Rightarrow> acc
              | Inr st \<Rightarrow> if mtimeMs st > snd acc then (Some p, mtimeMs st) else acc"
  from Cons.prems have "fst (fs_newest f ps ?acc) = Some q" by simp
  from Cons.IH[OF this] show ?case
    by (auto split: sum.splits if_splits)
qed

lemma fs_newest_picks:
  "fst (fs_newest f ps (None, t)) = Some q \<Longrightarrow> q \<in> set ps \<and> (\<exists>st. fs_stat f q = Inr st)"
  using fs_newest_stat[of f ps "(None, t)" q] by simp

section \<open>The handler, step by step\<close>

text \<open>
  Lemmas about the loop over the variants, the code after it and the code before it.
  The statements of the claims rest on them.
\<close>

subsection \<open>The paths of a job, the exit statuses, the ok results\<close>

lemma io_bind_cases:
  assumes "io_bind m k w = (r, w')"
  obtains (throws) e where "m w = (Inl e, w')" "r = Inl e"
        | (returns) x w1 where "m w = (Inr x, w1)" "k x w1 = (r, w')"
  using assms by (auto simp: io_bind_run split: prod.splits sum.splits)

lemma io_bind_returns:
  assumes "io_bind m k w = (Inr y, w')"
  obtains x w1 where "m w = (Inr x, w1)" "k x w1 = (Inr y, w')"
  using assms by (auto simp: io_bind_run split: prod.splits sum.splits)

lemma component_no_sep: "CHR ''/'' \<notin> set (component p)"
proof -
  have "\<forall>c\<in>set (takeWhile (\<lambda>c. \<not> is_sep c) xs). \<not> is_sep c" for xs
    by (auto dest: set_takeWhileD)
  then show ?thesis by (auto simp: component_def is_sep_def)
qed

lemma basename_no_sep: "CHR ''/'' \<notin> set (basename p e)"
  using component_no_sep[of p] by (auto simp: basename_def Let_def dest: in_set_takeD)

lemma final_seg_differs:
  assumes "final_seg n p" "final_seg m q" "CHR ''/'' \<notin> set n" "CHR ''/'' \<notin> set m" "n \<noteq> m"
  shows "p \<noteq> q"
  using assms final_seg_unique by blast

lemma desiredTxt_final_seg:
  "final_seg (base (job_locals ap) @ ''.txt'') (path_normalize (desiredTxt (job_locals ap)))"
  by (simp add: job_locals_def Let_def path_normalize_final_seg path_join_final_seg seg_ok_suffix
      basename_no_sep)

lemma temp_final_seg:
  "\<not> isWav (job_locals ap) \<Longrightarrow>
   final_seg (base (job_locals ap) @ ''__whisper_tmp.wav'') (path_normalize (wavForWhisper (job_locals ap)))"
  by (simp add: job_locals_def Let_def path_normalize_final_seg path_join_final_seg seg_ok_suffix
      basename_no_sep)

lemma temp_not_output:
  "\<not> isWav (job_locals ap) \<Longrightarrow>
   path_normalize (wavForWhisper (job_locals ap)) \<noteq> path_normalize (desiredTxt (job_locals ap))"
proof -
  assume nw: "\<not> isWav (job_locals ap)"
  have ns: "CHR ''/'' \<notin> set (base (job_locals ap))"
    by (simp add: job_locals_def Let_def basename_no_sep)
  show ?thesis
    by (rule final_seg_differs[OF temp_final_seg[OF nw] desiredTxt_final_seg]) (use ns in auto)
qed

lemma desiredTxt_plain:
  "fs_key (desiredTxt (job_locals ap)) = path_normalize (desiredTxt (job_locals ap))"
  by (rule plain_key(1)[OF desiredTxt_final_seg])
     (simp add: job_locals_def Let_def seg_ok_suffix basename_no_sep)

lemma temp_plain:
  "\<not> isWav (job_locals ap) \<Longrightarrow>
   fs_key (wavForWhisper (job_locals ap)) = path_normalize (wavForWhisper (job_locals ap))"
  by (rule plain_key(1)[OF temp_final_seg])
     (simp_all add: job_locals_def Let_def seg_ok_suffix basename_no_sep)

lemma temp_not_output_key:
  "\<not> isWav (job_locals ap) \<Longrightarrow>
   fs_key (wavForWhisper (job_locals ap)) \<noteq> fs_key (desiredTxt (job_locals ap))"
  by (simp add: temp_plain desiredTxt_plain temp_not_output)








lemma job_transcribe_cases:
  assumes "job_transcribe env rq w = (r, w')"
  obtains (caught) e where "job_body env rq w = (Inl e, w')"
            "r = Inr (failed (if message e = [] then ''Error'' else message e))"
        | (returned) res where "job_body env rq w = (Inr res, w')" "r = Inr res"
  using assms by (auto simp: job_transcribe_def io_catch_run io_return_run split: prod.splits sum.splits)

lemma job_loop_cases:
  assumes "job_loop env rq w = (Inr ex, w2)"
  obtains (notfound) "job_setup env rq w = (Inr NotFound, w2)"
            "ex = Return (failed ''Audio path is empty or not found.'')"
        | (ready) bin common pre w1 where "job_setup env rq w = (Inr (Ready bin common pre), w1)"
            "attempts env bin (job_locals (audioPath rq)) pre
               (variants (job_locals (audioPath rq)) common) ([], []) w1 = (Inr ex, w2)"
proof -
  from assms obtain s w1 where s: "job_setup env rq w = (Inr s, w1)"
    and k: "(case s of NotFound \<Rightarrow> io_return (Return (failed ''Audio path is empty or not found.''))
             | Ready bin common pre \<Rightarrow>
                 let L = job_locals (audioPath rq)
                 in attempts env bin L pre (variants L common) ([], [])) w1 = (Inr ex, w2)"
    unfolding job_loop_def by (rule io_bind_returns)
  show ?thesis
  proof (cases s)
    case NotFound
    with s k show ?thesis by (intro notfound) (auto simp: io_return_run)
  next
    case (Ready bin common pre)
    with s k show ?thesis by (intro ready[of bin common pre w1]) (auto simp: Let_def)
  qed
qed

subsection \<open>The code after the loop\<close>

lemma cleanupTemp_cleaned: "cleanupTemp (wavForWhisper L) (isWav L) w = (Inr (), cleaned L w)"
  by (simp add: cleanupTemp_run cleaned_def)

lemma trim_Nil: "trim [] = []"
  by (simp add: trim_def)

lemma trim_nonblank: "0 < length (trim s) \<Longrightarrow> s \<noteq> []"
  by (auto simp: trim_Nil)

lemma after_loop_stdout:
  assumes "0 < length (trim out)"
  shows "after_loop L (Exhausted out err) w =
           (case fs_writeFile (fsys w) (desiredTxt L) out of
              Inl e \<Rightarrow> (Inl e, record_event (WriteFile (desiredTxt L) out) w)
            | Inr g \<Rightarrow> (Inr (succeeded (desiredTxt L) (Some ''Saved from stdout fallback.'')),
                       cleaned L (record_event (WriteFile (desiredTxt L) out) (w\<lparr>fsys := g\<rparr>))))"
  using assms trim_nonblank[OF assms]
  by (simp add: after_loop_def io_bind_run io_return_run writeFileSync_def cleanupTemp_cleaned
      split: sum.splits)

lemma after_loop_blank:
  assumes "trim out = []"
  shows "after_loop L (Exhausted out err) w =
           (case fs_writeFile (fsys w) (diagnostic_path (desiredTxt L)) (diagnostic_text out err) of
              Inl e \<Rightarrow> (Inl e, record_event (WriteFile (diagnostic_path (desiredTxt L))
                                               (diagnostic_text out err)) w)
            | Inr g \<Rightarrow> (Inr (failed (''Transcription finished but no .txt file was found. Saved logs to ''
                                     @ diagnostic_path (desiredTxt L))),
                       cleaned L (record_event (WriteFile (diagnostic_path (desiredTxt L))
                                                  (diagnostic_text out err)) (w\<lparr>fsys := g\<rparr>))))"
  using assms
  by (simp add: after_loop_def io_bind_run io_return_run writeFileSync_def cleanupTemp_cleaned
      split: sum.splits)

lemma after_loop_Return: "after_loop L (Return r) w = (Inr r, w)"
  by (simp add: after_loop_def io_return_run)

lemma job_transcribe_run:
  "job_transcribe env rq w =
     (case job_loop env rq w of
        (Inl e, w2) \<Rightarrow> (Inr (failed (if message e = [] then ''Error'' else message e)), w2)
      | (Inr ex, w2) \<Rightarrow>
          (case after_loop (job_locals (audioPath rq)) ex w2 of
             (Inl e, w') \<Rightarrow> (Inr (failed (if message e = [] then ''Error'' else message e)), w')
           | (Inr res, w') \<Rightarrow> (Inr res, w')))"
  by (simp add: job_transcribe_def job_body_def io_catch_run io_bind_run io_return_run
      split: prod.splits sum.splits)

lemma lookup_cleaned:
  "isWav L \<or> fs_key (wavForWhisper L) \<noteq> fs_key p \<Longrightarrow>
   lookup (fsys (cleaned L w)) p = lookup (fsys w) p"
  by (auto simp: cleaned_def record_event_def lookup_safeUnlink_other[of p])

lemma trace_cleaned:
  "trace (cleaned L w) = trace w @ (if isWav L then [] else [Unlink (wavForWhisper L)])"
  by (simp add: cleaned_def record_event_def)

subsection \<open>One attempt, and the trace of the loop\<close>

lemma component_plain:
  assumes "n \<noteq> []" "CHR ''/'' \<notin> set n"
  shows "component n = n"
proof -
  have d: "dropWhile is_sep (rev n) = rev n"
    using dropWhile_sep_rev[OF assms, of "[]"] by simp
  have t: "takeWhile (\<lambda>c. \<not> is_sep c) (rev n) = rev n"
    by (rule takeWhile_eq_all_conv[THEN iffD2]) (use assms(2) in \<open>auto simp: is_sep_def\<close>)
  show ?thesis unfolding component_def d t by simp
qed

lemma component_final_seg: "final_seg n p \<Longrightarrow> seg_ok n \<Longrightarrow> component p = n"
  by (auto simp: final_seg_def seg_ok_def is_entry_name_def component_plain component_join)

lemma children_seg_ok: "n \<in> set (children f d) \<Longrightarrow> seg_ok n"
  by (auto simp: children_def seg_ok_def component_no_sep)

lemma listTxt_entries: "p \<in> set (fs_listTxt f d) \<Longrightarrow> txt_entry d p"
proof -
  assume "p \<in> set (fs_listTxt f d)"
  then obtain n where n: "n \<in> set (children f d)" "is_txt_name n" "p = path_join d n"
    by (auto simp: fs_listTxt_def fs_readdir_def split: sum.splits option.splits node.splits)
  have ok: "seg_ok n" using n(1) by (rule children_seg_ok)
  have "component p = n"
    unfolding n(3) by (rule component_final_seg[OF path_join_final_seg[OF ok] ok])
  then show ?thesis using ok n by (simp add: txt_entry_def)
qed

lemma newest_entry:
  assumes "fst (fs_newest f (filter P (fs_listTxt f d)) (None, t)) = Some n"
  shows "txt_entry d n \<and> P n"
  using fs_newest_picks[OF assms] listTxt_entries[of n f d] by auto

lemma attempts_Cons_run:
  "attempts env bin L pre (v # vs) cap w =
    (let x = execFile env bin v (fsys w); f1 = snd x; cap' = (stdout (fst x), stderr (fst x));
         probe = ExecFile bin v # Exists (desiredTxt L)
                   # (if fs_exists f1 (desiredTxt L) then [Stat (desiredTxt L)] else [])
     in
     if \<not> args_ok bin v then (Inl (Error (refusal env bin v)), w)
     else if fs_exists f1 (desiredTxt L) \<and> fs_nonempty f1 (desiredTxt L)
     then (Inr (Return (succeeded (desiredTxt L) None)),
           cleaned L (w\<lparr>fsys := f1, trace := trace w @ probe\<rparr>))
     else
       let cands = filter (\<lambda>p. p \<notin> set pre) (fs_listTxt f1 (dir L));
           scan = probe @ Readdir (dir L) # map Stat cands
       in
       case fst (fs_newest f1 cands (None, - 1)) of
         None \<Rightarrow> attempts env bin L pre vs cap' (w\<lparr>fsys := f1, trace := trace w @ scan\<rparr>)
       | Some n \<Rightarrow>
           if n = [] then attempts env bin L pre vs cap' (w\<lparr>fsys := f1, trace := trace w @ scan\<rparr>)
           else if \<not> fs_nonempty f1 n
           then attempts env bin L pre vs cap' (w\<lparr>fsys := f1, trace := trace w @ scan @ [Stat n]\<rparr>)
           else
             (case fs_readFile f1 n of
                Inl e \<Rightarrow> (Inl e, w\<lparr>fsys := f1, trace := trace w @ scan @ [Stat n, ReadFile n]\<rparr>)
              | Inr text \<Rightarrow>
                  (case fs_writeFile f1 (desiredTxt L) text of
                     Inl e \<Rightarrow>
                       (Inl e, w\<lparr>fsys := f1,
                                  trace := trace w @ scan
                                             @ [Stat n, ReadFile n, WriteFile (desiredTxt L) text]\<rparr>)
                   | Inr g \<Rightarrow>
                       (Inr (Return (succeeded (desiredTxt L) None)),
                        cleaned L
                          (if normalize n \<noteq> normalize (desiredTxt L)
                           then w\<lparr>fsys := fs_safeUnlink g n,
                                  trace := trace w @ scan
                                             @ [Stat n, ReadFile n, WriteFile (desiredTxt L) text,
                                                Unlink n]\<rparr>
                           else w\<lparr>fsys := g,
                                  trace := trace w @ scan
                                             @ [Stat n, ReadFile n, WriteFile (desiredTxt L) text]\<rparr>)))))"
  by (simp add: io_bind_run io_return_run execFileSafe_run existsSync_run fileNonEmpty_run
      listTxt_run newestByMtime_run cleanupTemp_cleaned safeUnlink_run readFileSync_def
      writeFileSync_def record_event_def record_events_def Let_def cleaned_def
      split: sum.splits option.splits prod.splits)

lemma quiet_simps:
  "quiet []" "quiet (Stat p # es) = quiet es" "quiet (Readdir p # es) = quiet es"
  "quiet (es @ es') = (quiet es \<and> quiet es')" "quiet (map Stat ps)"
  by (auto simp: quiet_def)

lemma attempts_step
  [consumes 1, case_names direct retry read_failed write_failed copied refused]:
  assumes run: "attempts env bin L pre (v # vs) cap w = (r, w')"
  obtains
    (direct) f1 es where "f1 = snd (execFile env bin v (fsys w))"
      "fs_exists f1 (desiredTxt L)" "fs_nonempty f1 (desiredTxt L)" "quiet es"
      "r = Inr (Return (succeeded (desiredTxt L) None))"
      "w' = cleaned L (w\<lparr>fsys := f1, trace := trace w @ ExecFile bin v # Exists (desiredTxt L) # es\<rparr>)"
      "args_ok bin v"
  | (retry) f1 es cap' where "f1 = snd (execFile env bin v (fsys w))"
      "\<not> (fs_exists f1 (desiredTxt L) \<and> fs_nonempty f1 (desiredTxt L))" "quiet es"
      "attempts env bin L pre vs cap'
         (w\<lparr>fsys := f1, trace := trace w @ ExecFile bin v # Exists (desiredTxt L) # es\<rparr>) = (r, w')"
      "args_ok bin v" "heuristic_match pre f1 L = None"
      "cap' = (stdout (fst (execFile env bin v (fsys w))), stderr (fst (execFile env bin v (fsys w))))"
  | (read_failed) f1 es n e where "f1 = snd (execFile env bin v (fsys w))"
      "n \<in> set (fs_listTxt f1 (dir L))" "n \<notin> set pre" "quiet es" "r = Inl e"
      "w' = w\<lparr>fsys := f1,
               trace := trace w @ ExecFile bin v # Exists (desiredTxt L) # es @ [ReadFile n]\<rparr>"
      "args_ok bin v" "\<not> direct_match f1 L" "heuristic_match pre f1 L = Some n"
  | (write_failed) f1 es n body e where "f1 = snd (execFile env bin v (fsys w))"
      "n \<in> set (fs_listTxt f1 (dir L))" "n \<notin> set pre" "quiet es" "r = Inl e"
      "w' = w\<lparr>fsys := f1,
               trace := trace w @ ExecFile bin v # Exists (desiredTxt L) # es
                          @ [ReadFile n, WriteFile (desiredTxt L) body]\<rparr>"
      "args_ok bin v" "\<not> direct_match f1 L" "heuristic_match pre f1 L = Some n"
  | (copied) f1 es n body g where "f1 = snd (execFile env bin v (fsys w))"
      "n \<in> set (fs_listTxt f1 (dir L))" "n \<notin> set pre" "quiet es"
      "fs_nonempty f1 n" "fs_readFile f1 n = Inr body"
      "fs_writeFile f1 (desiredTxt L) body = Inr g"
      "r = Inr (Return (succeeded (desiredTxt L) None))"
      "w' = cleaned L
              (w\<lparr>fsys := (if normalize n \<noteq> normalize (desiredTxt L) then fs_safeUnlink g n else g),
                 trace := trace w @ ExecFile bin v # Exists (desiredTxt L) # es
                            @ ReadFile n # WriteFile (desiredTxt L) body
                            # (if normalize n \<noteq> normalize (desiredTxt L) then [Unlink n] else [])\<rparr>)"
      "args_ok bin v" "\<not> direct_match f1 L" "heuristic_match pre f1 L = Some n"
  | (refused) "\<not> args_ok bin v" "r = Inl (Error (refusal env bin v))" "w' = w"
proof (cases "args_ok bin v")
  case False
  with run[unfolded attempts_Cons_run Let_def] show thesis by (intro refused) auto
next
  case ok: True
  define f1 where "f1 = snd (execFile env bin v (fsys w))"
  define cap' where "cap' = (stdout (fst (execFile env bin v (fsys w))),
                             stderr (fst (execFile env bin v (fsys w))))"
  define pt where "pt = (if fs_exists f1 (desiredTxt L) then [Stat (desiredTxt L)] else [])"
  define cands where "cands = filter (\<lambda>p. p \<notin> set pre) (fs_listTxt f1 (dir L))"
  define scan where "scan = pt @ Readdir (dir L) # map Stat cands"
  have qpt: "quiet pt" and qscan: "quiet scan"
    by (auto simp: pt_def scan_def quiet_simps)
  have hm: "heuristic_match pre f1 L =
              (case fst (fs_newest f1 cands (None, - 1)) of None \<Rightarrow> None
               | Some n \<Rightarrow> if n \<noteq> [] \<and> fs_nonempty f1 n then Some n else None)"
    by (simp add: heuristic_match_def new_texts_def cands_def)
  note eq = run[unfolded attempts_Cons_run Let_def, folded f1_def, folded cap'_def,
                folded pt_def, folded cands_def]
  show thesis
  proof (cases "fs_exists f1 (desiredTxt L) \<and> fs_nonempty f1 (desiredTxt L)")
    case True
    with eq ok show thesis
      by (intro direct[of f1 pt]) (auto simp: f1_def qpt)
  next
    case False
    then have nd: "\<not> direct_match f1 L" by (simp add: direct_match_def)
    show thesis
    proof (cases "fst (fs_newest f1 cands (None, - 1))")
      case None
      then have hn: "heuristic_match pre f1 L = None" by (simp add: hm)
      with eq False ok None show thesis
        by (intro retry[of f1 scan cap'])
           (use hn[unfolded f1_def] in \<open>auto simp: f1_def qpt scan_def quiet_simps cap'_def\<close>)
    next
      case (Some n)
      from fs_newest_picks[OF Some] have n: "n \<in> set (fs_listTxt f1 (dir L))" "n \<notin> set pre"
        by (auto simp: cands_def)
      show thesis
      proof (cases "n = [] \<or> \<not> fs_nonempty f1 n")
        case True
        then consider "n = []" | "n \<noteq> []" "\<not> fs_nonempty f1 n" by blast
        then show thesis
        proof cases
          case 1
          then have hn: "heuristic_match pre f1 L = None" by (simp add: hm Some)
          with 1 eq False Some ok show thesis
            by (intro retry[of f1 scan cap'])
               (use hn[unfolded f1_def] in \<open>auto simp: f1_def qpt scan_def quiet_simps cap'_def\<close>)
        next
          case 2
          then have hn: "heuristic_match pre f1 L = None" by (simp add: hm Some)
          with 2 eq False Some ok show thesis
            by (intro retry[of f1 "scan @ [Stat n]" cap'])
               (use hn[unfolded f1_def] in \<open>auto simp: f1_def qpt scan_def quiet_simps cap'_def\<close>)
        qed
      next
        case ne: False
        then have hs: "heuristic_match pre f1 L = Some n" by (simp add: hm Some)
        show thesis
        proof (cases "fs_readFile f1 n")
          case (Inl e)
          with eq False Some ne ok nd hs show thesis
            by (intro read_failed[of f1 n "scan @ [Stat n]" e])
               (use n[unfolded f1_def] nd[unfolded f1_def] hs[unfolded f1_def] in
                   \<open>auto simp: f1_def qpt scan_def quiet_simps\<close>)
        next
          case (Inr body)
          show thesis
          proof (cases "fs_writeFile f1 (desiredTxt L) body")
            case (Inl e)
            with eq False Some ne Inr ok nd hs show thesis
              by (intro write_failed[of f1 n "scan @ [Stat n]" e body])
                 (use n[unfolded f1_def] nd[unfolded f1_def] hs[unfolded f1_def] in
                   \<open>auto simp: f1_def qpt scan_def quiet_simps\<close>)
          next
            case g: (Inr g)
            with eq False Some ne Inr ok nd hs show thesis
              by (intro copied[of f1 n "scan @ [Stat n]" body g])
                 (use n[unfolded f1_def] nd[unfolded f1_def] hs[unfolded f1_def] in
                   \<open>auto simp: f1_def qpt scan_def quiet_simps\<close>)
          qed
        qed
      qed
    qed
  qed
qed

lemma tidy_quiet:
  "tidy L (tr @ ExecFile b a # Exists p # es) = tidy L tr" if "quiet es"
  using that by (fastforce simp: tidy_def loop_event_def quiet_def)

lemma tidy_cleaned: "tidy L (trace w) \<Longrightarrow> tidy L (trace (cleaned L w))"
  by (auto simp: trace_cleaned tidy_def loop_event_def)

lemma tidy_attempts:
  assumes "attempts env bin L pre vs cap w = (r, w')" and "tidy L (trace w)"
  shows "tidy L (trace w')"
  using assms
proof (induction vs arbitrary: cap w)
  case Nil
  then show ?case by (simp add: io_return_run)
next
  case (Cons v vs)
  from Cons.prems(1) show ?case
  proof (cases rule: attempts_step)
    case (direct f1 es)
    then show ?thesis using Cons.prems(2) by (auto intro!: tidy_cleaned simp: tidy_quiet)
  next
    case (retry f1 es cap')
    show ?thesis
      by (rule Cons.IH[OF retry(4)]) (simp add: tidy_quiet[OF retry(3)] Cons.prems(2))
  next
    case (read_failed f1 es n e)
    then show ?thesis using Cons.prems(2)
      by (fastforce simp: tidy_def loop_event_def quiet_def)
  next
    case (write_failed f1 es n body e)
    then show ?thesis using Cons.prems(2)
      by (fastforce simp: tidy_def loop_event_def quiet_def)
  next
    case (copied f1 es n body g)
    have "txt_entry (dir L) n" using copied(2) by (rule listTxt_entries)
    then have "tidy L (trace w @ ExecFile bin v # Exists (desiredTxt L) # es
                            @ ReadFile n # WriteFile (desiredTxt L) body
                            # (if normalize n \<noteq> normalize (desiredTxt L) then [Unlink n] else []))"
      using Cons.prems(2) copied(4) by (fastforce simp: tidy_def loop_event_def quiet_def)
    then show ?thesis unfolding copied(9) by (intro tidy_cleaned) simp
  next
    case refused
    then show ?thesis using Cons.prems(2) by simp
  qed
qed

lemma attempts_cleaned:
  assumes "attempts env bin L pre vs cap w = (Inr (Return x), w')"
  shows "\<exists>w0. w' = cleaned L w0"
  using assms
proof (induction vs arbitrary: cap w)
  case Nil
  then show ?case by (simp add: io_return_run)
next
  case (Cons v vs)
  from Cons.prems(1) show ?case
    by (cases rule: attempts_step) (auto dest: Cons.IH)
qed








subsection \<open>Text files, the output, the log and a waveform input\<close>

lemma endsWith_tail: "length x = length y \<Longrightarrow> endsWith (u @ x) y = (x = y)"
  by (auto simp: endsWith_def)

lemma endsWith_prepend: "endsWith s x \<Longrightarrow> endsWith (a @ s) x"
  by (auto simp: endsWith_def)

lemma is_txt_name_final_seg: "final_seg n p \<Longrightarrow> is_txt_name n \<Longrightarrow> is_txt_name p"
proof -
  assume f: "final_seg n p" and n: "is_txt_name n"
  from f consider "p = n" | q where "p = (q @ ''/'') @ n" by (auto simp: final_seg_def)
  then show ?thesis
  proof cases
    case 1
    then show ?thesis using n by simp
  next
    case 2
    show ?thesis
      unfolding 2 is_txt_name_def toLowerCase_append
      by (rule endsWith_prepend) (use n in \<open>simp add: is_txt_name_def\<close>)
  qed
qed

lemma txt_entry_key: "txt_entry d p \<Longrightarrow> is_txt_name (path_normalize p)"
proof -
  assume t: "txt_entry d p"
  then have ok: "seg_ok (component p)" and n: "is_txt_name (component p)"
    and p: "path_join d (component p) = p" by (auto simp: txt_entry_def)
  have "final_seg (component p) p" using path_join_final_seg[OF ok, of d] p by simp
  then have "final_seg (component p) (path_normalize p)" using ok by (rule path_normalize_final_seg)
  then show ?thesis using n by (rule is_txt_name_final_seg)
qed

lemma is_txt_name_suffix: "is_txt_name (b @ ''.txt'')" "is_txt_name (b @ ''.log.txt'')"
  using endsWith_tail[of "''.txt''" "''.txt''" "toLowerCase b"]
    endsWith_tail[of "''.txt''" "''.txt''" "toLowerCase b @ ''.log''"]
  by (simp_all add: is_txt_name_def toLowerCase_append toLowerCase_dot_txt)
     (simp add: toLowerCase_def lower_char_def)

lemma desiredTxt_key: "is_txt_name (path_normalize (desiredTxt (job_locals ap)))"
  using desiredTxt_final_seg is_txt_name_suffix(1) by (rule is_txt_name_final_seg)

lemma desiredTxt_plain_final_seg:
  "final_seg (base (job_locals ap) @ ''.txt'') (desiredTxt (job_locals ap))"
  by (simp add: job_locals_def Let_def path_join_final_seg seg_ok_suffix basename_no_sep)

lemma diagnostic_final_seg:
  "final_seg (base (job_locals ap) @ ''.log.txt'') (diagnostic_path (desiredTxt (job_locals ap)))"
proof -
  let ?b = "base (job_locals ap)"
  from desiredTxt_plain_final_seg[of ap]
  consider "desiredTxt (job_locals ap) = ?b @ ''.txt''"
    | q where "desiredTxt (job_locals ap) = (q @ CHR ''/'' # ?b) @ ''.txt''"
    by (auto simp: final_seg_def)
  then show ?thesis
  proof cases
    case 1
    then show ?thesis by (simp only: diagnostic_path_txt) (simp add: final_seg_def)
  next
    case 2
    then show ?thesis by (simp only: diagnostic_path_txt) (simp add: final_seg_def)
  qed
qed

lemma diagnostic_key: "is_txt_name (path_normalize (diagnostic_path (desiredTxt (job_locals ap))))"
proof -
  have ns: "CHR ''/'' \<notin> set (base (job_locals ap))"
    by (simp add: job_locals_def Let_def basename_no_sep)
  have "seg_ok (base (job_locals ap) @ ''.log.txt'')" using ns by (intro seg_ok_suffix) auto
  from path_normalize_final_seg[OF diagnostic_final_seg this] is_txt_name_suffix(2)
  show ?thesis by (rule is_txt_name_final_seg)
qed

lemma diagnostic_differs: "diagnostic_path (desiredTxt (job_locals ap)) \<noteq> desiredTxt (job_locals ap)"
proof -
  have ns: "CHR ''/'' \<notin> set (base (job_locals ap))"
    by (simp add: job_locals_def Let_def basename_no_sep)
  show ?thesis
    by (rule final_seg_differs[OF diagnostic_final_seg desiredTxt_plain_final_seg]) (use ns in auto)
qed

lemma temp_not_diagnostic:
  "\<not> isWav (job_locals ap) \<Longrightarrow>
   path_normalize (wavForWhisper (job_locals ap))
     \<noteq> path_normalize (diagnostic_path (desiredTxt (job_locals ap)))"
proof -
  assume nw: "\<not> isWav (job_locals ap)"
  have ns: "CHR ''/'' \<notin> set (base (job_locals ap))"
    by (simp add: job_locals_def Let_def basename_no_sep)
  have ok: "seg_ok (base (job_locals ap) @ ''.log.txt'')" using ns by (intro seg_ok_suffix) auto
  show ?thesis
    by (rule final_seg_differs[OF temp_final_seg[OF nw]
          path_normalize_final_seg[OF diagnostic_final_seg ok]]) (use ns in auto)
qed

lemma split_on_trailing:
  "split_on c (a @ replicate k c) = split_on c a @ replicate k []"
proof (induction k)
  case 0
  show ?case by simp
next
  case (Suc k)
  have "a @ replicate (Suc k) c = (a @ replicate k c) @ c # []"
    by (simp add: replicate_append_same)
  then show ?case using Suc by (simp only: split_on_append) (simp add: replicate_append_same)
qed

lemma foldl_norm_step_empty: "foldl (norm_step a) res (replicate k []) = res"
  by (induction k) (auto simp: norm_step_def)

lemma normalizeString_trailing: "normalizeString (p @ replicate k (CHR ''/'')) a = normalizeString p a"
  by (simp add: normalizeString_def split_on_trailing foldl_norm_step_empty)

lemma path_decompose:
  "\<exists>q k. p = q @ component p @ replicate k (CHR ''/'') \<and> (q = [] \<or> last q = CHR ''/'')"
proof -
  define r where "r = dropWhile is_sep (rev p)"
  define s where "s = takeWhile is_sep (rev p)"
  define t where "t = dropWhile (\<lambda>c. \<not> is_sep c) r"
  have c: "rev (component p) = takeWhile (\<lambda>c. \<not> is_sep c) r" by (simp add: component_def r_def)
  have "rev p = s @ r" by (simp add: s_def r_def)
  moreover have "r = rev (component p) @ t" by (simp add: c t_def)
  ultimately have p: "p = rev t @ component p @ rev s"
    by (metis append_assoc rev_append rev_rev_ident)
  have "set s \<subseteq> {CHR ''/''}" using set_takeWhileD[of _ is_sep "rev p"] by (auto simp: s_def is_sep_def)
  then have "rev s = replicate (length s) (CHR ''/'')"
    by (metis length_rev replicate_length_same set_rev subset_singletonD empty_iff insert_iff replicate_eqI subsetD)
  moreover have "rev t = [] \<or> last (rev t) = CHR ''/''"
  proof (cases t)
    case Nil then show ?thesis by simp
  next
    case (Cons x xs)
    then have "is_sep x" unfolding t_def using hd_dropWhile[of "\<lambda>c. \<not> is_sep c" r] by (metis list.sel(1) list.distinct(1))
    then show ?thesis using Cons by (simp add: is_sep_def)
  qed
  ultimately show ?thesis using p by metis
qed

lemma extname_suffix:
  assumes "extname p \<noteq> []"
  shows "seg_ok (component p) \<and> (\<exists>u. component p = u @ extname p)"
proof -
  let ?c = "component p"
  let ?e = "rev (takeWhile (\<lambda>x. x \<noteq> CHR ''.'') (rev ?c))"
  from assms have d: "CHR ''.'' \<in> set ?c" and l: "length ?c \<noteq> Suc (length ?e)" and dd: "?c \<noteq> ''..''"
    and e: "extname p = drop (length ?c - Suc (length ?e)) ?c"
    by (auto simp: extname_def Let_def split: if_splits)
  have "?c \<noteq> ''.''" using l by auto
  moreover have "?c \<noteq> []" using d by auto
  ultimately have "seg_ok ?c" using dd component_no_sep[of p] by (simp add: seg_ok_def is_entry_name_def)
  moreover have "?c = take (length ?c - Suc (length ?e)) ?c @ extname p"
    unfolding e by simp
  ultimately show ?thesis by blast
qed

lemma wav_input_shape:
  assumes "isWav (job_locals ap)"
  obtains y u t where "path_normalize ap = y @ component ap @ t" "t = [] \<or> t = ''/''"
    "toLowerCase (component ap) = toLowerCase u @ ''.wav''" "component ap \<noteq> []"
proof -
  let ?c = "component ap"
  from assms have w: "toLowerCase (extname ap) = ''.wav''" by (simp add: job_locals_def Let_def)
  then have "extname ap \<noteq> []" by (auto simp: toLowerCase_def)
  from extname_suffix[OF this] obtain u where ok: "seg_ok ?c" and u: "?c = u @ extname ap" by blast
  have cl: "toLowerCase ?c = toLowerCase u @ ''.wav''"
    using u w by (metis toLowerCase_append)
  from path_decompose[of ap] obtain q k where
    ap: "ap = (q @ ?c) @ replicate k (CHR ''/'')" and q: "q = [] \<or> last q = CHR ''/''" by auto
  have fs: "final_seg ?c (q @ ?c)"
  proof (cases "q = []")
    case True then show ?thesis by (simp add: final_seg_def)
  next
    case False
    with q have "q = butlast q @ [CHR ''/'']" by (metis append_butlast_last_id)
    then have "q @ ?c = butlast q @ CHR ''/'' # ?c" by (metis append_Cons append_Nil append_assoc)
    then show ?thesis unfolding final_seg_def by blast
  qed
  have ns: "normalizeString ap a = normalizeString (q @ ?c) a" for a
    using normalizeString_trailing[of "q @ ?c" k a] ap by simp
  have "final_seg ?c (normalizeString ap a)" for a
    unfolding ns using fs ok by (rule normalizeString_final_seg)
  then have y: "\<exists>y. normalizeString ap a = y @ ?c" for a
    unfolding final_seg_def by (metis append_Nil append_Cons append_assoc)
  have cne: "?c \<noteq> []" using ok by (simp add: seg_ok_def is_entry_name_def)
  then have "ap \<noteq> []" using ap by auto
  from y[of "\<not> is_sep (hd ap)"] obtain y0 where y0: "normalizeString ap (\<not> is_sep (hd ap)) = y0 @ ?c"
    by blast
  have "y0 @ ?c \<noteq> []" using cne by simp
  then have pn: "path_normalize ap
               = ((if is_sep (hd ap) then ''/'' else []) @ y0) @ ?c @ (if is_sep (last ap) then ''/'' else [])"
    using \<open>ap \<noteq> []\<close> by (simp add: path_normalize_def Let_def y0)
  show thesis by (rule that[OF pn _ cl cne]) simp
qed

lemma wav_name_not_txt:
  assumes "toLowerCase c = toLowerCase u @ ''.wav''"
  shows "\<not> is_txt_name (y @ c)" and "\<not> is_txt_name (y @ c @ ''/'')"
proof -
  have low: "toLowerCase (y @ c @ t) = (toLowerCase y @ toLowerCase u) @ ''.wav'' @ toLowerCase t" for t
    by (simp add: toLowerCase_append assms)
  have sl: "toLowerCase ''/'' = ''/''" "toLowerCase [] = []"
    by (simp_all add: toLowerCase_def lower_char_def)
  show "\<not> is_txt_name (y @ c)"
    using endsWith_tail[of "''.wav''" "''.txt''" "toLowerCase y @ toLowerCase u"] low[of "[]"]
    by (simp add: is_txt_name_def sl)
  show "\<not> is_txt_name (y @ c @ ''/'')"
    using endsWith_tail[of "''wav/''" "''.txt''" "toLowerCase y @ toLowerCase u @ ''.''"] low[of "''/''"]
    by (simp add: is_txt_name_def sl)
qed

lemma wav_input_key:
  assumes "isWav (job_locals ap)"
  shows "\<not> is_txt_name (path_normalize ap)"
proof -
  from assms obtain y u t where pn: "path_normalize ap = y @ component ap @ t"
    and t: "t = [] \<or> t = ''/''" and c: "toLowerCase (component ap) = toLowerCase u @ ''.wav''"
    by (rule wav_input_shape)
  from t show ?thesis using wav_name_not_txt[OF c, of y] by (auto simp: pn)
qed

lemma wav_input_fs_key:
  assumes "isWav (job_locals ap)"
  shows "\<not> is_txt_name (fs_key ap)"
proof -
  from assms obtain y u t where pn: "path_normalize ap = y @ component ap @ t"
    and t: "t = [] \<or> t = ''/''" and c: "toLowerCase (component ap) = toLowerCase u @ ''.wav''"
    and ne: "component ap \<noteq> []"
    by (rule wav_input_shape)
  have "last (component ap) \<in> set (component ap)" using ne by simp
  then have l: "last (component ap) \<noteq> CHR ''/''" using component_no_sep[of ap] by auto
  have "fs_key ap = y @ component ap"
  proof (cases "t = []")
    case True
    then have "\<not> as_directory ap" using l ne by (simp add: as_directory_def pn)
    then show ?thesis using True by (simp add: fs_key_def pn)
  next
    case False
    with t have t': "t = ''/''" by simp
    then have "as_directory ap" using ne by (simp add: as_directory_def pn)
    then show ?thesis using t' by (simp add: fs_key_def pn butlast_append)
  qed
  then show ?thesis using wav_name_not_txt(1)[OF c, of y] by simp
qed

lemma txt_entry_plain: "txt_entry d p \<Longrightarrow> fs_key p = path_normalize p"
proof -
  assume t: "txt_entry d p"
  then have ok: "seg_ok (component p)" and p: "path_join d (component p) = p"
    by (auto simp: txt_entry_def)
  have "final_seg (component p) p" using path_join_final_seg[OF ok, of d] p by simp
  then have "final_seg (component p) (path_normalize p)" using ok by (rule path_normalize_final_seg)
  then show ?thesis using ok by (rule plain_key(1))
qed

lemma diagnostic_plain:
  "fs_key (diagnostic_path (desiredTxt (job_locals ap)))
     = path_normalize (diagnostic_path (desiredTxt (job_locals ap)))"
proof -
  have ns: "CHR ''/'' \<notin> set (base (job_locals ap))"
    by (simp add: job_locals_def Let_def basename_no_sep)
  have ok: "seg_ok (base (job_locals ap) @ ''.log.txt'')" using ns by (intro seg_ok_suffix) auto
  show ?thesis by (rule plain_key(1)[OF path_normalize_final_seg[OF diagnostic_final_seg ok] ok])
qed

lemma temp_not_diagnostic_key:
  "\<not> isWav (job_locals ap) \<Longrightarrow>
   fs_key (wavForWhisper (job_locals ap)) \<noteq> fs_key (diagnostic_path (desiredTxt (job_locals ap)))"
  by (simp add: temp_plain diagnostic_plain temp_not_diagnostic)

subsection \<open>The code before the loop\<close>

lemma emits_return: "emits P (io_return x)"
  by (simp add: emits_def io_return_run)

lemma emits_throw: "emits P (io_throw e)"
  by (simp add: emits_def io_throw_run)

lemma emits_bind:
  assumes "emits P m" and "\<And>x. emits P (k x)"
  shows "emits P (io_bind m k)"
  unfolding emits_def
proof (intro allI impI)
  fix w r w' assume "io_bind m k w = (r, w')"
  then show "\<exists>es. trace w' = trace w @ es \<and> (\<forall>e\<in>set es. P e)"
  proof (cases rule: io_bind_cases)
    case (throws e)
    with assms(1) show ?thesis by (auto simp: emits_def)
  next
    case (returns x w1)
    from assms(1)[unfolded emits_def, rule_format, OF returns(1)]
    obtain es1 where 1: "trace w1 = trace w @ es1" "\<forall>e\<in>set es1. P e" by blast
    from assms(2)[of x, unfolded emits_def, rule_format, OF returns(2)]
    obtain es2 where 2: "trace w' = trace w1 @ es2" "\<forall>e\<in>set es2. P e" by blast
    show ?thesis using 1 2 by (intro exI[of _ "es1 @ es2"]) auto
  qed
qed

lemma emits_if: "(c \<Longrightarrow> emits P a) \<Longrightarrow> (\<not> c \<Longrightarrow> emits P b) \<Longrightarrow> emits P (if c then a else b)"
  by simp

lemma emits_spawn_case:
  "(\<And>m. emits P (f m)) \<Longrightarrow> (\<And>c e. emits P (g c e)) \<Longrightarrow>
   emits P (case r of SpawnError m \<Rightarrow> f m | Closed c e \<Rightarrow> g c e)"
  by (cases r) auto

lemma emits_one:
  assumes "\<And>w r w'. m w = (r, w') \<Longrightarrow> trace w' = trace w @ [ev]" and "P ev"
  shows "emits P m"
  unfolding emits_def using assms by (intro allI impI exI[of _ "[ev]"]) auto

lemma emits_existsSync: "P (Exists p) \<Longrightarrow> emits P (existsSync p)"
  by (rule emits_one[of _ "Exists p"]) (auto simp: existsSync_run record_event_def)

lemma emits_fileNonEmpty: "P (Stat p) \<Longrightarrow> emits P (fileNonEmpty p)"
  by (rule emits_one[of _ "Stat p"]) (auto simp: fileNonEmpty_run record_event_def)

lemma emits_listTxt: "P (Readdir d) \<Longrightarrow> emits P (listTxt d)"
  by (rule emits_one[of _ "Readdir d"]) (auto simp: listTxt_run record_event_def)

lemma emits_run_spawn: "P (Spawn x a) \<Longrightarrow> emits P (run_spawn env x a)"
proof (cases "args_ok x a")
  case True
  assume "P (Spawn x a)"
  then show ?thesis
    by (rule emits_one[of _ "Spawn x a", rotated])
       (use True in \<open>auto simp: run_spawn_def record_event_def split: prod.splits\<close>)
next
  case False
  then have "run_spawn env x a = io_throw (Error (refusal env x a))"
    by (auto simp: run_spawn_def io_throw_def)
  then show ?thesis by (simp add: emits_throw)
qed

lemma emits_convertToWav: "(\<And>x a. P (Spawn x a)) \<Longrightarrow> (\<And>p. P (Exists p)) \<Longrightarrow> (\<And>p. P (Stat p)) \<Longrightarrow>
  emits P (convertToWav env i out)"
  unfolding convertToWav_def
  by (intro emits_bind emits_spawn_case emits_if emits_return emits_throw emits_run_spawn
      emits_existsSync emits_fileNonEmpty)

lemma emits_job_setup: "emits (setup_event (job_locals (audioPath rq))) (job_setup env rq)"
  unfolding job_setup_def Let_def
  by (intro emits_bind emits_if emits_return emits_existsSync emits_listTxt emits_convertToWav)
     (auto simp: setup_event_def)

lemma tidy_setup_events: "tidy L tr \<Longrightarrow> \<forall>e\<in>set es. setup_event L e \<Longrightarrow> tidy L (tr @ es)"
  by (fastforce simp: tidy_def loop_event_def setup_event_def)

lemma setup_tidy:
  assumes "job_setup env rq w = (r, w1)" and "tidy (job_locals (audioPath rq)) (trace w)"
  shows "tidy (job_locals (audioPath rq)) (trace w1)"
  using emits_job_setup[of rq env, unfolded emits_def, rule_format, OF assms(1)] assms(2)
  by (auto intro: tidy_setup_events)

lemma job_setup_cases [consumes 1, case_names notfound ready]:
  assumes "job_setup env rq w = (Inr s, w1)"
  obtains (notfound) "s = NotFound" "audioPath rq = [] \<or> \<not> fs_exists (fsys w) (audioPath rq)"
  | (ready) bin common wD where
      "s = Ready bin common (fs_listTxt (fsys wD) (dir (job_locals (audioPath rq))))"
      "w1 = record_event (Readdir (dir (job_locals (audioPath rq)))) wD"
      "audioPath rq \<noteq> []" "fs_exists (fsys w) (audioPath rq)"
proof -
  let ?L = "job_locals (audioPath rq)"
  from assms obtain found wA where
    A: "(if audioPath rq = [] then io_return False else existsSync (audioPath rq)) w = (Inr found, wA)"
    and rest: "(if \<not> found then io_return NotFound
       else
         let L = job_locals (audioPath rq) in
         io_bind (if \<not> isWav L then convertToWav env (audioPath rq) (wavForWhisper L)
                  else io_return ()) (\<lambda>u.
         io_bind (if whisperBin rq = [] then io_return False
                  else existsSync (whisperBin rq)) (\<lambda>hasBin.
         io_bind (if modelPath rq = [] then io_return False
                  else existsSync (modelPath rq)) (\<lambda>hasModel.
         let bin = (if hasBin then whisperBin rq
                    else if win32 env then ''whisper-cli'' else ''whisper'');
             common = (if language rq \<noteq> [] then [''-l'', language rq] else [])
                      @ (if noTimestamps rq then [''--no-timestamps''] else [])
                      @ (if hasModel then [''-m'', modelPath rq] else [])
         in
         io_bind (listTxt (dir L)) (\<lambda>preExisting.
         io_return (Ready bin common preExisting)))))) wA = (Inr s, w1)"
    unfolding job_setup_def by (rule io_bind_returns)
  show thesis
  proof (cases found)
    case False
    with rest have "s = NotFound" by (simp add: io_return_run)
    moreover from A False have "audioPath rq = [] \<or> \<not> fs_exists (fsys w) (audioPath rq)"
      by (auto simp: io_return_run existsSync_run split: if_splits)
    ultimately show thesis by (rule notfound)
  next
    case True
    with A have f: "audioPath rq \<noteq> []" "fs_exists (fsys w) (audioPath rq)"
      by (auto simp: io_return_run existsSync_run split: if_splits)
    from rest True obtain u wB where
      rest: "io_bind (if whisperBin rq = [] then io_return False
                  else existsSync (whisperBin rq)) (\<lambda>hasBin.
         io_bind (if modelPath rq = [] then io_return False
                  else existsSync (modelPath rq)) (\<lambda>hasModel.
         let bin = (if hasBin then whisperBin rq
                    else if win32 env then ''whisper-cli'' else ''whisper'');
             common = (if language rq \<noteq> [] then [''-l'', language rq] else [])
                      @ (if noTimestamps rq then [''--no-timestamps''] else [])
                      @ (if hasModel then [''-m'', modelPath rq] else [])
         in
         io_bind (listTxt (dir ?L)) (\<lambda>preExisting.
         io_return (Ready bin common preExisting)))) wB = (Inr s, w1)"
      unfolding Let_def by (simp only: if_True if_False not_True_eq_False not_not) (erule io_bind_returns)
    then obtain hasBin wC where
      rest: "io_bind (if modelPath rq = [] then io_return False
                  else existsSync (modelPath rq)) (\<lambda>hasModel.
         let bin = (if hasBin then whisperBin rq
                    else if win32 env then ''whisper-cli'' else ''whisper'');
             common = (if language rq \<noteq> [] then [''-l'', language rq] else [])
                      @ (if noTimestamps rq then [''--no-timestamps''] else [])
                      @ (if hasModel then [''-m'', modelPath rq] else [])
         in
         io_bind (listTxt (dir ?L)) (\<lambda>preExisting.
         io_return (Ready bin common preExisting))) wC = (Inr s, w1)"
      by (rule io_bind_returns)
    then obtain hasModel wD where
      rest: "(let bin = (if hasBin then whisperBin rq
                    else if win32 env then ''whisper-cli'' else ''whisper'');
             common = (if language rq \<noteq> [] then [''-l'', language rq] else [])
                      @ (if noTimestamps rq then [''--no-timestamps''] else [])
                      @ (if hasModel then [''-m'', modelPath rq] else [])
         in
         io_bind (listTxt (dir ?L)) (\<lambda>preExisting.
         io_return (Ready bin common preExisting))) wD = (Inr s, w1)"
      by (rule io_bind_returns)
    then obtain pre' wE where l: "listTxt (dir ?L) wD = (Inr pre', wE)"
      and e: "io_return (Ready (if hasBin then whisperBin rq
                    else if win32 env then ''whisper-cli'' else ''whisper'')
              ((if language rq \<noteq> [] then [''-l'', language rq] else [])
                      @ (if noTimestamps rq then [''--no-timestamps''] else [])
                      @ (if hasModel then [''-m'', modelPath rq] else [])) pre') wE
             = (Inr s, w1)"
      unfolding Let_def by (rule io_bind_returns)
    from e l show thesis
      by (intro ready[of _ _ wD]) (auto simp: io_return_run listTxt_run f)
  qed
qed

lemma setup_notfound:
  "job_setup env rq w = (Inr NotFound, w1) \<Longrightarrow>
   audioPath rq = [] \<or> \<not> fs_exists (fsys w) (audioPath rq)"
  by (erule job_setup_cases) auto



lemma job_loop_tidy:
  assumes "job_loop env rq w = (x, w2)" and "tidy (job_locals (audioPath rq)) (trace w)"
  shows "tidy (job_locals (audioPath rq)) (trace w2)"
proof -
  let ?L = "job_locals (audioPath rq)"
  from assms(1)[unfolded job_loop_def] show ?thesis
  proof (cases rule: io_bind_cases)
    case (throws e)
    then show ?thesis using setup_tidy assms(2) by blast
  next
    case (returns s w1)
    have t: "tidy ?L (trace w1)" using setup_tidy[OF returns(1) assms(2)] .
    show ?thesis
    proof (cases s)
      case NotFound
      with returns(2) t show ?thesis by (simp add: io_return_run)
    next
      case (Ready bin common pre)
      with returns(2) have "attempts env bin ?L pre (variants ?L common) ([], []) w1 = (x, w2)"
        by (simp add: Let_def)
      then show ?thesis using t by (rule tidy_attempts)
    qed
  qed
qed

subsection \<open>The whole job\<close>

lemma safeUnlink_post:
  "lookup (fs_safeUnlink f p) p = None \<or> (\<exists>e. fs_unlink (fs_safeUnlink f p) p = Inl e)"
  by (cases "fs_unlink f p") (auto simp: fs_safeUnlink_def lookup_unlink_same)

lemma blank_or_not: "trim out = [] \<or> 0 < length (trim out)"
  by auto

lemma after_loop_cleaned:
  assumes "after_loop L (Exhausted out err) w = (Inr res, w')"
  shows "\<exists>w0. w' = cleaned L w0"
proof -
  from blank_or_not[of out] show ?thesis
  proof
    assume b: "trim out = []"
    from assms show ?thesis unfolding after_loop_blank[OF b] by (auto split: sum.splits)
  next
    assume b: "0 < length (trim out)"
    from assms show ?thesis unfolding after_loop_stdout[OF b] by (auto split: sum.splits)
  qed
qed

lemma body_cleaned:
  assumes "job_body env rq w = (Inr res, w')" and "audioPath rq \<noteq> []"
    and "fs_exists (fsys w) (audioPath rq)"
  shows "\<exists>w0. w' = cleaned (job_locals (audioPath rq)) w0"
proof -
  let ?L = "job_locals (audioPath rq)"
  from assms(1) obtain ex w2 where l: "job_loop env rq w = (Inr ex, w2)"
    and a: "after_loop ?L ex w2 = (Inr res, w')"
    unfolding job_body_def by (rule io_bind_returns)
  show ?thesis
  proof (cases ex)
    case (Return r)
    with a have w: "w' = w2" by (simp add: after_loop_Return)
    from l show ?thesis
    proof (cases rule: job_loop_cases)
      case notfound
      with setup_notfound assms(2,3) show ?thesis by blast
    next
      case (ready bin common pre w1)
      with Return w attempts_cleaned show ?thesis by blast
    qed
  next
    case (Exhausted out err)
    with a show ?thesis using after_loop_cleaned by blast
  qed
qed

lemma job_trace:
  assumes "job_transcribe env rq (start f) = (r, w')"
  obtains tr rs where "trace w' = tr @ rs" "tidy (job_locals (audioPath rq)) tr"
    "rs = []
     \<or> (\<exists>c. rs = WriteFile (desiredTxt (job_locals (audioPath rq))) c
                  # (if isWav (job_locals (audioPath rq)) \<or> (\<exists>res. r = Inr res \<and> \<not> ok res) then []
                     else [Unlink (wavForWhisper (job_locals (audioPath rq)))]))
     \<or> (\<exists>c cl. rs = WriteFile (diagnostic_path (desiredTxt (job_locals (audioPath rq)))) c # cl
               \<and> (\<exists>res. r = Inr res \<and> \<not> ok res)
               \<and> (cl = [] \<or> (\<not> isWav (job_locals (audioPath rq))
                              \<and> cl = [Unlink (wavForWhisper (job_locals (audioPath rq)))])))"
proof -
  let ?L = "job_locals (audioPath rq)"
  obtain x w2 where l: "job_loop env rq (start f) = (x, w2)" by (cases "job_loop env rq (start f)")
  have t: "tidy ?L (trace w2)"
    by (rule job_loop_tidy[OF l]) (simp add: start_def tidy_def)
  show thesis
  proof (cases x)
    case (Inl e)
    with assms l have "w' = w2" by (simp add: job_transcribe_run)
    then show thesis using t by (intro that[of "trace w2" "[]"]) auto
  next
    case (Inr ex)
    show thesis
    proof (cases ex)
      case (Return res)
      with assms l Inr have "w' = w2" by (simp add: job_transcribe_run after_loop_Return)
      then show thesis using t by (intro that[of "trace w2" "[]"]) auto
    next
      case (Exhausted out err)
      from blank_or_not[of out] show thesis
      proof
        assume b: "trim out = []"
        show thesis
          using assms l Inr Exhausted t
          by (intro that[of "trace w2" "drop (length (trace w2)) (trace w')"])
             (auto simp: job_transcribe_run after_loop_blank[OF b] trace_cleaned record_event_def
               failed_def split: sum.splits)
      next
        assume b: "0 < length (trim out)"
        show thesis
          using assms l Inr Exhausted t
          by (intro that[of "trace w2" "drop (length (trace w2)) (trace w')"])
             (auto simp: job_transcribe_run after_loop_stdout[OF b] trace_cleaned record_event_def
               failed_def succeeded_def split: sum.splits)
      qed
    qed
  qed
qed

subsection \<open>From the snapshot to the result\<close>

lemma job_loop_ready:
  "job_setup env rq w = (Inr (Ready bin common pre), w1) \<Longrightarrow>
   job_loop env rq w = attempts env bin (job_locals (audioPath rq)) pre
                         (variants (job_locals (audioPath rq)) common) ([], []) w1"
  by (simp add: job_loop_def io_bind_run Let_def)


subsection \<open>Writes of the loop, sections of the log\<close>

lemma tidy_writes:
  "tidy L tr \<Longrightarrow> WriteFile p c \<in> set tr \<Longrightarrow> p = desiredTxt L"
  by (fastforce simp: tidy_def loop_event_def)

lemma diagnostic_text_sections:
  "diagnostic_text out err =
     ''--- STDOUT ---'' @ [CHR 0x0A] @ (if out = [] then ''(empty)'' else out) @ [CHR 0x0A, CHR 0x0A]
       @ ''--- STDERR ---'' @ [CHR 0x0A] @ (if err = [] then ''(empty)'' else err) @ [CHR 0x0A]"
  by (simp add: diagnostic_text_def)

subsection \<open>The ok results, the number of attempts\<close>

lemma fs_nonempty_cleaned:
  "isWav L \<or> fs_key (wavForWhisper L) \<noteq> fs_key p \<Longrightarrow>
   fs_nonempty (fsys (cleaned L w)) p = fs_nonempty (fsys w) p"
  by (simp add: fs_nonempty_lookup lookup_cleaned)

lemma attempts_ok:
  assumes "attempts env bin L pre vs cap w = (Inr (Return r), w')"
    and "isWav L \<or> fs_key (wavForWhisper L) \<noteq> fs_key (desiredTxt L)"
    and "fs_key (desiredTxt L) = path_normalize (desiredTxt L)"
  shows "r = succeeded (desiredTxt L) None \<and> fs_nonempty (fsys w') (desiredTxt L)"
  using assms(1)
proof (induction vs arbitrary: cap w)
  case Nil
  then show ?case by (simp add: io_return_run)
next
  case (Cons v vs)
  from Cons.prems show ?case
  proof (cases rule: attempts_step)
    case (direct f1 es)
    then show ?thesis by (simp add: fs_nonempty_cleaned[OF assms(2)])
  next
    case (retry f1 es cap')
    then show ?thesis using Cons.IH by blast
  next
    case (copied f1 es n body g)
    have b: "body \<noteq> []" using copied(5,6) by (rule read_nonempty)
    have g: "fs_nonempty g (desiredTxt L)" using copied(7) b by (rule fs_nonempty_write)
    have "fs_key n = path_normalize n"
      using listTxt_entries[OF copied(2)] by (rule txt_entry_plain)
    then have k: "normalize n \<noteq> normalize (desiredTxt L) \<Longrightarrow> fs_key n \<noteq> fs_key (desiredTxt L)"
      using normalize_differs[of n "desiredTxt L"] assms(3) by simp
    have "fs_nonempty (if normalize n \<noteq> normalize (desiredTxt L) then fs_safeUnlink g n else g)
            (desiredTxt L)"
      using g k by (simp add: fs_nonempty_safeUnlink)
    then show ?thesis using copied(8,9) by (simp add: fs_nonempty_cleaned[OF assms(2)])
  qed simp_all
qed

lemma after_loop_ok:
  assumes "after_loop L ex w = (Inr res, w')" and "ok res"
    and "\<And>r. ex = Return r \<Longrightarrow> r = succeeded (desiredTxt L) None \<and> fs_nonempty (fsys w) (desiredTxt L)"
    and "isWav L \<or> fs_key (wavForWhisper L) \<noteq> fs_key (desiredTxt L)"
  shows "outputPath res = Some (desiredTxt L) \<and> fs_nonempty (fsys w') (desiredTxt L)"
proof (cases ex)
  case (Return r)
  with assms(1,3) show ?thesis by (auto simp: after_loop_Return succeeded_def)
next
  case (Exhausted out err)
  from blank_or_not[of out] show ?thesis
  proof
    assume b: "trim out = []"
    from assms(1,2) show ?thesis unfolding Exhausted after_loop_blank[OF b]
      by (auto simp: failed_def split: sum.splits)
  next
    assume b: "0 < length (trim out)"
    then have "out \<noteq> []" by (rule trim_nonblank)
    with assms(1) show ?thesis unfolding Exhausted after_loop_stdout[OF b]
      by (auto simp: succeeded_def record_event_def fs_nonempty_cleaned[OF assms(4)]
          fs_nonempty_write split: sum.splits)
  qed
qed

lemma job_loop_ok:
  assumes "job_loop env rq w = (Inr (Return r), w2)" and "ok r"
  shows "r = succeeded (desiredTxt (job_locals (audioPath rq))) None
       \<and> fs_nonempty (fsys w2) (desiredTxt (job_locals (audioPath rq)))"
  using assms(1)
proof (cases rule: job_loop_cases)
  case notfound
  with assms(2) show ?thesis by (simp add: failed_def)
next
  case (ready bin common pre w1)
  show ?thesis
    by (rule attempts_ok[OF ready(2) _ desiredTxt_plain])
       (use temp_not_output_key[of "audioPath rq"] in blast)
qed








section \<open>The scenarios, run\<close>

text \<open>
  The paths of the scenarios, computed once: the runs below rewrite with these
  equations and leave the path functions folded.
\<close>

lemma scenario_paths:
  "path_normalize ''/d'' = ''/d''"
  "component ''/d'' = ''d''"
  "path_join ''/d'' ''d'' = ''/d/d''"
  "dirname ''/d'' = ''/''"
  "fs_key ''/d'' = ''/d''"
  "as_directory ''/d'' = False"
  "has_nul ''/d'' = False"
  "path_normalize ''/d/a.mp3'' = ''/d/a.mp3''"
  "dirname ''/d/a.mp3'' = ''/d''"
  "component ''/d/a.mp3'' = ''a.mp3''"
  "path_join ''/d'' ''a.mp3'' = ''/d/a.mp3''"
  "is_txt_name ''a.mp3'' = False"
  "fs_key ''/d/a.mp3'' = ''/d/a.mp3''"
  "as_directory ''/d/a.mp3'' = False"
  "has_nul ''/d/a.mp3'' = False"
  "path_normalize ''/d/a.wav'' = ''/d/a.wav''"
  "dirname ''/d/a.wav'' = ''/d''"
  "component ''/d/a.wav'' = ''a.wav''"
  "path_join ''/d'' ''a.wav'' = ''/d/a.wav''"
  "is_txt_name ''a.wav'' = False"
  "fs_key ''/d/a.wav'' = ''/d/a.wav''"
  "as_directory ''/d/a.wav'' = False"
  "has_nul ''/d/a.wav'' = False"
  "path_normalize ''/d/a.txt'' = ''/d/a.txt''"
  "dirname ''/d/a.txt'' = ''/d''"
  "component ''/d/a.txt'' = ''a.txt''"
  "path_join ''/d'' ''a.txt'' = ''/d/a.txt''"
  "is_txt_name ''a.txt'' = True"
  "fs_key ''/d/a.txt'' = ''/d/a.txt''"
  "as_directory ''/d/a.txt'' = False"
  "has_nul ''/d/a.txt'' = False"
  "normalize ''/d/a.txt'' = ''/d/a.txt''"
  "path_normalize ''/d/a.log.txt'' = ''/d/a.log.txt''"
  "dirname ''/d/a.log.txt'' = ''/d''"
  "component ''/d/a.log.txt'' = ''a.log.txt''"
  "path_join ''/d'' ''a.log.txt'' = ''/d/a.log.txt''"
  "is_txt_name ''a.log.txt'' = True"
  "fs_key ''/d/a.log.txt'' = ''/d/a.log.txt''"
  "as_directory ''/d/a.log.txt'' = False"
  "has_nul ''/d/a.log.txt'' = False"
  "normalize ''/d/a.log.txt'' = ''/d/a.log.txt''"
  "path_normalize ''/d/a__whisper_tmp.wav'' = ''/d/a__whisper_tmp.wav''"
  "dirname ''/d/a__whisper_tmp.wav'' = ''/d''"
  "component ''/d/a__whisper_tmp.wav'' = ''a__whisper_tmp.wav''"
  "path_join ''/d'' ''a__whisper_tmp.wav'' = ''/d/a__whisper_tmp.wav''"
  "is_txt_name ''a__whisper_tmp.wav'' = False"
  "fs_key ''/d/a__whisper_tmp.wav'' = ''/d/a__whisper_tmp.wav''"
  "as_directory ''/d/a__whisper_tmp.wav'' = False"
  "has_nul ''/d/a__whisper_tmp.wav'' = False"
  "path_normalize ''/d/a__whisper_tmp.wav.txt'' = ''/d/a__whisper_tmp.wav.txt''"
  "dirname ''/d/a__whisper_tmp.wav.txt'' = ''/d''"
  "component ''/d/a__whisper_tmp.wav.txt'' = ''a__whisper_tmp.wav.txt''"
  "path_join ''/d'' ''a__whisper_tmp.wav.txt'' = ''/d/a__whisper_tmp.wav.txt''"
  "is_txt_name ''a__whisper_tmp.wav.txt'' = True"
  "fs_key ''/d/a__whisper_tmp.wav.txt'' = ''/d/a__whisper_tmp.wav.txt''"
  "as_directory ''/d/a__whisper_tmp.wav.txt'' = False"
  "has_nul ''/d/a__whisper_tmp.wav.txt'' = False"
  "normalize ''/d/a__whisper_tmp.wav.txt'' = ''/d/a__whisper_tmp.wav.txt''"
  "path_normalize ''/d/a.wav.txt'' = ''/d/a.wav.txt''"
  "dirname ''/d/a.wav.txt'' = ''/d''"
  "component ''/d/a.wav.txt'' = ''a.wav.txt''"
  "path_join ''/d'' ''a.wav.txt'' = ''/d/a.wav.txt''"
  "is_txt_name ''a.wav.txt'' = True"
  "fs_key ''/d/a.wav.txt'' = ''/d/a.wav.txt''"
  "as_directory ''/d/a.wav.txt'' = False"
  "has_nul ''/d/a.wav.txt'' = False"
  "normalize ''/d/a.wav.txt'' = ''/d/a.wav.txt''"
  "path_normalize ''/d/s.txt'' = ''/d/s.txt''"
  "dirname ''/d/s.txt'' = ''/d''"
  "component ''/d/s.txt'' = ''s.txt''"
  "path_join ''/d'' ''s.txt'' = ''/d/s.txt''"
  "is_txt_name ''s.txt'' = True"
  "fs_key ''/d/s.txt'' = ''/d/s.txt''"
  "as_directory ''/d/s.txt'' = False"
  "has_nul ''/d/s.txt'' = False"
  "normalize ''/d/s.txt'' = ''/d/s.txt''"
  "has_nul ''whisper'' = False"
  "has_nul ''ffmpeg'' = False"
  "has_nul ''-f'' = False"
  "has_nul ''-otxt'' = False"
  "has_nul ''-of'' = False"
  "has_nul ''--output-file'' = False"
  "has_nul ''-o'' = False"
  "has_nul ''-y'' = False"
  "has_nul ''-i'' = False"
  "has_nul ''-ar'' = False"
  "has_nul ''16000'' = False"
  "has_nul ''-ac'' = False"
  "has_nul ''1'' = False"
  "has_nul ''wav'' = False"
  "job_locals ''/d/a.mp3'' = \<lparr>dir = ''/d'', base = ''a'', desiredTxt = ''/d/a.txt'', isWav = False, wavForWhisper = ''/d/a__whisper_tmp.wav''\<rparr>"
  "job_locals ''/d/a.wav'' = \<lparr>dir = ''/d'', base = ''a'', desiredTxt = ''/d/a.txt'', isWav = True, wavForWhisper = ''/d/a.wav''\<rparr>"
  "diagnostic_path ''/d/a.txt'' = ''/d/a.log.txt''"
  "trim [] = []"
  "trim ''partial output text'' = ''partial output text''"
  "diagnostic_text [] [] = ''--- STDOUT ---\<newline>(empty)\<newline>\<newline>--- STDERR ---\<newline>(empty)\<newline>''"
  by code_simp+

lemma nbsp_facts:
  "trim [CHR 0xA0] = []"
  "diagnostic_text [CHR 0xA0] [] = ''--- STDOUT ---\<newline>'' @ [CHR 0xA0] @ ''\<newline>\<newline>--- STDERR ---\<newline>(empty)\<newline>''"
  by code_simp+

text \<open>
  What a run unfolds: the file system, the sequencing of computations, the helpers
  and the handler.
\<close>

lemmas run_defs =
  scenario_paths is_entry_name_def
  lookup_def probe_path_def parent_writable_def children_def fs_exists_def fs_stat_def
  fs_readdir_def fs_readFile_def fs_writeFile_def fs_unlink_def set_node_def fs_nonempty_def
  fs_listTxt_def fs_safeUnlink_def args_ok_def
  io_bind_run io_catch_run io_return_run io_throw_run existsSync_run fileNonEmpty_run listTxt_run
  newestByMtime_run safeUnlink_run cleanupTemp_run execFileSafe_def run_execFile_def
  readFileSync_def writeFileSync_def record_event_def record_events_def run_spawn_def
  convertToWav_def show_code_def
  job_transcribe_def job_body_def job_setup_def job_loop_def after_loop_def variants_def
  failed_def succeeded_def start_def Let_def
  put_file_def disk_def req_def ffmpeg_ok_def printed_def tools_def mp3_def wav_def


lemma body_heuristic:
  "job_body (tools whisper_bare) (req ''/d/a.mp3'') (start (disk [mp3])) =
   (Inr (succeeded ''/d/a.txt'' None),
    \<lparr>fsys = disk [mp3, (''/d/a.txt'', File ''test transcript'' 10 True True)],
     trace =
       [Exists ''/d/a.mp3'',
        Spawn ''ffmpeg'' [''-y'', ''-i'', ''/d/a.mp3'', ''-ar'', ''16000'', ''-ac'', ''1'', ''-f'', ''wav'', ''/d/a__whisper_tmp.wav''],
        Exists ''/d/a__whisper_tmp.wav'',
        Stat ''/d/a__whisper_tmp.wav'',
        Readdir ''/d'',
        ExecFile ''whisper'' [''-f'', ''/d/a__whisper_tmp.wav'', ''-otxt'', ''-of'', ''/d/a.txt''],
        Exists ''/d/a.txt'',
        Readdir ''/d'',
        ExecFile ''whisper'' [''-f'', ''/d/a__whisper_tmp.wav'', ''-otxt'', ''--output-file'', ''/d/a.txt''],
        Exists ''/d/a.txt'',
        Readdir ''/d'',
        ExecFile ''whisper'' [''-f'', ''/d/a__whisper_tmp.wav'', ''-otxt'', ''-o'', ''/d''],
        Exists ''/d/a.txt'',
        Readdir ''/d'',
        ExecFile ''whisper'' [''-f'', ''/d/a__whisper_tmp.wav'', ''-otxt''],
        Exists ''/d/a.txt'',
        Readdir ''/d'',
        Stat ''/d/a__whisper_tmp.wav.txt'',
        Stat ''/d/a__whisper_tmp.wav.txt'',
        ReadFile ''/d/a__whisper_tmp.wav.txt'',
        WriteFile ''/d/a.txt'' ''test transcript'',
        Unlink ''/d/a__whisper_tmp.wav.txt'',
        Unlink ''/d/a__whisper_tmp.wav'']\<rparr>)"
  by (simp add: run_defs whisper_bare_def)

lemma run_wav_bare:
  "job_transcribe (tools whisper_bare) (req ''/d/a.wav'') (start (disk [wav])) =
   (Inr (succeeded ''/d/a.txt'' None),
    \<lparr>fsys = disk [wav, (''/d/a.txt'', File ''test transcript'' 10 True True)],
     trace =
       [Exists ''/d/a.wav'',
        Readdir ''/d'',
        ExecFile ''whisper'' [''-f'', ''/d/a.wav'', ''-otxt'', ''-of'', ''/d/a.txt''],
        Exists ''/d/a.txt'',
        Readdir ''/d'',
        ExecFile ''whisper'' [''-f'', ''/d/a.wav'', ''-otxt'', ''--output-file'', ''/d/a.txt''],
        Exists ''/d/a.txt'',
        Readdir ''/d'',
        ExecFile ''whisper'' [''-f'', ''/d/a.wav'', ''-otxt'', ''-o'', ''/d''],
        Exists ''/d/a.txt'',
        Readdir ''/d'',
        ExecFile ''whisper'' [''-f'', ''/d/a.wav'', ''-otxt''],
        Exists ''/d/a.txt'',
        Readdir ''/d'',
        Stat ''/d/a.wav.txt'',
        Stat ''/d/a.wav.txt'',
        ReadFile ''/d/a.wav.txt'',
        WriteFile ''/d/a.txt'' ''test transcript'',
        Unlink ''/d/a.wav.txt'']\<rparr>)"
  by (simp add: run_defs whisper_bare_def)

lemma loop_locked_txt:
  "job_loop (tools whisper_print) (req ''/d/a.mp3'') (start (disk [mp3, locked_txt])) =
   (Inr (Exhausted ''partial output text'' []),
    \<lparr>fsys = disk [mp3, locked_txt, (''/d/a__whisper_tmp.wav'', File ''RIFF'' 10 True True)],
     trace =
       [Exists ''/d/a.mp3'',
        Spawn ''ffmpeg'' [''-y'', ''-i'', ''/d/a.mp3'', ''-ar'', ''16000'', ''-ac'', ''1'', ''-f'', ''wav'', ''/d/a__whisper_tmp.wav''],
        Exists ''/d/a__whisper_tmp.wav'',
        Stat ''/d/a__whisper_tmp.wav'',
        Readdir ''/d'',
        ExecFile ''whisper'' [''-f'', ''/d/a__whisper_tmp.wav'', ''-otxt'', ''-of'', ''/d/a.txt''],
        Exists ''/d/a.txt'',
        Stat ''/d/a.txt'',
        Readdir ''/d'',
        ExecFile ''whisper'' [''-f'', ''/d/a__whisper_tmp.wav'', ''-otxt'', ''--output-file'', ''/d/a.txt''],
        Exists ''/d/a.txt'',
        Stat ''/d/a.txt'',
        Readdir ''/d'',
        ExecFile ''whisper'' [''-f'', ''/d/a__whisper_tmp.wav'', ''-otxt'', ''-o'', ''/d''],
        Exists ''/d/a.txt'',
        Stat ''/d/a.txt'',
        Readdir ''/d'',
        ExecFile ''whisper'' [''-f'', ''/d/a__whisper_tmp.wav'', ''-otxt''],
        Exists ''/d/a.txt'',
        Stat ''/d/a.txt'',
        Readdir ''/d'']\<rparr>)"
  by (simp add: run_defs whisper_print_def locked_txt_def)

lemma loop_stdout:
  "job_loop (tools whisper_print) (req ''/d/a.mp3'') (start (disk [mp3])) =
   (Inr (Exhausted ''partial output text'' []),
    \<lparr>fsys = disk [mp3, (''/d/a__whisper_tmp.wav'', File ''RIFF'' 10 True True)],
     trace =
       [Exists ''/d/a.mp3'',
        Spawn ''ffmpeg'' [''-y'', ''-i'', ''/d/a.mp3'', ''-ar'', ''16000'', ''-ac'', ''1'', ''-f'', ''wav'', ''/d/a__whisper_tmp.wav''],
        Exists ''/d/a__whisper_tmp.wav'',
        Stat ''/d/a__whisper_tmp.wav'',
        Readdir ''/d'',
        ExecFile ''whisper'' [''-f'', ''/d/a__whisper_tmp.wav'', ''-otxt'', ''-of'', ''/d/a.txt''],
        Exists ''/d/a.txt'',
        Readdir ''/d'',
        ExecFile ''whisper'' [''-f'', ''/d/a__whisper_tmp.wav'', ''-otxt'', ''--output-file'', ''/d/a.txt''],
        Exists ''/d/a.txt'',
        Readdir ''/d'',
        ExecFile ''whisper'' [''-f'', ''/d/a__whisper_tmp.wav'', ''-otxt'', ''-o'', ''/d''],
        Exists ''/d/a.txt'',
        Readdir ''/d'',
        ExecFile ''whisper'' [''-f'', ''/d/a__whisper_tmp.wav'', ''-otxt''],
        Exists ''/d/a.txt'',
        Readdir ''/d'']\<rparr>)"
  by (simp add: run_defs whisper_print_def)

lemma loop_silent:
  "job_loop (tools whisper_silent) (req ''/d/a.mp3'') (start (disk [mp3])) =
   (Inr (Exhausted [] []),
    \<lparr>fsys = disk [mp3, (''/d/a__whisper_tmp.wav'', File ''RIFF'' 10 True True)],
     trace =
       [Exists ''/d/a.mp3'',
        Spawn ''ffmpeg'' [''-y'', ''-i'', ''/d/a.mp3'', ''-ar'', ''16000'', ''-ac'', ''1'', ''-f'', ''wav'', ''/d/a__whisper_tmp.wav''],
        Exists ''/d/a__whisper_tmp.wav'',
        Stat ''/d/a__whisper_tmp.wav'',
        Readdir ''/d'',
        ExecFile ''whisper'' [''-f'', ''/d/a__whisper_tmp.wav'', ''-otxt'', ''-of'', ''/d/a.txt''],
        Exists ''/d/a.txt'',
        Readdir ''/d'',
        ExecFile ''whisper'' [''-f'', ''/d/a__whisper_tmp.wav'', ''-otxt'', ''--output-file'', ''/d/a.txt''],
        Exists ''/d/a.txt'',
        Readdir ''/d'',
        ExecFile ''whisper'' [''-f'', ''/d/a__whisper_tmp.wav'', ''-otxt'', ''-o'', ''/d''],
        Exists ''/d/a.txt'',
        Readdir ''/d'',
        ExecFile ''whisper'' [''-f'', ''/d/a__whisper_tmp.wav'', ''-otxt''],
        Exists ''/d/a.txt'',
        Readdir ''/d'']\<rparr>)"
  by (simp add: run_defs whisper_silent_def)

lemma loop_locked_log:
  "job_loop (tools whisper_silent) (req ''/d/a.mp3'') (start (disk [mp3, locked_log])) =
   (Inr (Exhausted [] []),
    \<lparr>fsys = disk [mp3, locked_log, (''/d/a__whisper_tmp.wav'', File ''RIFF'' 10 True True)],
     trace =
       [Exists ''/d/a.mp3'',
        Spawn ''ffmpeg'' [''-y'', ''-i'', ''/d/a.mp3'', ''-ar'', ''16000'', ''-ac'', ''1'', ''-f'', ''wav'', ''/d/a__whisper_tmp.wav''],
        Exists ''/d/a__whisper_tmp.wav'',
        Stat ''/d/a__whisper_tmp.wav'',
        Readdir ''/d'',
        ExecFile ''whisper'' [''-f'', ''/d/a__whisper_tmp.wav'', ''-otxt'', ''-of'', ''/d/a.txt''],
        Exists ''/d/a.txt'',
        Readdir ''/d'',
        ExecFile ''whisper'' [''-f'', ''/d/a__whisper_tmp.wav'', ''-otxt'', ''--output-file'', ''/d/a.txt''],
        Exists ''/d/a.txt'',
        Readdir ''/d'',
        ExecFile ''whisper'' [''-f'', ''/d/a__whisper_tmp.wav'', ''-otxt'', ''-o'', ''/d''],
        Exists ''/d/a.txt'',
        Readdir ''/d'',
        ExecFile ''whisper'' [''-f'', ''/d/a__whisper_tmp.wav'', ''-otxt''],
        Exists ''/d/a.txt'',
        Readdir ''/d'']\<rparr>)"
  by (simp add: run_defs whisper_silent_def locked_log_def)

lemma run_truncate:
  "job_transcribe (tools whisper_truncate) (req ''/d/a.wav'') (start (disk [wav, done_txt])) =
   (Inr (failed ''Transcription finished but no .txt file was found. Saved logs to /d/a.log.txt''),
    \<lparr>fsys = disk [wav, (''/d/a.txt'', File [] 10 True True), (''/d/a.log.txt'', File ''--- STDOUT ---\<newline>(empty)\<newline>\<newline>--- STDERR ---\<newline>(empty)\<newline>'' 10 True True)],
     trace =
       [Exists ''/d/a.wav'',
        Readdir ''/d'',
        ExecFile ''whisper'' [''-f'', ''/d/a.wav'', ''-otxt'', ''-of'', ''/d/a.txt''],
        Exists ''/d/a.txt'',
        Stat ''/d/a.txt'',
        Readdir ''/d'',
        ExecFile ''whisper'' [''-f'', ''/d/a.wav'', ''-otxt'', ''--output-file'', ''/d/a.txt''],
        Exists ''/d/a.txt'',
        Stat ''/d/a.txt'',
        Readdir ''/d'',
        ExecFile ''whisper'' [''-f'', ''/d/a.wav'', ''-otxt'', ''-o'', ''/d''],
        Exists ''/d/a.txt'',
        Stat ''/d/a.txt'',
        Readdir ''/d'',
        ExecFile ''whisper'' [''-f'', ''/d/a.wav'', ''-otxt''],
        Exists ''/d/a.txt'',
        Stat ''/d/a.txt'',
        Readdir ''/d'',
        WriteFile ''/d/a.log.txt''
         ''--- STDOUT ---\<newline>(empty)\<newline>\<newline>--- STDERR ---\<newline>(empty)\<newline>'']\<rparr>)"
  by (simp add: run_defs whisper_truncate_def done_txt_def)

lemma setup_done:
  "job_setup (tools whisper_silent) (req ''/d/a.wav'') (start (disk [wav, done_txt])) =
   (Inr (Ready ''whisper'' [] [''/d/a.txt'']),
    \<lparr>fsys = disk [wav, done_txt],
     trace =
       [Exists ''/d/a.wav'',
        Readdir ''/d'']\<rparr>)"
  by (simp add: run_defs whisper_silent_def done_txt_def)


lemma run_stray:
  "job_transcribe (tools whisper_stray) (req ''/d/a.wav'') (start (disk [wav])) =
   (Inr (succeeded ''/d/a.txt'' None),
    \<lparr>fsys = disk [wav, (''/d/a.txt'', File ''late'' 10 True True)],
     trace =
       [Exists ''/d/a.wav'',
        Readdir ''/d'',
        ExecFile ''whisper'' [''-f'', ''/d/a.wav'', ''-otxt'', ''-of'', ''/d/a.txt''],
        Exists ''/d/a.txt'',
        Readdir ''/d'',
        Stat ''/d/s.txt'',
        Stat ''/d/s.txt'',
        ExecFile ''whisper'' [''-f'', ''/d/a.wav'', ''-otxt'', ''--output-file'', ''/d/a.txt''],
        Exists ''/d/a.txt'',
        Readdir ''/d'',
        Stat ''/d/s.txt'',
        Stat ''/d/s.txt'',
        ReadFile ''/d/s.txt'',
        WriteFile ''/d/a.txt'' ''late'',
        Unlink ''/d/s.txt'']\<rparr>)"
  by (simp add: run_defs whisper_stray_def)

lemma run_frozen:
  "job_transcribe (tools whisper_of) (req ''/d/a.mp3'') (start (frozen [mp3, stale_tmp, empty_txt])) =
   (Inr (succeeded ''/d/a.txt'' None),
    \<lparr>fsys = frozen [mp3, (''/d/a__whisper_tmp.wav'', File ''RIFF'' 10 True True), (''/d/a.txt'', File ''hello world'' 10 True True)],
     trace =
       [Exists ''/d/a.mp3'',
        Spawn ''ffmpeg'' [''-y'', ''-i'', ''/d/a.mp3'', ''-ar'', ''16000'', ''-ac'', ''1'', ''-f'', ''wav'', ''/d/a__whisper_tmp.wav''],
        Exists ''/d/a__whisper_tmp.wav'',
        Stat ''/d/a__whisper_tmp.wav'',
        Readdir ''/d'',
        ExecFile ''whisper'' [''-f'', ''/d/a__whisper_tmp.wav'', ''-otxt'', ''-of'', ''/d/a.txt''],
        Exists ''/d/a.txt'',
        Stat ''/d/a.txt'',
        Unlink ''/d/a__whisper_tmp.wav'']\<rparr>)"
  by (simp add: run_defs whisper_of_def frozen_def stale_tmp_def empty_txt_def)


lemma run_dir_txt:
  "job_transcribe (tools whisper_silent) (req ''/d/a.wav'') (start (disk [wav, dir_txt])) =
   (Inr (succeeded ''/d/a.txt'' None),
    \<lparr>fsys = disk [wav, dir_txt],
     trace =
       [Exists ''/d/a.wav'',
        Readdir ''/d'',
        ExecFile ''whisper'' [''-f'', ''/d/a.wav'', ''-otxt'', ''-of'', ''/d/a.txt''],
        Exists ''/d/a.txt'',
        Stat ''/d/a.txt'']\<rparr>)"
  by (simp add: run_defs whisper_silent_def dir_txt_def)


lemma run_nul_done:
  "job_transcribe (tools whisper_silent) req_nul (start (disk [wav, done_txt])) =
   (Inr (failed null_bytes),
    \<lparr>fsys = disk [wav, done_txt],
     trace =
       [Exists ''/d/a.wav'',
        Readdir ''/d'']\<rparr>)"
  by (simp add: run_defs whisper_silent_def req_nul_def has_nul_def null_bytes_def done_txt_def)

lemma run_nbsp:
  "job_transcribe (tools whisper_nbsp) (req ''/d/a.wav'') (start (disk [wav])) =
   (Inr (failed ''Transcription finished but no .txt file was found. Saved logs to /d/a.log.txt''),
    \<lparr>fsys = disk [wav, (''/d/a.log.txt'', File (''--- STDOUT ---\<newline>'' @ [CHR 0xA0] @ ''\<newline>\<newline>--- STDERR ---\<newline>(empty)\<newline>'') 10 True True)],
     trace =
       [Exists ''/d/a.wav'',
        Readdir ''/d'',
        ExecFile ''whisper'' [''-f'', ''/d/a.wav'', ''-otxt'', ''-of'', ''/d/a.txt''],
        Exists ''/d/a.txt'',
        Readdir ''/d'',
        ExecFile ''whisper'' [''-f'', ''/d/a.wav'', ''-otxt'', ''--output-file'', ''/d/a.txt''],
        Exists ''/d/a.txt'',
        Readdir ''/d'',
        ExecFile ''whisper'' [''-f'', ''/d/a.wav'', ''-otxt'', ''-o'', ''/d''],
        Exists ''/d/a.txt'',
        Readdir ''/d'',
        ExecFile ''whisper'' [''-f'', ''/d/a.wav'', ''-otxt''],
        Exists ''/d/a.txt'',
        Readdir ''/d'',
        WriteFile ''/d/a.log.txt''
         (''--- STDOUT ---\<newline>'' @ [CHR 0xA0] @ ''\<newline>\<newline>--- STDERR ---\<newline>(empty)\<newline>'')]\<rparr>)"
  by (simp add: run_defs whisper_nbsp_def nbsp_facts)

text \<open>
  What it takes to look into the disk that a run has left, and to run the code after
  the loop.
\<close>

lemmas look_defs =
  scenario_paths lookup_def probe_path_def fs_exists_def fs_nonempty_def fs_stat_def fs_listTxt_def
  fs_readdir_def children_def is_entry_name_def disk_def mp3_def wav_def start_def succeeded_def
  failed_def

lemmas tail_defs =
  look_defs req_def after_loop_def io_bind_run io_return_run io_throw_run writeFileSync_def
  fs_writeFile_def parent_writable_def set_node_def record_event_def cleanupTemp_run
  safeUnlink_run fs_safeUnlink_def fs_unlink_def

section \<open>C1: the temporary waveform\<close>

text \<open>
  C1, as the code has it. Take a job whose audio path is not empty and exists. If the
  input is not a waveform and the handler returns from its body, that is through a
  direct match, a heuristic match, the stdout fallback or the failure that follows the
  diagnostic log, then the last call of the handler is the unlink of the temporary
  waveform \<open>wavForWhisper\<close>, and in the world it leaves the temporary waveform is
  absent or the file system refuses to unlink it (\<^verbatim>\<open>safeUnlink\<close> drops the error). If
  the input is a waveform, then whatever the handler returns, no unlink and no write
  of the handler goes to the input file, under whatever spelling of its path: the
  paths differ when normalised and they name different entries of the file system.
  The claim has the file deleted on every
  outcome; the third theorem below is a success with the file still there.
\<close>

theorem temp_cleanup:
  "(job_body env rq (start f) = (Inr res, w') \<and> audioPath rq \<noteq> [] \<and> fs_exists f (audioPath rq)
      \<and> \<not> isWav (job_locals (audioPath rq))
    \<longrightarrow> job_transcribe env rq (start f) = (Inr res, w')
        \<and> trace w' \<noteq> []
        \<and> last (trace w') = Unlink (wavForWhisper (job_locals (audioPath rq)))
        \<and> (lookup (fsys w') (wavForWhisper (job_locals (audioPath rq))) = None
           \<or> (\<exists>e. fs_unlink (fsys w') (wavForWhisper (job_locals (audioPath rq))) = Inl e)))
   \<and> (job_transcribe env rq (start f) = (r, w'') \<and> isWav (job_locals (audioPath rq))
    \<longrightarrow> (\<forall>p c. Unlink p \<in> set (trace w'') \<or> WriteFile p c \<in> set (trace w'')
              \<longrightarrow> path_normalize p \<noteq> path_normalize (audioPath rq)
                  \<and> fs_key p \<noteq> fs_key (audioPath rq)))"
proof (intro conjI impI)
  let ?L = "job_locals (audioPath rq)"
  assume a: "job_body env rq (start f) = (Inr res, w') \<and> audioPath rq \<noteq> [] \<and> fs_exists f (audioPath rq)
      \<and> \<not> isWav ?L"
  then have b: "job_body env rq (start f) = (Inr res, w')" by simp
  show "job_transcribe env rq (start f) = (Inr res, w')"
    using b by (simp add: job_transcribe_def io_catch_run)
  from a have "\<exists>w0. w' = cleaned ?L w0"
    by (intro body_cleaned[of env rq "start f" res w']) (auto simp: start_def)
  then obtain w0 where w: "w' = cleaned ?L w0" by blast
  show "trace w' \<noteq> []" using a by (simp add: w trace_cleaned)
  show "last (trace w') = Unlink (wavForWhisper ?L)" using a by (simp add: w trace_cleaned)
  show "lookup (fsys w') (wavForWhisper ?L) = None \<or> (\<exists>e. fs_unlink (fsys w') (wavForWhisper ?L) = Inl e)"
    using a safeUnlink_post[of "fsys w0" "wavForWhisper ?L"]
    by (simp add: w cleaned_def record_event_def)
next
  let ?L = "job_locals (audioPath rq)"
  assume a: "job_transcribe env rq (start f) = (r, w'') \<and> isWav ?L"
  then have j: "job_transcribe env rq (start f) = (r, w'')" and wv: "isWav ?L" by auto
  from j obtain tr rs where t: "trace w'' = tr @ rs" "tidy ?L tr"
    and rs: "rs = []
     \<or> (\<exists>c. rs = WriteFile (desiredTxt ?L) c
                  # (if isWav ?L \<or> (\<exists>res. r = Inr res \<and> \<not> ok res) then []
                     else [Unlink (wavForWhisper ?L)]))
     \<or> (\<exists>c cl. rs = WriteFile (diagnostic_path (desiredTxt ?L)) c # cl
               \<and> (\<exists>res. r = Inr res \<and> \<not> ok res)
               \<and> (cl = [] \<or> (\<not> isWav ?L \<and> cl = [Unlink (wavForWhisper ?L)])))"
    by (rule job_trace)
  have k: "\<not> is_txt_name (path_normalize (audioPath rq))" using wv by (rule wav_input_key)
  have u: "txt_entry (dir ?L) p" if "Unlink p \<in> set (trace w'')" for p
    using that t rs wv by (fastforce simp: tidy_def loop_event_def)
  have wr: "p = desiredTxt ?L \<or> p = diagnostic_path (desiredTxt ?L)"
    if "WriteFile p c \<in> set (trace w'')" for p c
    using that t rs wv by (fastforce simp: tidy_def loop_event_def)
  have kk: "\<not> is_txt_name (fs_key (audioPath rq))" using wv by (rule wav_input_fs_key)
  have n1: "\<forall>p c. Unlink p \<in> set (trace w'') \<or> WriteFile p c \<in> set (trace w'')
              \<longrightarrow> path_normalize p \<noteq> path_normalize (audioPath rq)"
    using u wr k txt_entry_key desiredTxt_key[of "audioPath rq"] diagnostic_key[of "audioPath rq"]
    by metis
  have pk: "is_txt_name (fs_key p)" if "Unlink p \<in> set (trace w'') \<or> WriteFile p c \<in> set (trace w'')"
    for p c
  proof -
    from that u wr consider "txt_entry (dir ?L) p" | "p = desiredTxt ?L"
      | "p = diagnostic_path (desiredTxt ?L)" by blast
    then show ?thesis
    proof cases
      case 1
      then show ?thesis using txt_entry_key txt_entry_plain by metis
    next
      case 2
      then show ?thesis using desiredTxt_key[of "audioPath rq"] by (simp add: desiredTxt_plain)
    next
      case 3
      then show ?thesis using diagnostic_key[of "audioPath rq"] by (simp add: diagnostic_plain)
    qed
  qed
  have n2: "\<forall>p c. Unlink p \<in> set (trace w'') \<or> WriteFile p c \<in> set (trace w'')
              \<longrightarrow> fs_key p \<noteq> fs_key (audioPath rq)"
    using pk kk by metis
  show "\<forall>p c. Unlink p \<in> set (trace w'') \<or> WriteFile p c \<in> set (trace w'')
              \<longrightarrow> path_normalize p \<noteq> path_normalize (audioPath rq)
                  \<and> fs_key p \<noteq> fs_key (audioPath rq)"
    using n1 n2 by blast
qed

text \<open>
  A conversion that ends in a heuristic match, and a waveform input whose transcript
  \<open>/d/a.wav.txt\<close> the handler copies and unlinks.
\<close>

theorem temp_cleanup_witness:
  "fst (job_body (tools whisper_bare) (req ''/d/a.mp3'') (start (disk [mp3])))
     = Inr (succeeded ''/d/a.txt'' None)
   \<and> fs_exists (disk [mp3]) ''/d/a.mp3''
   \<and> \<not> isWav (job_locals ''/d/a.mp3'')
   \<and> last (trace (snd (job_body (tools whisper_bare) (req ''/d/a.mp3'') (start (disk [mp3])))))
       = Unlink ''/d/a__whisper_tmp.wav''
   \<and> lookup (fsys (snd (job_body (tools whisper_bare) (req ''/d/a.mp3'') (start (disk [mp3])))))
         ''/d/a__whisper_tmp.wav'' = None
   \<and> isWav (job_locals ''/d/a.wav'')
   \<and> Unlink ''/d/a.wav.txt''
       \<in> set (trace (snd (job_transcribe (tools whisper_bare) (req ''/d/a.wav'') (start (disk [wav])))))
   \<and> path_normalize ''/d/a.wav.txt'' \<noteq> path_normalize ''/d/a.wav''
   \<and> fs_key ''/d/a.wav.txt'' \<noteq> fs_key ''/d/a.wav''"
  using
    temp_cleanup[where env = "tools whisper_bare" and rq = "req ''/d/a.mp3''" and f = "disk [mp3]"
      and res = "succeeded ''/d/a.txt'' None"
      and w' = "snd (job_body (tools whisper_bare) (req ''/d/a.mp3'') (start (disk [mp3])))"]
    temp_cleanup[where env = "tools whisper_bare" and rq = "req ''/d/a.wav''" and f = "disk [wav]"
      and r = "fst (job_transcribe (tools whisper_bare) (req ''/d/a.wav'') (start (disk [wav])))"
      and w'' = "snd (job_transcribe (tools whisper_bare) (req ''/d/a.wav'') (start (disk [wav])))"]
  unfolding body_heuristic run_wav_bare
  by (simp add: look_defs req_def)

text \<open>
  In a directory that gives up no entry, over a temporary waveform left by an earlier
  job: the conversion succeeds, the output is a direct match, the handler tries the
  unlink last, and the temporary waveform is still on the disk when the job returns
  \<open>ok\<close>.
\<close>

theorem temp_left_behind:
  "\<not> isWav (job_locals ''/d/a.mp3'')
   \<and> fst (job_transcribe (tools whisper_of) (req ''/d/a.mp3'') (start (frozen [mp3, stale_tmp, empty_txt])))
       = Inr (succeeded ''/d/a.txt'' None)
   \<and> last (trace (snd (job_transcribe (tools whisper_of) (req ''/d/a.mp3'') (start (frozen [mp3, stale_tmp, empty_txt])))))
       = Unlink ''/d/a__whisper_tmp.wav''
   \<and> lookup (fsys (snd (job_transcribe (tools whisper_of) (req ''/d/a.mp3'') (start (frozen [mp3, stale_tmp, empty_txt])))))
         ''/d/a__whisper_tmp.wav''
       = Some (File ''RIFF'' 10 True True)"
  unfolding run_frozen by (simp add: look_defs frozen_def)

text \<open>
  The statement above speaks of the returns from the body. The \<^verbatim>\<open>catch\<close> of lines 139
  to 141 returns without \<^verbatim>\<open>cleanupTemp\<close>: when the write of the stdout fallback is
  refused, the job fails, its last call is that write, and the temporary waveform
  stays.
\<close>

lemma catch_exit_keeps_temp:
  "fst (job_transcribe (tools whisper_print) (req ''/d/a.mp3'') (start (disk [mp3, locked_txt])))
     = Inr (failed (''EACCES: permission denied, open '' @ quoted ''/d/a.txt''))
   \<and> last (trace (snd (job_transcribe (tools whisper_print) (req ''/d/a.mp3'') (start (disk [mp3, locked_txt])))))
       = WriteFile ''/d/a.txt'' ''partial output text''
   \<and> lookup (fsys (snd (job_transcribe (tools whisper_print) (req ''/d/a.mp3'') (start (disk [mp3, locked_txt])))))
         ''/d/a__whisper_tmp.wav''
       = Some (File ''RIFF'' 10 True True)"
  unfolding job_transcribe_run loop_locked_txt by (simp add: tail_defs locked_txt_def)

section \<open>C2: the diagnostic log\<close>

text \<open>
  C2, as the code has it. The handler calls the write of the diagnostic log if and
  only if the loop has passed every variant without a direct or heuristic match and the
  last captured stdout is blank when trimmed (nothing but white space of
  \<^verbatim>\<open>String.prototype.trim\<close>, the no-break space included). When the file system
  accepts that write,
  the log file holds the section \<open>--- STDOUT ---\<close> with the last stdout and the section
  \<open>--- STDERR ---\<close> with the last stderr, \<open>(empty)\<close> standing for an empty capture, and
  the job fails with the message
  \<open>Transcription finished but no .txt file was found. Saved logs to\<close> followed by the
  path of the log. The claim has the log written whenever the condition holds;
  the third theorem below is a job where the condition holds and the file system
  refuses the write.
\<close>

theorem diagnostic_log:
  assumes "job_loop env rq (start f) = (x, w2)" and "job_transcribe env rq (start f) = (r, w')"
  shows "((\<exists>c. WriteFile (diagnostic_path (desiredTxt (job_locals (audioPath rq)))) c \<in> set (trace w'))
            \<longleftrightarrow> (\<exists>out err. x = Inr (Exhausted out err) \<and> trim out = []))
       \<and> (\<forall>out err g. x = Inr (Exhausted out err) \<and> trim out = []
              \<and> fs_writeFile (fsys w2) (diagnostic_path (desiredTxt (job_locals (audioPath rq))))
                    (diagnostic_text out err) = Inr g
            \<longrightarrow> r = Inr (failed (''Transcription finished but no .txt file was found. Saved logs to ''
                                 @ diagnostic_path (desiredTxt (job_locals (audioPath rq)))))
              \<and> (\<exists>t rd wr. lookup (fsys w') (diagnostic_path (desiredTxt (job_locals (audioPath rq))))
                             = Some (File (diagnostic_text out err) t rd wr))
              \<and> diagnostic_text out err =
                  ''--- STDOUT ---'' @ [CHR 0x0A] @ (if out = [] then ''(empty)'' else out)
                    @ [CHR 0x0A, CHR 0x0A]
                    @ ''--- STDERR ---'' @ [CHR 0x0A] @ (if err = [] then ''(empty)'' else err)
                    @ [CHR 0x0A])"
proof -
  let ?L = "job_locals (audioPath rq)"
  let ?d = "diagnostic_path (desiredTxt ?L)"
  have t: "tidy ?L (trace w2)"
    by (rule job_loop_tidy[OF assms(1)]) (simp add: start_def tidy_def)
  have nd: "\<And>c. WriteFile ?d c \<notin> set (trace w2)"
    using tidy_writes[OF t] diagnostic_differs[of "audioPath rq"] by blast
  have run: "(case x of
                Inl e \<Rightarrow> (Inr (failed (if message e = [] then ''Error'' else message e)), w2)
              | Inr ex \<Rightarrow>
                  (case after_loop ?L ex w2 of
                     (Inl e, w') \<Rightarrow> (Inr (failed (if message e = [] then ''Error'' else message e)), w')
                   | (Inr res, w') \<Rightarrow> (Inr res, w'))) = (r, w')"
    using assms(2) unfolding job_transcribe_run assms(1) by simp
  have iff: "(\<exists>c. WriteFile ?d c \<in> set (trace w'))
               \<longleftrightarrow> (\<exists>out err. x = Inr (Exhausted out err) \<and> trim out = [])"
  proof (cases x)
    case (Inl e)
    with run nd show ?thesis by auto
  next
    case (Inr ex)
    show ?thesis
    proof (cases ex)
      case (Return res)
      with run Inr nd show ?thesis by (auto simp: after_loop_Return)
    next
      case (Exhausted out err)
      from blank_or_not[of out] show ?thesis
      proof
        assume b: "trim out = []"
        have "WriteFile ?d (diagnostic_text out err) \<in> set (trace w')"
          using run unfolding Inr Exhausted
          by (auto simp: after_loop_blank[OF b] trace_cleaned record_event_def split: sum.splits)
        then show ?thesis using Inr Exhausted b by blast
      next
        assume b: "0 < length (trim out)"
        have "\<And>c. WriteFile ?d c \<notin> set (trace w')"
          using run nd diagnostic_differs[of "audioPath rq"] unfolding Inr Exhausted
          by (auto simp: after_loop_stdout[OF b] trace_cleaned record_event_def
                split: sum.splits if_splits)
        then show ?thesis using Inr Exhausted b by auto
      qed
    qed
  qed
  have written: "r = Inr (failed (''Transcription finished but no .txt file was found. Saved logs to '' @ ?d))
              \<and> (\<exists>t rd wr. lookup (fsys w') ?d = Some (File (diagnostic_text out err) t rd wr))"
    if x: "x = Inr (Exhausted out err)" and b: "trim out = []"
      and g: "fs_writeFile (fsys w2) ?d (diagnostic_text out err) = Inr g" for out err g
  proof -
    have d: "isWav ?L \<or> fs_key (wavForWhisper ?L) \<noteq> fs_key ?d"
      using temp_not_diagnostic_key[of "audioPath rq"] by blast
    from lookup_write_same[OF g] obtain t rd wr where
      l: "lookup g ?d = Some (File (diagnostic_text out err) t rd wr)" by blast
    show ?thesis
      using run l d unfolding x
      by (auto simp: after_loop_blank[OF b] g lookup_cleaned record_event_def)
  qed
  show ?thesis using iff written diagnostic_text_sections by blast
qed

text \<open>
  A transcriber that writes nothing and prints nothing: the log is written with both
  placeholders.
\<close>

theorem diagnostic_log_witness:
  "job_loop (tools whisper_silent) (req ''/d/a.mp3'') (start (disk [mp3]))
     = (Inr (Exhausted [] []),
        \<lparr>fsys = disk [mp3, (''/d/a__whisper_tmp.wav'', File ''RIFF'' 10 True True)],
         trace =
           [Exists ''/d/a.mp3'',
            Spawn ''ffmpeg'' [''-y'', ''-i'', ''/d/a.mp3'', ''-ar'', ''16000'', ''-ac'', ''1'', ''-f'', ''wav'', ''/d/a__whisper_tmp.wav''],
            Exists ''/d/a__whisper_tmp.wav'',
            Stat ''/d/a__whisper_tmp.wav'',
            Readdir ''/d'',
            ExecFile ''whisper'' [''-f'', ''/d/a__whisper_tmp.wav'', ''-otxt'', ''-of'', ''/d/a.txt''],
            Exists ''/d/a.txt'',
            Readdir ''/d'',
            ExecFile ''whisper'' [''-f'', ''/d/a__whisper_tmp.wav'', ''-otxt'', ''--output-file'', ''/d/a.txt''],
            Exists ''/d/a.txt'',
            Readdir ''/d'',
            ExecFile ''whisper'' [''-f'', ''/d/a__whisper_tmp.wav'', ''-otxt'', ''-o'', ''/d''],
            Exists ''/d/a.txt'',
            Readdir ''/d'',
            ExecFile ''whisper'' [''-f'', ''/d/a__whisper_tmp.wav'', ''-otxt''],
            Exists ''/d/a.txt'',
            Readdir ''/d'']\<rparr>)
   \<and> trim [] = []
   \<and> fst (job_transcribe (tools whisper_silent) (req ''/d/a.mp3'') (start (disk [mp3])))
       = Inr (failed ''Transcription finished but no .txt file was found. Saved logs to /d/a.log.txt'')
   \<and> WriteFile ''/d/a.log.txt'' ''--- STDOUT ---\<newline>(empty)\<newline>\<newline>--- STDERR ---\<newline>(empty)\<newline>''
       \<in> set (trace (snd (job_transcribe (tools whisper_silent) (req ''/d/a.mp3'') (start (disk [mp3])))))
   \<and> map_option content
         (lookup (fsys (snd (job_transcribe (tools whisper_silent) (req ''/d/a.mp3'') (start (disk [mp3]))))) ''/d/a.log.txt'')
       = Some ''--- STDOUT ---\<newline>(empty)\<newline>\<newline>--- STDERR ---\<newline>(empty)\<newline>''"
proof -
  have run: "job_transcribe (tools whisper_silent) (req ''/d/a.mp3'') (start (disk [mp3]))
     = (Inr (failed ''Transcription finished but no .txt file was found. Saved logs to /d/a.log.txt''),
        \<lparr>fsys = disk [mp3, (''/d/a.log.txt'', File ''--- STDOUT ---\<newline>(empty)\<newline>\<newline>--- STDERR ---\<newline>(empty)\<newline>'' 10 True True)],
         trace =
           [Exists ''/d/a.mp3'',
            Spawn ''ffmpeg'' [''-y'', ''-i'', ''/d/a.mp3'', ''-ar'', ''16000'', ''-ac'', ''1'', ''-f'', ''wav'', ''/d/a__whisper_tmp.wav''],
            Exists ''/d/a__whisper_tmp.wav'',
            Stat ''/d/a__whisper_tmp.wav'',
            Readdir ''/d'',
            ExecFile ''whisper'' [''-f'', ''/d/a__whisper_tmp.wav'', ''-otxt'', ''-of'', ''/d/a.txt''],
            Exists ''/d/a.txt'',
            Readdir ''/d'',
            ExecFile ''whisper'' [''-f'', ''/d/a__whisper_tmp.wav'', ''-otxt'', ''--output-file'', ''/d/a.txt''],
            Exists ''/d/a.txt'',
            Readdir ''/d'',
            ExecFile ''whisper'' [''-f'', ''/d/a__whisper_tmp.wav'', ''-otxt'', ''-o'', ''/d''],
            Exists ''/d/a.txt'',
            Readdir ''/d'',
            ExecFile ''whisper'' [''-f'', ''/d/a__whisper_tmp.wav'', ''-otxt''],
            Exists ''/d/a.txt'',
            Readdir ''/d'',
            WriteFile ''/d/a.log.txt''
             ''--- STDOUT ---\<newline>(empty)\<newline>\<newline>--- STDERR ---\<newline>(empty)\<newline>'',
            Unlink ''/d/a__whisper_tmp.wav'']\<rparr>)"
    unfolding job_transcribe_run loop_silent by (simp add: tail_defs)
  from diagnostic_log[OF loop_silent run] show ?thesis
    unfolding run loop_silent by (auto simp: tail_defs)
qed

text \<open>
  The same transcriber where \<open>/d/a.log.txt\<close> exists and is read-only: every variant
  has passed, the stdout is empty, the log keeps its old content and the job fails
  with the error of the write.
\<close>

theorem log_write_refused:
  "job_loop (tools whisper_silent) (req ''/d/a.mp3'') (start (disk [mp3, locked_log]))
     = (Inr (Exhausted [] []),
        \<lparr>fsys = disk [mp3, locked_log, (''/d/a__whisper_tmp.wav'', File ''RIFF'' 10 True True)],
         trace =
           [Exists ''/d/a.mp3'',
            Spawn ''ffmpeg'' [''-y'', ''-i'', ''/d/a.mp3'', ''-ar'', ''16000'', ''-ac'', ''1'', ''-f'', ''wav'', ''/d/a__whisper_tmp.wav''],
            Exists ''/d/a__whisper_tmp.wav'',
            Stat ''/d/a__whisper_tmp.wav'',
            Readdir ''/d'',
            ExecFile ''whisper'' [''-f'', ''/d/a__whisper_tmp.wav'', ''-otxt'', ''-of'', ''/d/a.txt''],
            Exists ''/d/a.txt'',
            Readdir ''/d'',
            ExecFile ''whisper'' [''-f'', ''/d/a__whisper_tmp.wav'', ''-otxt'', ''--output-file'', ''/d/a.txt''],
            Exists ''/d/a.txt'',
            Readdir ''/d'',
            ExecFile ''whisper'' [''-f'', ''/d/a__whisper_tmp.wav'', ''-otxt'', ''-o'', ''/d''],
            Exists ''/d/a.txt'',
            Readdir ''/d'',
            ExecFile ''whisper'' [''-f'', ''/d/a__whisper_tmp.wav'', ''-otxt''],
            Exists ''/d/a.txt'',
            Readdir ''/d'']\<rparr>)
   \<and> trim [] = []
   \<and> fst (job_transcribe (tools whisper_silent) (req ''/d/a.mp3'') (start (disk [mp3, locked_log])))
       = Inr (failed (''EACCES: permission denied, open '' @ quoted ''/d/a.log.txt''))
   \<and> lookup (fsys (snd (job_transcribe (tools whisper_silent) (req ''/d/a.mp3'') (start (disk [mp3, locked_log])))))
         ''/d/a.log.txt''
       = Some (File ''old'' 1 True False)"
  unfolding job_transcribe_run loop_locked_log by (simp add: tail_defs locked_log_def)

text \<open>
  A stdout of one no-break space is blank: the log is written, and holds the
  character.
\<close>

lemma nbsp_stdout_is_blank:
  "stdout (fst (execFile (tools whisper_nbsp) ''whisper'' [] (disk [wav]))) = [CHR 0xA0]
   \<and> trim [CHR 0xA0] = []
   \<and> fst (job_transcribe (tools whisper_nbsp) (req ''/d/a.wav'') (start (disk [wav])))
       = Inr (failed ''Transcription finished but no .txt file was found. Saved logs to /d/a.log.txt'')
   \<and> map_option content
         (lookup (fsys (snd (job_transcribe (tools whisper_nbsp) (req ''/d/a.wav'') (start (disk [wav]))))) ''/d/a.log.txt'')
       = Some (''--- STDOUT ---\<newline>'' @ [CHR 0xA0] @ ''\<newline>\<newline>--- STDERR ---\<newline>(empty)\<newline>'')"
  unfolding run_nbsp by (simp add: look_defs nbsp_facts tools_def whisper_nbsp_def printed_def)

section \<open>C3: the names of the job's files\<close>

text \<open>
  C3, as the code has it. For an input \<open>/s1/.../sn/base.ext\<close> whose directory is a
  normalised absolute path, whose base is not empty and whose extension has no dot, the
  canonical output is \<open>/s1/.../sn/base.txt\<close>, the diagnostic log is
  \<open>/s1/.../sn/base.log.txt\<close>, and the waveform given to the transcriber is the input
  itself when the extension is \<open>wav\<close> in any letter case and
  \<open>/s1/.../sn/base__whisper_tmp.wav\<close> otherwise. The claim names the temporary file
  \<open>base__tmp.wav\<close>; line 72 of the handler names it \<open>base__whisper_tmp.wav\<close>.
\<close>

theorem naming_contract:
  assumes "\<forall>s\<in>set segs. seg_ok s" and "b \<noteq> []" and "CHR ''/'' \<notin> set b"
    and "CHR ''/'' \<notin> set x" and "CHR ''.'' \<notin> set x" and "\<not> (b = ''.'' \<and> x = [])"
  shows "desiredTxt (job_locals (abs_path segs @ ''/'' @ b @ ''.'' @ x))
           = abs_path segs @ ''/'' @ b @ ''.txt''
       \<and> wavForWhisper (job_locals (abs_path segs @ ''/'' @ b @ ''.'' @ x))
           = (if toLowerCase x = ''wav'' then abs_path segs @ ''/'' @ b @ ''.'' @ x
              else abs_path segs @ ''/'' @ b @ ''__whisper_tmp.wav'')
       \<and> diagnostic_path (desiredTxt (job_locals (abs_path segs @ ''/'' @ b @ ''.'' @ x)))
           = abs_path segs @ ''/'' @ b @ ''.log.txt''"
proof -
  let ?ap = "abs_path segs @ CHR ''/'' # b @ CHR ''.'' # x"
  have e: "extname ?ap = CHR ''.'' # x" using assms by (intro extname_join) auto
  have b: "basename ?ap (CHR ''.'' # x) = b" using assms by (intro basename_join) auto
  have d: "dirname ?ap = (if segs = [] then ''/'' else abs_path segs)"
    using assms by (intro dirname_join) auto
  have t: "path_join (dirname ?ap) (b @ ''.txt'') = abs_path segs @ CHR ''/'' # b @ ''.txt''"
    unfolding d using assms(1,3) by (intro path_join_abs_path seg_ok_suffix) auto
  have w: "path_join (dirname ?ap) (b @ ''__whisper_tmp.wav'')
             = abs_path segs @ CHR ''/'' # b @ ''__whisper_tmp.wav''"
    unfolding d using assms(1,3) by (intro path_join_abs_path seg_ok_suffix) auto
  have l: "(toLowerCase (CHR ''.'' # x) = ''.wav'') = (toLowerCase x = ''wav'')"
    by (simp add: toLowerCase_def lower_dot)
  have dg: "diagnostic_path (abs_path segs @ CHR ''/'' # b @ ''.txt'')
              = abs_path segs @ CHR ''/'' # b @ ''.log.txt''"
    using diagnostic_path_txt[of "abs_path segs @ CHR ''/'' # b"] by simp
  show ?thesis
    using t w l dg by (simp add: job_locals_def Let_def e b)
qed

theorem naming_contract_witness:
  "seg_ok ''d'' \<and> ''lecture'' \<noteq> [] \<and> CHR ''/'' \<notin> set ''lecture'' \<and> CHR ''/'' \<notin> set ''mp3''
   \<and> CHR ''.'' \<notin> set ''mp3'' \<and> \<not> (''lecture'' = ''.'' \<and> ''mp3'' = [])
   \<and> desiredTxt (job_locals ''/d/lecture.mp3'') = ''/d/lecture.txt''
   \<and> wavForWhisper (job_locals ''/d/lecture.mp3'') = ''/d/lecture__whisper_tmp.wav''
   \<and> diagnostic_path (desiredTxt (job_locals ''/d/lecture.mp3'')) = ''/d/lecture.log.txt''"
proof -
  have s: "seg_ok ''d''" by (simp add: seg_ok_def is_entry_name_def)
  have l: "toLowerCase ''mp3'' \<noteq> ''wav''" by (simp add: toLowerCase_def lower_char_def)
  have d: "diagnostic_path ''/d/lecture.txt'' = ''/d/lecture.log.txt''" by code_simp
  show ?thesis
    using naming_contract[of "[''d'']" "''lecture''" "''mp3''"] s l d
    by (simp add: abs_path_def)
qed

text \<open>
  The temporary file of \<open>/d/lecture.mp3\<close> is not \<open>/d/lecture__tmp.wav\<close>.
\<close>

theorem temp_name_counterexample:
  "wavForWhisper (job_locals ''/d/lecture.mp3'') \<noteq> ''/d/lecture__tmp.wav''"
  by code_simp

section \<open>C4: an ok result and its output\<close>

text \<open>
  C4, as the code has it. Whenever the handler returns a result with \<open>ok\<close>, from any
  world and with any external programs, the \<open>outputPath\<close> of the result is the
  canonical output path, and in the world that the handler leaves this path exists and
  the size that \<^verbatim>\<open>stat\<close> gives for it is positive; so a regular file at the path has
  content that is not empty. The three routes to an \<open>ok\<close> result (the direct match,
  the heuristic match with its copy, the stdout fallback) are the cases of the proof.
  The claim has a file with content at the path in every case; the third theorem
  below is an \<open>ok\<close> result over a directory.
\<close>

theorem ok_output_nonempty:
  assumes "job_transcribe env rq w = (Inr res, w')" and "ok res"
  shows "outputPath res = Some (desiredTxt (job_locals (audioPath rq)))
       \<and> fs_exists (fsys w') (desiredTxt (job_locals (audioPath rq)))
       \<and> fs_nonempty (fsys w') (desiredTxt (job_locals (audioPath rq)))
       \<and> (\<forall>c t r x. lookup (fsys w') (desiredTxt (job_locals (audioPath rq))) = Some (File c t r x)
            \<longrightarrow> c \<noteq> [])"
proof -
  let ?L = "job_locals (audioPath rq)"
  from assms(1) have body: "job_body env rq w = (Inr res, w')"
    by (rule job_transcribe_cases) (use assms(2) in \<open>auto simp: failed_def\<close>)
  then obtain ex w2 where l: "job_loop env rq w = (Inr ex, w2)"
    and a: "after_loop ?L ex w2 = (Inr res, w')"
    unfolding job_body_def by (rule io_bind_returns)
  have n: "outputPath res = Some (desiredTxt ?L) \<and> fs_nonempty (fsys w') (desiredTxt ?L)"
  proof (rule after_loop_ok[OF a assms(2)])
    fix r assume r: "ex = Return r"
    with a have "res = r" by (simp add: after_loop_def io_return_run)
    with l r assms(2) show "r = succeeded (desiredTxt ?L) None \<and> fs_nonempty (fsys w2) (desiredTxt ?L)"
      using job_loop_ok by blast
  next
    show "isWav ?L \<or> fs_key (wavForWhisper ?L) \<noteq> fs_key (desiredTxt ?L)"
      using temp_not_output_key[of "audioPath rq"] by blast
  qed
  then have "\<forall>c t r x. lookup (fsys w') (desiredTxt ?L) = Some (File c t r x) \<longrightarrow> c \<noteq> []"
    by (auto simp: fs_nonempty_lookup)
  then show ?thesis using n fs_nonempty_exists by blast
qed

text \<open>
  The heuristic route: the transcript \<open>/d/a.wav.txt\<close> is copied to \<open>/d/a.txt\<close>.
\<close>

theorem ok_output_nonempty_witness:
  "fst (job_transcribe (tools whisper_bare) (req ''/d/a.wav'') (start (disk [wav])))
     = Inr (succeeded ''/d/a.txt'' None)
   \<and> ok (succeeded ''/d/a.txt'' None)
   \<and> outputPath (succeeded ''/d/a.txt'' None) = Some ''/d/a.txt''
   \<and> fs_exists (fsys (snd (job_transcribe (tools whisper_bare) (req ''/d/a.wav'') (start (disk [wav]))))) ''/d/a.txt''
   \<and> fs_nonempty (fsys (snd (job_transcribe (tools whisper_bare) (req ''/d/a.wav'') (start (disk [wav]))))) ''/d/a.txt''
   \<and> lookup (fsys (snd (job_transcribe (tools whisper_bare) (req ''/d/a.wav'') (start (disk [wav]))))) ''/d/a.txt''
       = Some (File ''test transcript'' 10 True True)"
  using ok_output_nonempty[OF run_wav_bare]
  unfolding run_wav_bare by (simp add: look_defs req_def)

text \<open>
  A directory at \<open>/d/a.txt\<close> and a transcriber that writes nothing: the path exists and
  its size is positive, so the direct check of the first attempt accepts it and the
  result is \<open>ok\<close>; there is no file content at the path, and reading it fails.
\<close>

theorem directory_accepted:
  "fst (job_transcribe (tools whisper_silent) (req ''/d/a.wav'') (start (disk [wav, dir_txt])))
     = Inr (succeeded ''/d/a.txt'' None)
   \<and> ok (succeeded ''/d/a.txt'' None)
   \<and> outputPath (succeeded ''/d/a.txt'' None) = Some ''/d/a.txt''
   \<and> lookup (fsys (snd (job_transcribe (tools whisper_silent) (req ''/d/a.wav'') (start (disk [wav, dir_txt]))))) ''/d/a.txt''
       = Some (Dir True 4096 0)
   \<and> fs_readFile (fsys (snd (job_transcribe (tools whisper_silent) (req ''/d/a.wav'') (start (disk [wav, dir_txt]))))) ''/d/a.txt''
       = Inl (Error ''EISDIR: illegal operation on a directory, read'')"
  unfolding run_dir_txt by (simp add: look_defs fs_readFile_def dir_txt_def)

section \<open>C5: the order of the attempts\<close>



section \<open>C6: the stdout fallback\<close>

text \<open>
  C6, as the code has it. If the loop has passed every variant without a direct or
  heuristic match and the last captured stdout is not blank when trimmed (it holds a
  character that is not white space of \<^verbatim>\<open>String.prototype.trim\<close>), the handler
  writes the stdout as it is, untrimmed, to the canonical output path. When the file
  system accepts the write, the file holds exactly the stdout and the result is \<open>ok\<close>
  with the note \<open>Saved from stdout fallback.\<close>; when it refuses, the job fails with the
  message of the error. The claim has the result \<open>ok\<close> in every case;
  the third theorem below is a job where the write is refused.
\<close>

theorem stdout_fallback:
  assumes "job_loop env rq (start f) = (Inr (Exhausted out err), w2)" and "0 < length (trim out)"
  shows "case fs_writeFile (fsys w2) (desiredTxt (job_locals (audioPath rq))) out of
           Inr g \<Rightarrow>
             (\<exists>w'. job_transcribe env rq (start f)
                     = (Inr (succeeded (desiredTxt (job_locals (audioPath rq)))
                               (Some ''Saved from stdout fallback.'')), w')
                  \<and> WriteFile (desiredTxt (job_locals (audioPath rq))) out \<in> set (trace w')
                  \<and> (\<exists>t r x. lookup (fsys w') (desiredTxt (job_locals (audioPath rq)))
                               = Some (File out t r x)))
         | Inl e \<Rightarrow>
             (\<exists>w'. job_transcribe env rq (start f)
                     = (Inr (failed (if message e = [] then ''Error'' else message e)), w'))"
proof (cases "fs_writeFile (fsys w2) (desiredTxt (job_locals (audioPath rq))) out")
  case (Inl e)
  then show ?thesis
    by (simp add: job_transcribe_run assms(1) after_loop_stdout[OF assms(2)])
next
  case (Inr g)
  let ?L = "job_locals (audioPath rq)"
  have d: "isWav ?L \<or> fs_key (wavForWhisper ?L) \<noteq> fs_key (desiredTxt ?L)"
    using temp_not_output_key[of "audioPath rq"] by blast
  from lookup_write_same[OF Inr] obtain t r x where
    "lookup g (desiredTxt ?L) = Some (File out t r x)" by blast
  then show ?thesis
    using Inr d
    by (simp add: job_transcribe_run assms(1) after_loop_stdout[OF assms(2)] lookup_cleaned
        trace_cleaned record_event_def)
qed

text \<open>
  A transcriber that writes no file and prints \<open>partial output text\<close>.
\<close>

theorem stdout_fallback_witness:
  "job_loop (tools whisper_print) (req ''/d/a.mp3'') (start (disk [mp3]))
     = (Inr (Exhausted ''partial output text'' []),
        \<lparr>fsys = disk [mp3, (''/d/a__whisper_tmp.wav'', File ''RIFF'' 10 True True)],
         trace =
           [Exists ''/d/a.mp3'',
            Spawn ''ffmpeg'' [''-y'', ''-i'', ''/d/a.mp3'', ''-ar'', ''16000'', ''-ac'', ''1'', ''-f'', ''wav'', ''/d/a__whisper_tmp.wav''],
            Exists ''/d/a__whisper_tmp.wav'',
            Stat ''/d/a__whisper_tmp.wav'',
            Readdir ''/d'',
            ExecFile ''whisper'' [''-f'', ''/d/a__whisper_tmp.wav'', ''-otxt'', ''-of'', ''/d/a.txt''],
            Exists ''/d/a.txt'',
            Readdir ''/d'',
            ExecFile ''whisper'' [''-f'', ''/d/a__whisper_tmp.wav'', ''-otxt'', ''--output-file'', ''/d/a.txt''],
            Exists ''/d/a.txt'',
            Readdir ''/d'',
            ExecFile ''whisper'' [''-f'', ''/d/a__whisper_tmp.wav'', ''-otxt'', ''-o'', ''/d''],
            Exists ''/d/a.txt'',
            Readdir ''/d'',
            ExecFile ''whisper'' [''-f'', ''/d/a__whisper_tmp.wav'', ''-otxt''],
            Exists ''/d/a.txt'',
            Readdir ''/d'']\<rparr>)
   \<and> 0 < length (trim ''partial output text'')
   \<and> fst (job_transcribe (tools whisper_print) (req ''/d/a.mp3'') (start (disk [mp3])))
       = Inr (succeeded ''/d/a.txt'' (Some ''Saved from stdout fallback.''))
   \<and> WriteFile ''/d/a.txt'' ''partial output text''
       \<in> set (trace (snd (job_transcribe (tools whisper_print) (req ''/d/a.mp3'') (start (disk [mp3])))))
   \<and> map_option content
         (lookup (fsys (snd (job_transcribe (tools whisper_print) (req ''/d/a.mp3'') (start (disk [mp3]))))) ''/d/a.txt'')
       = Some ''partial output text''"
proof -
  have nb: "0 < length (trim ''partial output text'')" by (simp add: scenario_paths)
  from stdout_fallback[OF loop_stdout nb] show ?thesis
    unfolding loop_stdout by (auto simp: tail_defs)
qed

text \<open>
  The same transcriber where \<open>/d/a.txt\<close> exists, empty and read-only: every variant
  has passed, the stdout is not blank, the result is not \<open>ok\<close> and the file is still
  empty.
\<close>

theorem fallback_write_refused:
  "job_loop (tools whisper_print) (req ''/d/a.mp3'') (start (disk [mp3, locked_txt]))
     = (Inr (Exhausted ''partial output text'' []),
        \<lparr>fsys = disk [mp3, locked_txt, (''/d/a__whisper_tmp.wav'', File ''RIFF'' 10 True True)],
         trace =
           [Exists ''/d/a.mp3'',
            Spawn ''ffmpeg'' [''-y'', ''-i'', ''/d/a.mp3'', ''-ar'', ''16000'', ''-ac'', ''1'', ''-f'', ''wav'', ''/d/a__whisper_tmp.wav''],
            Exists ''/d/a__whisper_tmp.wav'',
            Stat ''/d/a__whisper_tmp.wav'',
            Readdir ''/d'',
            ExecFile ''whisper'' [''-f'', ''/d/a__whisper_tmp.wav'', ''-otxt'', ''-of'', ''/d/a.txt''],
            Exists ''/d/a.txt'',
            Stat ''/d/a.txt'',
            Readdir ''/d'',
            ExecFile ''whisper'' [''-f'', ''/d/a__whisper_tmp.wav'', ''-otxt'', ''--output-file'', ''/d/a.txt''],
            Exists ''/d/a.txt'',
            Stat ''/d/a.txt'',
            Readdir ''/d'',
            ExecFile ''whisper'' [''-f'', ''/d/a__whisper_tmp.wav'', ''-otxt'', ''-o'', ''/d''],
            Exists ''/d/a.txt'',
            Stat ''/d/a.txt'',
            Readdir ''/d'',
            ExecFile ''whisper'' [''-f'', ''/d/a__whisper_tmp.wav'', ''-otxt''],
            Exists ''/d/a.txt'',
            Stat ''/d/a.txt'',
            Readdir ''/d'']\<rparr>)
   \<and> 0 < length (trim ''partial output text'')
   \<and> fst (job_transcribe (tools whisper_print) (req ''/d/a.mp3'') (start (disk [mp3, locked_txt])))
       = Inr (failed (''EACCES: permission denied, open '' @ quoted ''/d/a.txt''))
   \<and> lookup (fsys (snd (job_transcribe (tools whisper_print) (req ''/d/a.mp3'') (start (disk [mp3, locked_txt])))))
         ''/d/a.txt''
       = Some (File [] 1 True False)"
  unfolding job_transcribe_run loop_locked_txt by (simp add: tail_defs locked_txt_def)

section \<open>C7: the exit status of the transcriber\<close>




section \<open>C8: the direct match comes first\<close>

text \<open>
  C8, as the code has it. The handler runs the first variant before its first check.
  If the runtime accepts the arguments of that first invocation, so that it runs, and
  the canonical output path exists with a positive size when it has returned, the
  first check accepts it: the result is \<open>ok\<close> with that path, after
  the invocation the handler only checks that the path exists and takes its size (and
  unlinks the temporary waveform of a converted input), there is no listing of the
  directory, and the file is as the invocation left it. The claim takes the state
  before any attempt; the third theorem below is a job where the first invocation
  empties the file that was there.
\<close>

theorem direct_match_first:
  assumes "job_setup env rq (start f) = (Inr (Ready bin common pre), w1)"
    and "execFile env bin (hd (variants (job_locals (audioPath rq)) common)) (fsys w1) = (x, f1)"
    and "fs_nonempty f1 (desiredTxt (job_locals (audioPath rq)))"
    and "args_ok bin (hd (variants (job_locals (audioPath rq)) common))"
  shows "\<exists>w'. job_transcribe env rq (start f)
               = (Inr (succeeded (desiredTxt (job_locals (audioPath rq))) None), w')
            \<and> trace w' = trace w1
                @ [ExecFile bin (hd (variants (job_locals (audioPath rq)) common)),
                   Exists (desiredTxt (job_locals (audioPath rq))),
                   Stat (desiredTxt (job_locals (audioPath rq)))]
                @ (if isWav (job_locals (audioPath rq)) then []
                   else [Unlink (wavForWhisper (job_locals (audioPath rq)))])
            \<and> lookup (fsys w') (desiredTxt (job_locals (audioPath rq)))
                = lookup f1 (desiredTxt (job_locals (audioPath rq)))"
proof -
  let ?L = "job_locals (audioPath rq)"
  obtain v vs where v: "variants ?L common = v # vs" by (simp add: variants_def)
  have ex: "fs_exists f1 (desiredTxt ?L)" using assms(3) by (rule fs_nonempty_exists)
  have d: "isWav ?L \<or> fs_key (wavForWhisper ?L) \<noteq> fs_key (desiredTxt ?L)"
    using temp_not_output_key[of "audioPath rq"] by blast
  have "job_loop env rq (start f)
          = (Inr (Return (succeeded (desiredTxt ?L) None)),
             cleaned ?L (w1\<lparr>fsys := f1,
                            trace := trace w1 @ [ExecFile bin v, Exists (desiredTxt ?L), Stat (desiredTxt ?L)]\<rparr>))"
    using assms(2,3,4) ex unfolding job_loop_ready[OF assms(1)] v attempts_Cons_run
    by (simp add: Let_def)
  then show ?thesis
    using d by (simp add: job_transcribe_run after_loop_Return v trace_cleaned lookup_cleaned)
qed

text \<open>
  An output that is there before the job, and a transcriber that touches nothing.
\<close>

theorem direct_match_first_witness:
  "job_setup (tools whisper_silent) (req ''/d/a.wav'') (start (disk [wav, done_txt]))
     = (Inr (Ready ''whisper'' [] [''/d/a.txt'']),
        \<lparr>fsys = disk [wav, done_txt],
         trace =
           [Exists ''/d/a.wav'',
            Readdir ''/d'']\<rparr>)
   \<and> fs_nonempty (disk [wav, done_txt]) ''/d/a.txt''
   \<and> fst (job_transcribe (tools whisper_silent) (req ''/d/a.wav'') (start (disk [wav, done_txt])))
       = Inr (succeeded ''/d/a.txt'' None)
   \<and> trace (snd (job_transcribe (tools whisper_silent) (req ''/d/a.wav'') (start (disk [wav, done_txt]))))
       = [Exists ''/d/a.wav'', Readdir ''/d'',
          ExecFile ''whisper'' [''-f'', ''/d/a.wav'', ''-otxt'', ''-of'', ''/d/a.txt''],
          Exists ''/d/a.txt'', Stat ''/d/a.txt'']
   \<and> lookup (fsys (snd (job_transcribe (tools whisper_silent) (req ''/d/a.wav'') (start (disk [wav, done_txt])))))
         ''/d/a.txt''
       = Some (File ''done'' 1 True True)"
proof -
  let ?w1 = "\<lparr>fsys = disk [wav, done_txt],
              trace =
                [Exists ''/d/a.wav'',
                 Readdir ''/d'']\<rparr>"
  have x: "execFile (tools whisper_silent) ''whisper''
             (hd (variants (job_locals (audioPath (req ''/d/a.wav''))) [])) (fsys ?w1)
           = (printed [], disk [wav, done_txt])"
    by (simp add: tools_def whisper_silent_def)
  have y: "fs_nonempty (disk [wav, done_txt])
             (desiredTxt (job_locals (audioPath (req ''/d/a.wav''))))"
    by (simp add: look_defs req_def done_txt_def)
  have z: "args_ok ''whisper'' (hd (variants (job_locals (audioPath (req ''/d/a.wav''))) []))"
    by (simp add: args_ok_def variants_def req_def scenario_paths)
  from direct_match_first[OF setup_done x y z] show ?thesis
    unfolding setup_done by (auto simp: look_defs req_def variants_def done_txt_def)
qed

text \<open>
  An output that is there before the job, and a transcriber that opens it for writing
  and fails: the first check finds it empty, no variant gives a match, and the job
  fails.
\<close>

theorem existing_output_truncated:
  "fs_nonempty (disk [wav, done_txt]) ''/d/a.txt''
   \<and> fst (job_transcribe (tools whisper_truncate) (req ''/d/a.wav'') (start (disk [wav, done_txt])))
       = Inr (failed ''Transcription finished but no .txt file was found. Saved logs to /d/a.log.txt'')
   \<and> lookup (fsys (snd (job_transcribe (tools whisper_truncate) (req ''/d/a.wav'') (start (disk [wav, done_txt])))))
         ''/d/a.txt''
       = Some (File [] 10 True True)"
  unfolding run_truncate by (simp add: look_defs done_txt_def)

text \<open>
  The statement above takes the first invocation as run. With a language code that
  holds a NUL character the runtime refuses it: the output that is there is never
  checked, and the job fails.
\<close>

lemma refused_invocation_skips_check:
  "fs_nonempty (disk [wav, done_txt]) ''/d/a.txt''
   \<and> \<not> args_ok ''whisper'' (hd (variants (job_locals ''/d/a.wav'') [''-l'', language req_nul]))
   \<and> fst (job_transcribe (tools whisper_silent) req_nul (start (disk [wav, done_txt])))
       = Inr (failed null_bytes)
   \<and> trace (snd (job_transcribe (tools whisper_silent) req_nul (start (disk [wav, done_txt]))))
       = [Exists ''/d/a.wav'', Readdir ''/d'']"
  unfolding run_nul_done
  by (simp add: look_defs done_txt_def args_ok_def has_nul_def variants_def req_nul_def req_def)

section \<open>C9: a waveform input\<close>

text \<open>
  C9. For a request whose audio path has the extension \<open>.wav\<close> in any letter case,
  whatever the handler returns: the waveform given to the transcriber is the input
  itself, the converter is never run, every write goes to the canonical output path
  or, in a job that fails, to the diagnostic log, and every unlink removes a text file
  of the directory that the handler has read, the file of a heuristic match.
\<close>

theorem wav_input_frame:
  assumes "job_transcribe env rq (start f) = (r, w')" and "isWav (job_locals (audioPath rq))"
  shows "wavForWhisper (job_locals (audioPath rq)) = audioPath rq
       \<and> (\<forall>x a. Spawn x a \<notin> set (trace w'))
       \<and> (\<forall>p c. WriteFile p c \<in> set (trace w') \<longrightarrow>
              p = desiredTxt (job_locals (audioPath rq))
              \<or> (p = diagnostic_path (desiredTxt (job_locals (audioPath rq)))
                  \<and> (\<exists>res. r = Inr res \<and> \<not> ok res)))
       \<and> (\<forall>p. Unlink p \<in> set (trace w') \<longrightarrow>
              txt_entry (dir (job_locals (audioPath rq))) p \<and> ReadFile p \<in> set (trace w'))"
proof -
  let ?L = "job_locals (audioPath rq)"
  from assms(1) obtain tr rs where t: "trace w' = tr @ rs" "tidy ?L tr"
    and rs: "rs = []
     \<or> (\<exists>c. rs = WriteFile (desiredTxt ?L) c
                  # (if isWav ?L \<or> (\<exists>res. r = Inr res \<and> \<not> ok res) then []
                     else [Unlink (wavForWhisper ?L)]))
     \<or> (\<exists>c cl. rs = WriteFile (diagnostic_path (desiredTxt ?L)) c # cl
               \<and> (\<exists>res. r = Inr res \<and> \<not> ok res)
               \<and> (cl = [] \<or> (\<not> isWav ?L \<and> cl = [Unlink (wavForWhisper ?L)])))"
    by (rule job_trace)
  have 1: "wavForWhisper ?L = audioPath rq" using assms(2) by (simp add: job_locals_def Let_def)
  have 2: "\<forall>x a. Spawn x a \<notin> set (trace w')"
    using t rs assms(2) by (fastforce simp: tidy_def loop_event_def)
  have 3: "\<forall>p c. WriteFile p c \<in> set (trace w') \<longrightarrow>
              p = desiredTxt ?L \<or> (p = diagnostic_path (desiredTxt ?L) \<and> (\<exists>res. r = Inr res \<and> \<not> ok res))"
    using t rs assms(2) by (fastforce simp: tidy_def loop_event_def)
  have 4: "\<forall>p. Unlink p \<in> set (trace w') \<longrightarrow> txt_entry (dir ?L) p \<and> ReadFile p \<in> set (trace w')"
    using t rs assms(2) by (fastforce simp: tidy_def loop_event_def)
  show ?thesis using 1 2 3 4 by blast
qed

text \<open>
  The job that copies \<open>/d/s.txt\<close> to the output and unlinks it.
\<close>

theorem wav_input_frame_witness:
  "isWav (job_locals ''/d/a.wav'')
   \<and> wavForWhisper (job_locals ''/d/a.wav'') = ''/d/a.wav''
   \<and> Spawn ''ffmpeg'' [] \<notin> set (trace (snd (job_transcribe (tools whisper_stray) (req ''/d/a.wav'') (start (disk [wav])))))
   \<and> WriteFile ''/d/a.txt'' ''late''
       \<in> set (trace (snd (job_transcribe (tools whisper_stray) (req ''/d/a.wav'') (start (disk [wav])))))
   \<and> Unlink ''/d/s.txt''
       \<in> set (trace (snd (job_transcribe (tools whisper_stray) (req ''/d/a.wav'') (start (disk [wav])))))
   \<and> txt_entry ''/d'' ''/d/s.txt''
   \<and> ReadFile ''/d/s.txt''
       \<in> set (trace (snd (job_transcribe (tools whisper_stray) (req ''/d/a.wav'') (start (disk [wav])))))"
proof -
  have w: "isWav (job_locals (audioPath (req ''/d/a.wav'')))" by (simp add: req_def scenario_paths)
  from wav_input_frame[OF run_stray w] show ?thesis
    unfolding run_stray by (simp add: req_def scenario_paths)
qed

section \<open>C10: the probes are total\<close>

text \<open>
  C10. In every world, \<^verbatim>\<open>listTxt\<close>, \<^verbatim>\<open>fileNonEmpty\<close>, \<^verbatim>\<open>newestByMtime\<close>,
  \<^verbatim>\<open>safeUnlink\<close> and \<^verbatim>\<open>cleanupTemp\<close> return a value and never throw. When the
  listing of the directory fails the list is empty; when \<^verbatim>\<open>stat\<close> fails the file counts
  as empty; the newest file is one of the given paths whose \<^verbatim>\<open>stat\<close> succeeds; when the
  unlink fails the file system is left as it was.
\<close>

theorem probes_total:
  "(\<exists>names. listTxt d w = (Inr names, record_event (Readdir d) w)
            \<and> ((\<exists>e. fs_readdir (fsys w) d = Inl e) \<longrightarrow> names = []))
   \<and> (\<exists>b. fileNonEmpty p w = (Inr b, record_event (Stat p) w)
          \<and> ((\<exists>e. fs_stat (fsys w) p = Inl e) \<longrightarrow> \<not> b))
   \<and> (\<exists>best. newestByMtime ps w = (Inr best, record_events (map Stat ps) w)
             \<and> (\<forall>q. best = Some q \<longrightarrow> q \<in> set ps \<and> (\<exists>st. fs_stat (fsys w) q = Inr st)))
   \<and> (\<exists>w'. safeUnlink p w = (Inr (), w')
           \<and> ((\<exists>e. fs_unlink (fsys w) p = Inl e) \<longrightarrow> fsys w' = fsys w))
   \<and> (\<exists>w'. cleanupTemp p wasWav w = (Inr (), w'))"
proof (intro conjI)
  show "\<exists>names. listTxt d w = (Inr names, record_event (Readdir d) w)
            \<and> ((\<exists>e. fs_readdir (fsys w) d = Inl e) \<longrightarrow> names = [])"
    by (auto simp: listTxt_run fs_listTxt_def)
  show "\<exists>b. fileNonEmpty p w = (Inr b, record_event (Stat p) w)
          \<and> ((\<exists>e. fs_stat (fsys w) p = Inl e) \<longrightarrow> \<not> b)"
    by (auto simp: fileNonEmpty_run fs_nonempty_def)
  show "\<exists>best. newestByMtime ps w = (Inr best, record_events (map Stat ps) w)
             \<and> (\<forall>q. best = Some q \<longrightarrow> q \<in> set ps \<and> (\<exists>st. fs_stat (fsys w) q = Inr st))"
    using fs_newest_picks[of "fsys w" ps "- 1"] by (simp add: newestByMtime_run)
  show "\<exists>w'. safeUnlink p w = (Inr (), w')
           \<and> ((\<exists>e. fs_unlink (fsys w) p = Inl e) \<longrightarrow> fsys w' = fsys w)"
    by (auto simp: safeUnlink_run fs_safeUnlink_def record_event_def)
  show "\<exists>w'. cleanupTemp p wasWav w = (Inr (), w')"
    by (simp add: cleanupTemp_run)
qed

text \<open>
  On a disk without \<open>/d/a.txt\<close> every probe of that path fails inside and returns.
\<close>

theorem probes_total_witness:
  "fst (listTxt ''/d/a.txt'' (start (disk []))) = Inr []
   \<and> fst (fileNonEmpty ''/d/a.txt'' (start (disk []))) = Inr False
   \<and> fst (newestByMtime [''/d/a.txt''] (start (disk []))) = Inr None
   \<and> fst (safeUnlink ''/d/a.txt'' (start (disk []))) = Inr ()
   \<and> fsys (snd (safeUnlink ''/d/a.txt'' (start (disk [])))) = disk []
   \<and> fst (cleanupTemp ''/d/a.txt'' False (start (disk []))) = Inr ()"
  using probes_total[where d = "''/d/a.txt''" and w = "start (disk [])" and p = "''/d/a.txt''"
      and ps = "[''/d/a.txt'']" and wasWav = False]
  by (simp add: listTxt_run fileNonEmpty_run newestByMtime_run safeUnlink_run cleanupTemp_run
      look_defs fs_safeUnlink_def fs_unlink_def record_event_def record_events_def)

end
